(* ===== verification/Prelude.thy ===== *)
theory Prelude
  imports Complex_Main "HOL-Library.Word" "HOL-Library.Multiset" "HOL-Library.Product_Lexorder"
begin

text \<open>
  Shared vocabulary of the development: the machine integer types of the C++ sources
  (\<open>uint8_t\<close>, \<open>uint32_t\<close>, \<open>uint64_t\<close>/\<open>size_t\<close> as words), the scalar type
  (\<open>float\<close>/\<open>double\<close> modelled by \<open>real\<close>, so rounding, NaN and signed zero are
  not modelled except where a division by zero is written out), the error type through
  which every throw and every undefined access of the sources becomes a value, the
  bounds-checked vector access that stands for \<open>std::vector::operator[]\<close>, and the
  generic lemmas on lists, sums and words that the component theories share.
\<close>

unbundle bit_operations_syntax

type_synonym u8 = "8 word"
type_synonym u32 = "32 word"
type_synonym u64 = "64 word"

text \<open>\<open>float\<close> (the \<open>weight\<close> typedef of array_parameters_dense.h) and \<open>double\<close>.\<close>

type_synonym weight = real

text \<open>
  A scalar output that may be produced by a floating-point division:
  \<open>Some x\<close> is a finite value, \<open>None\<close> stands for NaN or an infinity.
\<close>

type_synonym fval = "real option"

definition fdiv :: "real \<Rightarrow> real \<Rightarrow> fval" where
  "fdiv x y = (if y = 0 then None else Some (x / y))"

text \<open>
  Errors. \<open>Allocation_error\<close>, \<open>Configuration_error\<close> and \<open>Malformed_input\<close> are the
  exceptions the sources throw (THROW, \<open>calloc_mergable_or_throw\<close>);
  \<open>Unexpected_eof\<close> is the exception of the validated model-file reader;
  \<open>Base_error\<close> is an exception raised by a base learner; \<open>Out_of_range\<close>,
  \<open>Null_deref\<close>, \<open>Use_after_free\<close> and \<open>Double_free\<close> are the undefined
  behaviours of the C++ code (an unchecked index past the end of a buffer or vector, a
  dereference of \<open>nullptr\<close>, an access to or a second \<open>free\<close> of a freed buffer),
  which the model makes visible instead of returning an unspecified value.
\<close>

datatype error =
    Allocation_error
  | Configuration_error string
  | Malformed_input string
  | Unexpected_eof
  | Base_error
  | Out_of_range
  | Null_deref
  | Use_after_free
  | Double_free

named_theorems vw_simps "evaluation rules of the shared helpers"

subsection \<open>Bounds-checked vector access\<close>

definition arr_get :: "'a list \<Rightarrow> nat \<Rightarrow> error + 'a" where
  "arr_get xs i = (if i < length xs then Inr (xs ! i) else Inl Out_of_range)"

definition arr_set :: "'a list \<Rightarrow> nat \<Rightarrow> 'a \<Rightarrow> error + 'a list" where
  "arr_set xs i v = (if i < length xs then Inr (xs[i := v]) else Inl Out_of_range)"

text \<open>
  A loop whose body may fault: the first fault ends it (a range-for over a container),
  and the element-wise variant that builds a list (a \<open>push_back\<close> loop).
\<close>

fun fold_err :: "('a \<Rightarrow> 's \<Rightarrow> error + 's) \<Rightarrow> 'a list \<Rightarrow> 's \<Rightarrow> error + 's" where
  "fold_err f [] s = Inr s"
| "fold_err f (x # xs) s = (case f x s of Inl e \<Rightarrow> Inl e | Inr s' \<Rightarrow> fold_err f xs s')"

fun map_err :: "('a \<Rightarrow> error + 'b) \<Rightarrow> 'a list \<Rightarrow> error + 'b list" where
  "map_err f [] = Inr []"
| "map_err f (x # xs) =
     (case f x of
        Inl e \<Rightarrow> Inl e
      | Inr y \<Rightarrow> (case map_err f xs of Inl e \<Rightarrow> Inl e | Inr ys \<Rightarrow> Inr (y # ys)))"

text \<open>
  \<open>static_cast\<close> from \<open>float\<close> to an unsigned integer: truncation toward zero. A
  value outside the target range is undefined in C++; the model wraps it.
\<close>

definition float_to_word :: "real \<Rightarrow> 'a::len word" where
  "float_to_word v = word_of_int (if 0 \<le> v then floor v else ceiling v)"

lemma arr_get_in [simp, vw_simps]: "i < length xs \<Longrightarrow> arr_get xs i = Inr (xs ! i)"
  by (simp add: arr_get_def)

lemma arr_set_in [simp, vw_simps]: "i < length xs \<Longrightarrow> arr_set xs i v = Inr (xs[i := v])"
  by (simp add: arr_set_def)

lemma arr_get_out [vw_simps]: "length xs \<le> i \<Longrightarrow> arr_get xs i = Inl Out_of_range"
  by (simp add: arr_get_def)

lemma arr_set_out [vw_simps]: "length xs \<le> i \<Longrightarrow> arr_set xs i v = Inl Out_of_range"
  by (simp add: arr_set_def)

lemma arr_set_length: "arr_set xs i v = Inr ys \<Longrightarrow> length ys = length xs"
  by (auto simp: arr_set_def split: if_splits)

lemma fold_err_preserves:
  assumes "\<And>x s. x \<in> set xs \<Longrightarrow> P s \<Longrightarrow> \<exists>s'. f x s = Inr s' \<and> P s'" and "P s"
  shows "\<exists>s'. fold_err f xs s = Inr s' \<and> P s'"
  using assms by (induction xs arbitrary: s) (auto, metis old.sum.simps(6))

lemma fold_err_keeps:
  assumes "fold_err f xs s = Inr s'" and "Q s" and "P s"
    and pres: "\<And>y t t'. Q t \<Longrightarrow> f y t = Inr t' \<Longrightarrow> Q t' \<and> (P t \<longrightarrow> P t')"
  shows "P s'"
  using assms(1-3)
proof (induction xs arbitrary: s)
  case (Cons y ys)
  then obtain t where "f y s = Inr t" and "fold_err f ys t = Inr s'" by (auto split: sum.splits)
  then show ?case using Cons pres by blast
qed simp

text \<open>A property one step of the fold establishes and every step keeps holds at the end.\<close>

lemma fold_err_establish:
  assumes "fold_err f xs s = Inr s'" and "x \<in> set xs" and "Q s"
    and pres: "\<And>y t t'. Q t \<Longrightarrow> f y t = Inr t' \<Longrightarrow> Q t' \<and> (P t \<longrightarrow> P t')"
    and est: "\<And>t t'. Q t \<Longrightarrow> f x t = Inr t' \<Longrightarrow> P t'"
  shows "P s'"
  using assms(1-3)
proof (induction xs arbitrary: s)
  case (Cons y ys)
  then obtain t where t: "f y s = Inr t" and r: "fold_err f ys t = Inr s'" by (auto split: sum.splits)
  have Qt: "Q t" using pres [OF Cons.prems(3) t] by blast
  show ?case
  proof (cases "x = y")
    case True
    then have "P t" using est [OF Cons.prems(3)] t by simp
    then show ?thesis by (rule fold_err_keeps [where Q = Q and P = P, OF r Qt]) (rule pres)
  next
    case False
    then show ?thesis using Cons.IH [OF r _ Qt] Cons.prems(2) by simp
  qed
qed simp

lemma map_err_map:
  "(\<And>x. x \<in> set xs \<Longrightarrow> f x = Inr (g x)) \<Longrightarrow> map_err f xs = Inr (map g xs)"
  by (induction xs) auto

subsection \<open>Words\<close>

lemma unat_and_le: "unat ((i :: 'a::len word) AND m) \<le> unat m"
  by (rule word_and_le1 [THEN word_le_nat_alt [THEN iffD1]])

lemma and_mask_idem [simp]: "((i :: 'a::len word) AND m) AND m = i AND m"
  by (simp add: ac_simps)

lemma unat_drop_bit_and_le:
  "unat (drop_bit s ((i :: 'a::len word) AND m)) \<le> unat (drop_bit s m)"
  by (simp only: unat_drop_bit_eq) (simp add: drop_bit_eq_div div_le_mono unat_and_le)

lemma unat_ucast_u32: "unat (ucast (i::u32) :: u64) = unat i"
proof -
  have "unat i < 2 ^ 32" using unsigned_less [of i] by simp
  then have "unat i < 2 ^ 64" by simp
  then show ?thesis by (simp add: unsigned_ucast_eq take_bit_nat_eq_self)
qed

lemma ucast_less_u64: "(ucast (i::u32) < (s::u64)) \<longleftrightarrow> unat i < unat s"
  by (simp add: word_less_nat_alt unat_ucast_u32)

lemma unat_u32_inc: "unat (i::u32) + 1 < 2 ^ 32 \<Longrightarrow> unat (i + 1) = Suc (unat i)"
  using unat_add_lem [of i 1] by simp

subsection \<open>Lists and sums\<close>

lemma sum_list_update_add:
  "i < length xs \<Longrightarrow> sum_list (xs[i := xs ! i + (d :: real)]) = sum_list xs + d"
  by (induction xs arbitrary: i) (auto split: nat.split)

lemma sum_list_map_if_split:
  "sum_list (map (\<lambda>p. if P p then f p else g p) xs) =
   sum_list (map (\<lambda>p. if P p then f p else 0) xs) + sum_list (map (\<lambda>p. if P p then 0 else g p) xs)"
  for f g :: "'a \<Rightarrow> real"
  by (induction xs) auto

lemma sum_list_map_le_const:
  "(\<And>p. p \<in> set xs \<Longrightarrow> f p \<le> c) \<Longrightarrow> sum_list (map f xs) \<le> real (length xs) * c"
  for f :: "'a \<Rightarrow> real"
  by (induction xs) (auto simp: algebra_simps add_mono)

lemma sum_list_map_if_scale:
  "sum_list (map (\<lambda>p. if P p then 0 else p * r) xs) = sum_list (map (\<lambda>p. if P p then 0 else p) xs) * r"
  for r :: real
  by (induction xs) (auto simp: algebra_simps)

lemma mset_sum_list_eq: "mset xs = mset ys \<Longrightarrow> sum_list xs = sum_list (ys :: real list)"
  by (metis sum_mset_sum_list)

lemma swap_zero_id:
  assumes "i < length ws" "ws ! i = 0" "ws ! j = (0::real)"
  shows "ws[i := ws ! j, j := ws ! i] = ws"
proof -
  have a: "ws[i := 0] = ws" using assms(1,2) by (simp add: list_update_same_conv)
  have b: "ws[j := 0] = ws"
    using assms(3) by (cases "j < length ws") (simp_all add: list_update_same_conv list_update_beyond)
  show ?thesis using assms(2,3) a b by simp
qed

lemma update_zeros_id:
  assumes "i < length ws" "ws ! i = 0" "ws ! j = (0::real)"
  shows "ws[i := 0, j := 0] = ws"
  using swap_zero_id [OF assms] assms by simp

lemma unat_push_bit_small:
  "unat (w :: 'a::len word) * 2 ^ s < 2 ^ LENGTH('a) \<Longrightarrow> unat (push_bit s w) = unat w * 2 ^ s"
  by (simp only: unsigned_push_bit_eq) (simp add: take_bit_nat_eq_self push_bit_eq_mult)

text \<open>
  The problem type \<open>index & (params_per_problem - 1)\<close> of a row, for a power-of-two
  \<open>params_per_problem\<close>, is the row number modulo it.
\<close>

lemma problem_type:
  assumes "ppp = 2 ^ b" and "b < 64" and "unat offset < (2::nat) ^ b"
  shows "(word_of_nat g AND (ppp - 1) = (offset::u64)) \<longleftrightarrow> g mod 2 ^ b = unat offset"
proof -
  have m: "ppp - 1 = mask b" using assms(1) by (simp add: mask_eq_exp_minus_1)
  have "word_of_nat g AND mask b = take_bit b (word_of_nat g :: u64)" by (simp only: take_bit_eq_mask)
  also have "\<dots> = word_of_nat (take_bit b g)" by (simp only: of_nat_take_bit)
  also have "take_bit b g = g mod 2 ^ b" by (simp only: take_bit_eq_mod)
  finally have e: "word_of_nat g AND (ppp - 1) = (word_of_nat (g mod 2 ^ b) :: u64)"
    using m by simp
  have "(2::nat) ^ b \<le> 2 ^ 64" using assms(2) by (intro power_increasing) simp_all
  then have lt: "g mod 2 ^ b < 2 ^ 64"
    by (meson mod_less_divisor order_less_le_trans zero_less_numeral zero_less_power)
  have "unat (word_of_nat (g mod 2 ^ b) :: u64) = g mod 2 ^ b"
    using lt by (simp add: unsigned_of_nat take_bit_nat_eq_self)
  then show ?thesis unfolding e by (auto simp: word_unat_eq_iff)
qed

text \<open>
  Within blocks of \<open>M\<close> rows, the row \<open>o2 - o1\<close> after a row of type \<open>o1\<close> has
  type \<open>o2\<close>, stays in the block, and no row of type \<open>o1\<close> is that far after another.
\<close>

lemma problem_partner:
  fixes M o1 o2 g :: nat
  assumes o: "o1 < o2" "o2 < M" and g: "g mod M = o1"
  shows "(g + (o2 - o1)) mod M \<noteq> o1"
    and "M dvd n \<Longrightarrow> g < n \<Longrightarrow> g + (o2 - o1) < n"
    and "o2 - o1 \<le> g \<Longrightarrow> (g - (o2 - o1)) mod M \<noteq> o1"
proof -
  have "(g + (o2 - o1)) mod M = (g mod M + (o2 - o1)) mod M" by (simp add: mod_add_left_eq)
  also have "\<dots> = o2" using o g by simp
  finally show "(g + (o2 - o1)) mod M \<noteq> o1" using o by simp
next
  assume "M dvd n" and gn: "g < n"
  from \<open>M dvd n\<close> obtain c where "n = M * c" by (rule dvdE)
  then have n: "n = c * M" by simp
  have M: "0 < M" using o by simp
  have "g div M < c" using gn n M by (simp add: div_less_iff_less_mult)
  then have "g div M * M + M \<le> n" using n by (metis Suc_leI add.commute mult_Suc mult_le_mono1)
  moreover have "g = g div M * M + o1" using g div_mult_mod_eq [of g M] by simp
  ultimately show "g + (o2 - o1) < n" using o by linarith
next
  assume le: "o2 - o1 \<le> g"
  show "(g - (o2 - o1)) mod M \<noteq> o1"
  proof
    assume "(g - (o2 - o1)) mod M = o1"
    then have "g mod M = (g - (o2 - o1)) mod M" using g by simp
    then have "M dvd g - (g - (o2 - o1))" using mod_eq_dvd_iff_nat [of "g - (o2 - o1)" g M] by simp
    then have "M dvd o2 - o1" using le by simp
    moreover have "0 < o2 - o1" "o2 - o1 < M" using o by simp_all
    ultimately show False using nat_dvd_not_less by blast
  qed
qed

lemma case_sum_Inl_eq_Inr [simp]:
  "((case r of Inl e \<Rightarrow> Some (Inl e) | Inr x \<Rightarrow> f x) = Some (Inr y)) \<longleftrightarrow>
   (\<exists>x. r = Inr x \<and> f x = Some (Inr y))"
  by (cases r) auto

lemma map_sum_eq_Inr [simp]: "(map_sum f g z = Inr y) \<longleftrightarrow> (\<exists>x. z = Inr x \<and> g x = y)"
  by (cases z) auto

lemma fdiv_finite [simp]: "y \<noteq> 0 \<Longrightarrow> fdiv x y = Some (x / y)"
  by (simp add: fdiv_def)

lemma fdiv_zero [simp]: "fdiv x 0 = None"
  by (simp add: fdiv_def)

text \<open>Index loops \<open>for (i = 0; i < xs.size(); i++)\<close> over a list, read as maps.\<close>

lemma upt_Suc_0:
  "[0..<Suc n] = 0 # map Suc [0..<n]"
  by (simp add: upt_conv_Cons map_Suc_upt)

lemma map_nth_upt:
  "map (\<lambda>i. g (ys ! i)) [0..<length ys] = map g ys"
  by (rule nth_equalityI) simp_all

text \<open>\<open>static_cast\<close> of a float that holds an unsigned integer gives that integer back.\<close>

lemma float_to_word_unat:
  "float_to_word (real (unat a)) = (a :: 'a::len word)"
proof -
  have "\<lfloor>real (unat a)\<rfloor> = int (unat a)" by (rule floor_of_nat)
  then show ?thesis by (simp add: float_to_word_def del: of_nat_unat floor_of_nat) simp
qed

lemma float_to_word_unsigned:
  "float_to_word (unsigned a :: real) = (a :: 'a::len word)"
  using float_to_word_unat [of a] by simp

end
