(* ===== verification/Weights.thy ===== *)
theory Weights
  imports Prelude
begin

text \<open>
  The strided weight store, \<open>dense_parameters\<close> of
  src/vowpalwabbit/array_parameters_dense.h. The process memory the store lives in is
  an explicit store \<open>wmem\<close> from buffer ids to the buffers' contents, so that a
  shallow-copied view and its owner alias one buffer, and freeing, double freeing and
  use after free are visible. An instance holds the id of its buffer (\<open>_begin\<close>,
  \<open>None\<close> for \<open>nullptr\<close>), the 64-bit mask, the 32-bit stride shift and the
  \<open>_seeded\<close> flag of a non-owning view. Every group-aligned loop of the class
  (\<open>set_default\<close>, \<open>set_zero\<close>, \<open>swap_offsets\<close>, \<open>copy_offsets\<close>,
  \<open>clear_offset\<close>) is one instance of the iterator loop \<open>dense_loop\<close>, which may
  not terminate (a zero stride) and is therefore a \<^theory_text>\<open>partial_function\<close>.
\<close>

unbundle bit_operations_syntax

subsection \<open>Memory and the allocator\<close>

record wmem =
  bufs :: "nat \<Rightarrow> weight list option"
  next_buf :: nat
  avail :: nat

text \<open>
  \<open>calloc_mergable_or_throw\<close> (memory.h, outside the sources): a zero-filled buffer
  of \<open>n\<close> floats, or \<open>Allocation_error\<close> when the allocator cannot provide them.
\<close>

definition calloc_mergable_or_throw :: "u64 \<Rightarrow> wmem \<Rightarrow> error + (nat \<times> wmem)" where
  "calloc_mergable_or_throw n m =
     (if avail m < unat n then Inl Allocation_error
      else Inr (next_buf m,
                m\<lparr>bufs := (bufs m)(next_buf m \<mapsto> replicate (unat n) 0),
                  next_buf := Suc (next_buf m), avail := avail m - unat n\<rparr>))"

text \<open>\<open>free\<close>: a no-op on \<open>nullptr\<close>, undefined on a buffer already freed.\<close>

definition free_buf :: "nat option \<Rightarrow> wmem \<Rightarrow> error + wmem" where
  "free_buf p m =
     (case p of None \<Rightarrow> Inr m
      | Some b \<Rightarrow> (case bufs m b of None \<Rightarrow> Inl Double_free
                   | Some ws \<Rightarrow> Inr (m\<lparr>bufs := (bufs m)(b := None),
                                      avail := avail m + length ws\<rparr>)))"

subsection \<open>The instance\<close>

record dense_parameters =
  dp_begin :: "nat option"
  weight_mask :: u64
  dp_stride_shift :: u32
  seeded :: bool

definition dense_parameters_new :: "u64 \<Rightarrow> u32 \<Rightarrow> wmem \<Rightarrow> error + (dense_parameters \<times> wmem)" where
  "dense_parameters_new len stride_shift m =
     (let n = push_bit (unat stride_shift) len in
      case calloc_mergable_or_throw n m of
        Inl e \<Rightarrow> Inl e
      | Inr (b, m') \<Rightarrow>
          Inr (\<lparr>dp_begin = Some b, weight_mask = n - 1, dp_stride_shift = stride_shift,
                seeded = False\<rparr>, m'))"

definition dense_parameters_default :: dense_parameters where
  "dense_parameters_default =
     \<lparr>dp_begin = None, weight_mask = 0, dp_stride_shift = 0, seeded = False\<rparr>"


text \<open>
  \<open>stride()\<close> is \<open>1 << _stride_shift\<close> read as \<open>uint32_t\<close>; the model takes the
  shift in 32 bits, so a shift of 32 or more gives stride 0 (the C++ shift is undefined
  there).
\<close>

definition stride :: "dense_parameters \<Rightarrow> u32" where
  "stride d = push_bit (unat (dp_stride_shift d)) 1"

definition mask :: "dense_parameters \<Rightarrow> u64" where
  "mask d = weight_mask d"

text \<open>The setter \<open>stride_shift(uint32_t)\<close>.\<close>

definition stride_shift :: "dense_parameters \<Rightarrow> u32" where
  "stride_shift d = dp_stride_shift d"

definition set_stride_shift :: "u32 \<Rightarrow> dense_parameters \<Rightarrow> dense_parameters" where
  "set_stride_shift s d = d\<lparr>dp_stride_shift := s\<rparr>"

text \<open>The buffer \<open>_begin\<close> points to, or the fault of dereferencing it.\<close>

definition buffer :: "wmem \<Rightarrow> dense_parameters \<Rightarrow> error + weight list" where
  "buffer m d =
     (case dp_begin d of None \<Rightarrow> Inl Null_deref
      | Some b \<Rightarrow> (case bufs m b of None \<Rightarrow> Inl Use_after_free | Some ws \<Rightarrow> Inr ws))"

definition set_buffer :: "wmem \<Rightarrow> dense_parameters \<Rightarrow> weight list \<Rightarrow> wmem" where
  "set_buffer m d ws = (case dp_begin d of None \<Rightarrow> m | Some b \<Rightarrow> m\<lparr>bufs := (bufs m)(b \<mapsto> ws)\<rparr>)"

subsection \<open>Element access\<close>

text \<open>\<open>operator[]\<close>: the index is masked, never bounds-checked.\<close>

definition index_read :: "wmem \<Rightarrow> dense_parameters \<Rightarrow> u64 \<Rightarrow> error + weight" where
  "index_read m d i =
     (case buffer m d of Inl e \<Rightarrow> Inl e
      | Inr ws \<Rightarrow> arr_get ws (unat (i AND weight_mask d)))"

definition index_write :: "wmem \<Rightarrow> dense_parameters \<Rightarrow> u64 \<Rightarrow> weight \<Rightarrow> error + wmem" where
  "index_write m d i v =
     (case buffer m d of Inl e \<Rightarrow> Inl e
      | Inr ws \<Rightarrow> (case arr_set ws (unat (i AND weight_mask d)) v of
                    Inl e \<Rightarrow> Inl e
                  | Inr ws' \<Rightarrow> Inr (set_buffer m d ws')))"

text \<open>\<open>strided_index\<close>: slot 0 of the stride group of a logical index.\<close>

definition strided_index_read :: "wmem \<Rightarrow> dense_parameters \<Rightarrow> u64 \<Rightarrow> error + weight" where
  "strided_index_read m d i = index_read m d (push_bit (unat (dp_stride_shift d)) i)"

definition strided_index_write :: "wmem \<Rightarrow> dense_parameters \<Rightarrow> u64 \<Rightarrow> weight \<Rightarrow> error + wmem" where
  "strided_index_write m d i v = index_write m d (push_bit (unat (dp_stride_shift d)) i) v"

subsection \<open>Ownership: shallow copies, sharing, destruction\<close>

definition shallow_copy ::
  "dense_parameters \<Rightarrow> dense_parameters \<Rightarrow> wmem \<Rightarrow> error + (dense_parameters \<times> wmem)" where
  "shallow_copy self input m =
     (case (if \<not> seeded self then free_buf (dp_begin self) m else Inr m) of
        Inl e \<Rightarrow> Inl e
      | Inr m' \<Rightarrow> Inr (self\<lparr>dp_begin := dp_begin input, weight_mask := weight_mask input,
                           dp_stride_shift := dp_stride_shift input, seeded := True\<rparr>, m'))"

text \<open>
  \<open>share(length)\<close>: a fresh mapping of \<open>length << _stride_shift\<close> floats (the
  \<open>mmap\<close> result is not checked in the source, so the model never fails here), a
  copy of that many floats from the old buffer, then \<open>free\<close> of the old buffer,
  whether or not this instance owns it.
\<close>

definition share :: "u64 \<Rightarrow> dense_parameters \<Rightarrow> wmem \<Rightarrow> error + (dense_parameters \<times> wmem)" where
  "share len d m =
     (let float_count = unat (push_bit (unat (dp_stride_shift d)) len) in
      case buffer m d of
        Inl e \<Rightarrow> Inl e
      | Inr ws \<Rightarrow>
          (if length ws < float_count then Inl Out_of_range
           else
             let dest = next_buf m;
                 m1 = m\<lparr>bufs := (bufs m)(dest \<mapsto> take float_count ws), next_buf := Suc dest\<rparr>
             in (case free_buf (dp_begin d) m1 of
                   Inl e \<Rightarrow> Inl e
                 | Inr m2 \<Rightarrow> Inr (d\<lparr>dp_begin := Some dest\<rparr>, m2))))"

definition dense_parameters_destroy ::
  "dense_parameters \<Rightarrow> wmem \<Rightarrow> error + (dense_parameters \<times> wmem)" where
  "dense_parameters_destroy d m =
     (if dp_begin d \<noteq> None \<and> \<not> seeded d then
        (case free_buf (dp_begin d) m of
           Inl e \<Rightarrow> Inl e
         | Inr m' \<Rightarrow> Inr (d\<lparr>dp_begin := None\<rparr>, m'))
      else Inr (d, m))"

subsection \<open>The group-aligned iterator loop\<close>

text \<open>
  \<open>for (iterator iter = begin(); iter != end(); ++iter)\<close>: the iterator starts at
  offset 0 of the buffer, stops when it equals \<open>end() = _begin + _weight_mask + 1\<close>
  (computed in 64 bits) and steps by \<open>stride()\<close>. Every body dereferences
  \<open>*iter\<close>, so an iterator that has run past the buffer without meeting \<open>end()\<close>
  faults. A zero stride never reaches \<open>end()\<close>: the loop does not return (\<open>None\<close>).
\<close>

partial_function (option) dense_loop ::
  "nat \<Rightarrow> nat \<Rightarrow> (nat \<Rightarrow> weight list \<Rightarrow> error + weight list) \<Rightarrow> nat \<Rightarrow> weight list
   \<Rightarrow> (error + weight list) option" where
  "dense_loop st e body p ws =
     (if p = e then Some (Inr ws)
      else if length ws \<le> p then Some (Inl Out_of_range)
      else (case body p ws of
              Inl err \<Rightarrow> Some (Inl err)
            | Inr ws' \<Rightarrow> dense_loop st e body (p + st) ws'))"

definition for_each_group ::
  "(nat \<Rightarrow> weight list \<Rightarrow> error + weight list) \<Rightarrow> dense_parameters \<Rightarrow> wmem
   \<Rightarrow> (error + wmem) option" where
  "for_each_group body d m =
     (case buffer m d of
        Inl e \<Rightarrow> Some (Inl e)
      | Inr ws \<Rightarrow> map_option (map_sum id (set_buffer m d))
                   (dense_loop (unat (stride d)) (unat (weight_mask d + 1)) body 0 ws))"

text \<open>
  \<open>set_default(default_func)\<close>: \<open>default_func(&(*iter), iter.index())\<close> on every
  group; the model's \<open>default_func\<close> computes the new value of the group's slot 0
  from the index and the old value.
\<close>

definition set_default ::
  "(u64 \<Rightarrow> weight \<Rightarrow> weight) \<Rightarrow> dense_parameters \<Rightarrow> wmem \<Rightarrow> (error + wmem) option" where
  "set_default default_func =
     for_each_group (\<lambda>p ws. Inr (ws[p := default_func (word_of_nat p) (ws ! p)]))"

text \<open>\<open>set_zero(offset)\<close>: \<open>(&(*iter))[offset] = 0\<close>, the offset unchecked.\<close>

definition set_zero :: "u64 \<Rightarrow> dense_parameters \<Rightarrow> wmem \<Rightarrow> (error + wmem) option" where
  "set_zero offset = for_each_group (\<lambda>p ws. arr_set ws (p + unat offset) 0)"

text \<open>
  \<open>swap_offsets(offset_1, offset_2, params_per_problem)\<close>: the group index
  \<open>actual_index = iter.index() >> stride_shift()\<close>, its type
  \<open>actual_index & (params_per_problem - 1)\<close>; a group of type \<open>offset_1\<close> swaps its
  slot 0 with slot 0 of the group \<open>offset_2 - offset_1\<close> further on (unmasked),
  unless both are zero. The \<open>assert(offset_1 < offset_2)\<close> is compiled out in
  release builds and not modelled.
\<close>

definition swap_offsets_body ::
  "dense_parameters \<Rightarrow> u64 \<Rightarrow> u64 \<Rightarrow> u64 \<Rightarrow> nat \<Rightarrow> weight list \<Rightarrow> error + weight list" where
  "swap_offsets_body d offset_1 offset_2 params_per_problem p ws =
     (let ss = unat (dp_stride_shift d);
          actual_index = drop_bit ss (word_of_nat p :: u64);
          actual_type = actual_index AND (params_per_problem - 1)
      in if actual_type = offset_1 then
           (let other = unat (push_bit ss (actual_index + (offset_2 - offset_1))) in
            if length ws \<le> other then Inl Out_of_range
            else if ws ! other \<noteq> 0 \<or> ws ! p \<noteq> 0
            then Inr (ws[other := ws ! p, p := ws ! other])
            else Inr ws)
         else Inr ws)"

definition swap_offsets ::
  "u64 \<Rightarrow> u64 \<Rightarrow> u64 \<Rightarrow> dense_parameters \<Rightarrow> wmem \<Rightarrow> (error + wmem) option" where
  "swap_offsets offset_1 offset_2 params_per_problem d =
     for_each_group (swap_offsets_body d offset_1 offset_2 params_per_problem) d"

text \<open>
  \<open>copy_offsets(from, to, params_per_problem)\<close>: \<open>diff = to - from\<close> as
  \<open>int64_t\<close>, added back to the \<open>size_t\<close> group index, which is the same 64-bit
  wrap-around sum.
\<close>

definition copy_offsets_body ::
  "dense_parameters \<Rightarrow> u64 \<Rightarrow> u64 \<Rightarrow> u64 \<Rightarrow> nat \<Rightarrow> weight list \<Rightarrow> error + weight list" where
  "copy_offsets_body d from to params_per_problem p ws =
     (let ss = unat (dp_stride_shift d);
          diff = to - from;
          actual_index = drop_bit ss (word_of_nat p :: u64);
          actual_type = actual_index AND (params_per_problem - 1)
      in if actual_type = from then
           (let other = unat (push_bit ss (actual_index + diff)) in
            if length ws \<le> other then Inl Out_of_range
            else if ws ! other \<noteq> 0 \<or> ws ! p \<noteq> 0
            then Inr (ws[other := ws ! p])
            else Inr ws)
         else Inr ws)"

definition copy_offsets ::
  "u64 \<Rightarrow> u64 \<Rightarrow> u64 \<Rightarrow> dense_parameters \<Rightarrow> wmem \<Rightarrow> (error + wmem) option" where
  "copy_offsets from to params_per_problem d =
     for_each_group (copy_offsets_body d from to params_per_problem) d"

definition clear_offset_body ::
  "dense_parameters \<Rightarrow> u64 \<Rightarrow> u64 \<Rightarrow> nat \<Rightarrow> weight list \<Rightarrow> error + weight list" where
  "clear_offset_body d offset params_per_problem p ws =
     (let actual = drop_bit (unat (dp_stride_shift d)) (word_of_nat p :: u64)
                   AND (params_per_problem - 1)
      in if actual = offset \<and> ws ! p \<noteq> 0 then Inr (ws[p := 0]) else Inr ws)"

definition clear_offset ::
  "u64 \<Rightarrow> u64 \<Rightarrow> dense_parameters \<Rightarrow> wmem \<Rightarrow> (error + wmem) option" where
  "clear_offset offset params_per_problem d =
     for_each_group (clear_offset_body d offset params_per_problem) d"

subsection \<open>Well-formedness and reference semantics\<close>

text \<open>
  A well-formed instance points to a live buffer of exactly \<open>_weight_mask + 1\<close>
  floats (that sum computed in 64 bits, and not zero), which is what the constructor
  establishes whenever \<open>length << stride_shift\<close> is not zero.
\<close>

definition dense_wf :: "wmem \<Rightarrow> dense_parameters \<Rightarrow> bool" where
  "dense_wf m d =
     (case buffer m d of
        Inl _ \<Rightarrow> False
      | Inr ws \<Rightarrow> weight_mask d + 1 \<noteq> 0 \<and> length ws = unat (weight_mask d + 1))"

text \<open>The loop as a fold over the group-aligned offsets it visits.\<close>

fun fold_groups :: "(nat \<Rightarrow> 'w \<Rightarrow> error + 'w) \<Rightarrow> nat list \<Rightarrow> 'w \<Rightarrow> error + 'w" where
  "fold_groups body [] ws = Inr ws"
| "fold_groups body (p # ps) ws =
     (case body p ws of Inl e \<Rightarrow> Inl e | Inr ws' \<Rightarrow> fold_groups body ps ws')"

text \<open>
  The swap without the skip of two zero slots: the reference \<open>swap_offsets\<close>
  optimises.
\<close>

definition swap_offsets_body_ref ::
  "dense_parameters \<Rightarrow> u64 \<Rightarrow> u64 \<Rightarrow> u64 \<Rightarrow> nat \<Rightarrow> weight list \<Rightarrow> error + weight list" where
  "swap_offsets_body_ref d offset_1 offset_2 params_per_problem p ws =
     (let ss = unat (dp_stride_shift d);
          actual_index = drop_bit ss (word_of_nat p :: u64)
      in if actual_index AND (params_per_problem - 1) = offset_1 then
           (let other = unat (push_bit ss (actual_index + (offset_2 - offset_1))) in
            if length ws \<le> other then Inl Out_of_range
            else Inr (ws[other := ws ! p, p := ws ! other]))
         else Inr ws)"


text \<open>
  The public mutators of \<open>dense_parameters\<close> as a datatype of operations, and a
  client that calls them in sequence on one instance, stopping at the first fault.
\<close>

datatype dense_op =
    Op_write u64 weight
  | Op_strided_write u64 weight
  | Op_set_default "u64 \<Rightarrow> weight \<Rightarrow> weight"
  | Op_set_zero u64
  | Op_swap_offsets u64 u64 u64
  | Op_copy_offsets u64 u64 u64
  | Op_clear_offset u64 u64

fun dense_step :: "dense_op \<Rightarrow> dense_parameters \<Rightarrow> wmem \<Rightarrow> (error + wmem) option" where
  "dense_step (Op_write i v) d m = Some (index_write m d i v)"
| "dense_step (Op_strided_write i v) d m = Some (strided_index_write m d i v)"
| "dense_step (Op_set_default f) d m = set_default f d m"
| "dense_step (Op_set_zero off) d m = set_zero off d m"
| "dense_step (Op_swap_offsets o1 o2 ppp) d m = swap_offsets o1 o2 ppp d m"
| "dense_step (Op_copy_offsets f t ppp) d m = copy_offsets f t ppp d m"
| "dense_step (Op_clear_offset off ppp) d m = clear_offset off ppp d m"

fun dense_run :: "dense_op list \<Rightarrow> dense_parameters \<Rightarrow> wmem \<Rightarrow> (error + wmem) option" where
  "dense_run [] d m = Some (Inr m)"
| "dense_run (op # ops) d m =
     (case dense_step op d m of
        None \<Rightarrow> None
      | Some (Inl e) \<Rightarrow> Some (Inl e)
      | Some (Inr m') \<Rightarrow> dense_run ops d m')"

text \<open>
  The calls a client can make without checking an argument: \<open>operator[]\<close> and
  \<open>strided_index\<close> (the index is masked), \<open>set_default\<close> and \<open>clear_offset\<close> (no
  offset is dereferenced), and \<open>set_zero\<close> with an offset below the stride. The swap
  and copy of offsets reach another group and are not among them.
\<close>

fun dense_op_safe :: "dense_parameters \<Rightarrow> dense_op \<Rightarrow> bool" where
  "dense_op_safe d (Op_set_zero off) = (unat off < unat (stride d))"
| "dense_op_safe d (Op_swap_offsets o1 o2 ppp) = False"
| "dense_op_safe d (Op_copy_offsets f t ppp) = False"
| "dense_op_safe d _ = True"

text \<open>A small instance used by the witnesses: four floats, stride 2.\<close>

abbreviation ex_mem :: wmem where
  "ex_mem \<equiv> \<lparr>bufs = [0 \<mapsto> [1, 2, 3, 4]], next_buf = 1, avail = 0\<rparr>"

abbreviation ex_dense :: dense_parameters where
  "ex_dense \<equiv> \<lparr>dp_begin = Some 0, weight_mask = 3, dp_stride_shift = 1, seeded = False\<rparr>"

subsection \<open>The loop: termination and fold form\<close>

text \<open>Whatever the bodies do, a nonzero stride makes the loop return.\<close>

lemma dense_loop_keeps_length:
  assumes st: "0 < st"
    and len: "\<And>p ws ws'. body p ws = Inr ws' \<Longrightarrow> length ws' = length ws"
  shows "\<exists>r. dense_loop st e body p ws = Some r \<and> (\<forall>ws'. r = Inr ws' \<longrightarrow> length ws' = length ws)"
proof (induction "length ws - p" arbitrary: p ws rule: less_induct)
  case less
  show ?case
  proof (cases "p = e \<or> length ws \<le> p")
    case True
    then show ?thesis by (auto simp: dense_loop.simps)
  next
    case False
    show ?thesis
    proof (cases "body p ws")
      case (Inl err)
      with False show ?thesis by (simp add: dense_loop.simps)
    next
      case (Inr ws')
      have plt: "p < length ws" using False by simp
      have "length ws' - (p + st) < length ws - p"
        using len [OF Inr] plt st by arith
      then obtain r where "dense_loop st e body (p + st) ws' = Some r"
        and "\<forall>ws''. r = Inr ws'' \<longrightarrow> length ws'' = length ws'"
        using less by blast
      with Inr False len [OF Inr] show ?thesis by (simp add: dense_loop.simps)
    qed
  qed
qed

lemma dense_loop_returns:
  assumes "0 < st"
    and "\<And>p ws ws'. body p ws = Inr ws' \<Longrightarrow> length ws' = length ws"
  shows "\<exists>r. dense_loop st e body p ws = Some r"
  using dense_loop_keeps_length [where body = body and e = e and p = p and ws = ws] assms by blast

text \<open>When the stride divides the buffer, the loop visits every group once, in order.\<close>

lemma dense_loop_fold:
  assumes st: "0 < st"
    and len: "\<And>p ws ws'. body p ws = Inr ws' \<Longrightarrow> length ws' = length ws"
  shows "length ws = n * st \<Longrightarrow> k \<le> n \<Longrightarrow>
    dense_loop st (n * st) body (k * st) ws = Some (fold_groups body (map (\<lambda>g. g * st) [k..<n]) ws)"
proof (induction "n - k" arbitrary: k ws)
  case 0
  then show ?case by (simp add: dense_loop.simps)
next
  case (Suc x)
  then have kn: "k < n" by simp
  with st have ne: "k * st \<noteq> n * st" and lt: "k * st < length ws"
    using Suc.prems(1) by auto
  show ?case
  proof (cases "body (k * st) ws")
    case (Inl e)
    with ne lt kn show ?thesis by (simp add: dense_loop.simps upt_conv_Cons)
  next
    case (Inr ws')
    have "length ws' = n * st" using len [OF Inr] Suc.prems(1) by simp
    then have "dense_loop st (n * st) body (Suc k * st) ws' =
        Some (fold_groups body (map (\<lambda>g. g * st) [Suc k..<n]) ws')"
      using Suc.hyps(1) [of "Suc k" ws'] Suc.hyps(2) kn by simp
    with Inr ne lt kn show ?thesis by (simp add: dense_loop.simps upt_conv_Cons add.commute)
  qed
qed

lemma for_each_group_returns:
  assumes "0 < unat (stride d)"
    and "\<And>p ws ws'. body p ws = Inr ws' \<Longrightarrow> length ws' = length ws"
  shows "\<exists>r. for_each_group body d m = Some r"
  using dense_loop_returns [OF assms, where e = "unat (weight_mask d + 1)" and p = 0]
  by (auto simp: for_each_group_def split: sum.split)

lemma for_each_group_fold:
  assumes wf: "dense_wf m d" and buf: "buffer m d = Inr ws"
    and st: "0 < unat (stride d)" and dvd: "unat (stride d) dvd length ws"
    and len: "\<And>p ws ws'. body p ws = Inr ws' \<Longrightarrow> length ws' = length ws"
  shows "for_each_group body d m =
    Some (map_sum id (set_buffer m d)
      (fold_groups body (map (\<lambda>g. g * unat (stride d)) [0..<length ws div unat (stride d)]) ws))"
proof -
  let ?st = "unat (stride d)" and ?n = "length ws div unat (stride d)"
  have e: "unat (weight_mask d + 1) = ?n * ?st"
    using wf buf dvd by (simp add: dense_wf_def)
  have "length ws = ?n * ?st" using dvd by simp
  from dense_loop_fold [OF st len this, where k = 0] show ?thesis
    using buf e by (simp add: for_each_group_def)
qed

subsection \<open>Element access is always in bounds\<close>

lemma dense_wf_length:
  "dense_wf m d \<Longrightarrow> buffer m d = Inr ws \<Longrightarrow> length ws = Suc (unat (weight_mask d))"
  using unatSuc [of "weight_mask d"] by (simp add: dense_wf_def add.commute)

lemma masked_index_lt:
  "dense_wf m d \<Longrightarrow> buffer m d = Inr ws \<Longrightarrow> unat (i AND weight_mask d) < length ws"
  using unat_and_le [of i "weight_mask d"] by (simp add: dense_wf_length)


lemma buffer_set_buffer:
  "buffer m d = Inr ws \<Longrightarrow> buffer (set_buffer m d ws') d = Inr ws'"
  by (auto simp: buffer_def set_buffer_def split: option.splits)

lemma dense_wf_set_buffer:
  "dense_wf m d \<Longrightarrow> buffer m d = Inr ws \<Longrightarrow> length ws' = length ws \<Longrightarrow>
   dense_wf (set_buffer m d ws') d"
  by (simp add: dense_wf_def buffer_set_buffer)

lemma stride_unat:
  assumes "unat (dp_stride_shift d) < 32"
  shows "unat (stride d) = 2 ^ unat (dp_stride_shift d)"
proof -
  have "(2::nat) ^ unat (dp_stride_shift d) < 2 ^ 32"
    using assms by (intro power_strict_increasing) simp_all
  then show ?thesis
    by (simp only: stride_def unsigned_push_bit_eq) (simp add: take_bit_eq_mod push_bit_eq_mult)
qed

lemma group_offset:
  assumes "k * st \<le> (j::nat)" "j < Suc k * st"
  shows "j = k * st + j mod st"
proof -
  have "j div st = k" using assms by (auto intro: div_nat_eqI simp: mult.commute)
  then show ?thesis by (metis div_mult_mod_eq)
qed

lemma fold_groups_slot:
  assumes st: "0 < st" and off: "off < st"
    and body: "\<And>g ws. g < n \<Longrightarrow> length ws = n * st \<Longrightarrow>
      body (g * st) ws = Inr (ws[g * st + off := h g (ws ! (g * st + off))])"
  shows "length ws = n * st \<Longrightarrow> k \<le> n \<Longrightarrow>
    fold_groups body (map (\<lambda>g. g * st) [k..<n]) ws =
      Inr (map (\<lambda>j. if k * st \<le> j \<and> j mod st = off then h (j div st) (ws ! j) else ws ! j)
        [0..<length ws])"
proof (induction "n - k" arbitrary: k ws)
  case 0
  then have "\<And>j. j < length ws \<Longrightarrow> \<not> k * st \<le> j" by simp
  then show ?case using 0 by (simp add: list_eq_iff_nth_eq)
next
  case (Suc x)
  let ?q = "k * st + off"
  let ?ws = "ws[?q := h k (ws ! ?q)]"
  from Suc have kn: "k < n" by simp
  have qlt: "?q < Suc k * st" using off by simp
  also have "Suc k * st \<le> n * st" using kn by (intro mult_le_mono1) simp
  finally have q: "?q < length ws" using Suc.prems(1) by simp
  have qmod: "?q mod st = off" and qdiv: "?q div st = k" using off by simp_all
  have IH: "fold_groups body (map (\<lambda>g. g * st) [Suc k..<n]) ?ws =
      Inr (map (\<lambda>j. if Suc k * st \<le> j \<and> j mod st = off then h (j div st) (?ws ! j) else ?ws ! j)
        [0..<length ws])"
    using Suc.hyps(1) [of "Suc k" ?ws] Suc.hyps(2) Suc.prems(1) kn by simp
  have eq: "(if Suc k * st \<le> j \<and> j mod st = off then h (j div st) (?ws ! j) else ?ws ! j) =
      (if k * st \<le> j \<and> j mod st = off then h (j div st) (ws ! j) else ws ! j)"
    if "j < length ws" for j
  proof (cases "j = ?q")
    case True
    with qlt qmod qdiv q show ?thesis by simp
  next
    case False
    have "\<not> (k * st \<le> j \<and> j < Suc k * st \<and> j mod st = off)"
      using False group_offset [of k st j] by auto
    with False that show ?thesis by auto
  qed
  show ?case using q kn IH eq body [OF kn Suc.prems(1)] by (simp add: upt_conv_Cons)
qed

lemma fold_set_zero:
  assumes st: "0 < st" and off: "off < st"
  shows "length ws = n * st \<Longrightarrow> k \<le> n \<Longrightarrow>
    fold_groups (\<lambda>p ws. arr_set ws (p + off) 0) (map (\<lambda>g. g * st) [k..<n]) ws =
      Inr (map (\<lambda>j. if k * st \<le> j \<and> j mod st = off then 0 else ws ! j) [0..<length ws])"
proof -
  have "g * st + off < n * st" if "g < n" for g
  proof -
    have "g * st + off < Suc g * st" using off by simp
    also have "\<dots> \<le> n * st" using that by (intro mult_le_mono1) simp
    finally show ?thesis .
  qed
  then show "length ws = n * st \<Longrightarrow> k \<le> n \<Longrightarrow> ?thesis"
    using fold_groups_slot [OF st off, where h = "\<lambda>_ _. 0" and n = n and k = k and ws = ws]
    by simp
qed

lemma swap_offsets_body_length:
  "swap_offsets_body d o1 o2 ppp p ws = Inr ws' \<Longrightarrow> length ws' = length ws"
  by (auto simp: swap_offsets_body_def Let_def split: if_splits)

lemma offset_bodies_length:
  "copy_offsets_body d f t ppp p ws = Inr ws' \<Longrightarrow> length ws' = length ws"
  "clear_offset_body d off ppp p ws = Inr ws' \<Longrightarrow> length ws' = length ws"
  by (auto simp: copy_offsets_body_def clear_offset_body_def Let_def split: if_splits)

lemma set_buffer_set_buffer:
  "buffer m d = Inr ws \<Longrightarrow> set_buffer (set_buffer m d ws') d ws'' = set_buffer m d ws''"
  by (auto simp: buffer_def set_buffer_def split: option.splits)

lemma set_buffer_self: "buffer m d = Inr ws \<Longrightarrow> set_buffer m d ws = m"
  by (auto simp: buffer_def set_buffer_def fun_upd_idem split: option.splits)

text \<open>A loop whose body never faults at a group start returns with the buffer rewritten.\<close>

lemma fold_groups_no_fault:
  assumes body: "\<And>g ws. g < n \<Longrightarrow> length ws = n * st \<Longrightarrow>
      \<exists>ws'. body (g * st) ws = Inr ws' \<and> length ws' = length ws"
  shows "length ws = n * st \<Longrightarrow> k \<le> n \<Longrightarrow>
    \<exists>ws'. fold_groups body (map (\<lambda>g. g * st) [k..<n]) ws = Inr ws' \<and> length ws' = length ws"
proof (induction "n - k" arbitrary: k ws)
  case 0
  then show ?case by simp
next
  case (Suc x)
  then have kn: "k < n" by simp
  obtain ws1 where b: "body (k * st) ws = Inr ws1" and l1: "length ws1 = length ws"
    using body [OF kn Suc.prems(1)] by blast
  have xk: "x = n - Suc k" using Suc.hyps(2) by arith
  obtain ws' where "fold_groups body (map (\<lambda>g. g * st) [Suc k..<n]) ws1 = Inr ws'"
    and "length ws' = length ws1"
    using Suc.hyps(1) [OF xk] Suc.prems(1) l1 kn by auto
  then show ?case using b l1 kn by (simp add: upt_conv_Cons)
qed

lemma for_each_group_no_fault:
  assumes wf: "dense_wf m d" and buf: "buffer m d = Inr ws"
    and st: "0 < unat (stride d)" and dvd: "unat (stride d) dvd length ws"
    and len: "\<And>p ws ws'. body p ws = Inr ws' \<Longrightarrow> length ws' = length ws"
    and ok: "\<And>g ws'. g < length ws div unat (stride d) \<Longrightarrow> length ws' = length ws \<Longrightarrow>
      \<exists>ws''. body (g * unat (stride d)) ws' = Inr ws''"
  shows "\<exists>ws'. for_each_group body d m = Some (Inr (set_buffer m d ws')) \<and> length ws' = length ws"
proof -
  let ?st = "unat (stride d)" and ?n = "length ws div unat (stride d)"
  have "\<exists>ws'. fold_groups body (map (\<lambda>g. g * ?st) [0..<?n]) ws = Inr ws' \<and> length ws' = length ws"
  proof (rule fold_groups_no_fault)
    fix g and ws' :: "weight list" assume "g < ?n" and "length ws' = ?n * ?st"
    then show "\<exists>ws''. body (g * ?st) ws' = Inr ws'' \<and> length ws'' = length ws'"
      using ok [of g ws'] len dvd by fastforce
  qed (use dvd in simp_all)
  then show ?thesis using for_each_group_fold [OF wf buf st dvd len] by auto
qed

lemma dense_step_no_fault:
  assumes wf: "dense_wf m d" and buf: "buffer m d = Inr ws" and st: "0 < unat (stride d)"
    and dvd: "unat (stride d) dvd length ws" and safe: "dense_op_safe d op"
  shows "\<exists>ws'. dense_step op d m = Some (Inr (set_buffer m d ws')) \<and> length ws' = length ws"
proof (cases op)
  case (Op_write i v)
  then show ?thesis using masked_index_lt [OF wf buf] buf
    by (auto simp: index_write_def arr_set_def)
next
  case (Op_strided_write i v)
  then show ?thesis using masked_index_lt [OF wf buf] buf
    by (auto simp: strided_index_write_def index_write_def arr_set_def)
next
  case (Op_set_default f)
  show ?thesis unfolding Op_set_default dense_step.simps set_default_def
    by (rule for_each_group_no_fault [OF wf buf st dvd]) simp_all
next
  case (Op_set_zero off)
  have off: "unat off < unat (stride d)" using safe Op_set_zero by simp
  have "g * unat (stride d) + unat off < length ws'"
    if "g < length ws div unat (stride d)" and "length ws' = length ws"
    for g ws'
  proof -
    have "g * unat (stride d) + unat off < Suc g * unat (stride d)" using off by simp
    also have "\<dots> \<le> length ws div unat (stride d) * unat (stride d)"
      using that(1) by (intro mult_le_mono1) simp
    finally show ?thesis using that(2) dvd by simp
  qed
  then show ?thesis unfolding Op_set_zero dense_step.simps set_zero_def
    by (intro for_each_group_no_fault [OF wf buf st dvd]) (auto simp: arr_set_def intro: arr_set_length)
next
  case (Op_swap_offsets o1 o2 ppp)
  then show ?thesis using safe by simp
next
  case (Op_copy_offsets f t ppp)
  then show ?thesis using safe by simp
next
  case (Op_clear_offset off ppp)
  show ?thesis unfolding Op_clear_offset dense_step.simps clear_offset_def
    by (rule for_each_group_no_fault [OF wf buf st dvd])
       (auto simp: clear_offset_body_def Let_def intro: offset_bodies_length)
qed

subsection \<open>Properties of the weight store\<close>

text \<open>
  C3: Every element access through \<open>operator[]\<close> of a well-formed store is in
  bounds: the masked index always lands inside the buffer, and the read returns the
  element at the masked index.
\<close>

theorem index_read_in_bounds:
  assumes "dense_wf m d" and "buffer m d = Inr ws"
  shows "index_read m d i = Inr (ws ! unat (i AND weight_mask d))"
  using assms masked_index_lt [OF assms] by (simp add: index_read_def)

theorem index_read_in_bounds_witness:
  "dense_wf ex_mem ex_dense \<and> buffer ex_mem ex_dense = Inr [1, 2, 3, 4] \<and>
   index_read ex_mem ex_dense 6 = Inr 3"
  using index_read_in_bounds [of ex_mem ex_dense "[1, 2, 3, 4]" 6]
  by (simp add: dense_wf_def buffer_def)

text \<open>
  C7: A write through \<open>operator[]\<close> on a well-formed store never faults: it replaces
  exactly the element at the masked index and keeps the store well-formed.
\<close>

theorem index_write_in_bounds:
  assumes "dense_wf m d" and "buffer m d = Inr ws"
  shows "index_write m d i v = Inr (set_buffer m d (ws[unat (i AND weight_mask d) := v])) \<and>
    dense_wf (set_buffer m d (ws[unat (i AND weight_mask d) := v])) d"
  using assms masked_index_lt [OF assms] dense_wf_set_buffer [OF assms]
  by (simp add: index_write_def)

theorem index_write_in_bounds_witness:
  "dense_wf ex_mem ex_dense \<and> buffer ex_mem ex_dense = Inr [1, 2, 3, 4] \<and>
   index_write ex_mem ex_dense 5 7 = Inr (ex_mem\<lparr>bufs := [0 \<mapsto> [1, 7, 3, 4]]\<rparr>)"
  using index_write_in_bounds [of ex_mem ex_dense "[1, 2, 3, 4]" 5 7]
  by (simp add: dense_wf_def buffer_def set_buffer_def)

text \<open>
  C25: The constructor \<open>dense_parameters(length, stride_shift)\<close>, when
  \<open>length << stride_shift\<close> is not zero and the allocator succeeds, yields a
  well-formed owning instance over a zero-filled buffer of \<open>length << stride_shift\<close>
  floats whose mask is that count minus one.
\<close>

theorem dense_parameters_new_wf:
  assumes new: "dense_parameters_new len ss m = Inr (d, m')"
    and nz: "push_bit (unat ss) len \<noteq> 0"
  shows "dense_wf m' d \<and> buffer m' d = Inr (replicate (unat (push_bit (unat ss) len)) 0) \<and>
    weight_mask d = push_bit (unat ss) len - 1 \<and> dp_stride_shift d = ss \<and> \<not> seeded d"
  using new nz
  by (auto simp: dense_parameters_new_def calloc_mergable_or_throw_def dense_wf_def buffer_def
      Let_def split: if_splits)

theorem dense_parameters_new_wf_witness:
  "dense_parameters_new 2 1 (ex_mem\<lparr>avail := 8\<rparr>) =
     Inr (ex_dense\<lparr>dp_begin := Some 1\<rparr>,
          ex_mem\<lparr>bufs := [0 \<mapsto> [1, 2, 3, 4], 1 \<mapsto> replicate 4 0], next_buf := 2, avail := 4\<rparr>) \<and>
   push_bit (unat (1::u32)) (2::u64) \<noteq> 0 \<and>
   dense_wf (ex_mem\<lparr>bufs := [0 \<mapsto> [1, 2, 3, 4], 1 \<mapsto> replicate 4 0], next_buf := 2, avail := 4\<rparr>)
     (ex_dense\<lparr>dp_begin := Some 1\<rparr>)"
proof -
  have new: "dense_parameters_new 2 1 (ex_mem\<lparr>avail := 8\<rparr>) =
     Inr (ex_dense\<lparr>dp_begin := Some 1\<rparr>,
          ex_mem\<lparr>bufs := [0 \<mapsto> [1, 2, 3, 4], 1 \<mapsto> replicate 4 0], next_buf := 2, avail := 4\<rparr>)"
    by (simp add: dense_parameters_new_def calloc_mergable_or_throw_def fun_upd_twist)
  have nz: "push_bit (unat (1::u32)) (2::u64) \<noteq> 0" by simp
  show ?thesis using dense_parameters_new_wf [OF new nz] new nz by simp
qed

text \<open>
  \<open>set_zero(offset)\<close> on a well-formed store whose stride divides the buffer, with
  an offset below the stride, returns and zeroes exactly the slot \<open>offset\<close> of every
  stride group, leaving every other slot unchanged.
\<close>

theorem set_zero_clears_offset:
  assumes wf: "dense_wf m d" and buf: "buffer m d = Inr ws"
    and st: "0 < unat (stride d)" and dvd: "unat (stride d) dvd length ws"
    and off: "unat offset < unat (stride d)"
  shows "set_zero offset d m = Some (Inr (set_buffer m d
           (map (\<lambda>j. if j mod unat (stride d) = unat offset then 0 else ws ! j) [0..<length ws])))"
proof -
  let ?st = "unat (stride d)" and ?n = "length ws div unat (stride d)"
  have len: "length ws = ?n * ?st" using dvd by simp
  have "fold_groups (\<lambda>p ws. arr_set ws (p + unat offset) 0) (map (\<lambda>g. g * ?st) [0..<?n]) ws =
      Inr (map (\<lambda>j. if 0 * ?st \<le> j \<and> j mod ?st = unat offset then 0 else ws ! j) [0..<length ws])"
    by (rule fold_set_zero [OF st off len]) simp
  then show ?thesis
    using for_each_group_fold [OF wf buf st dvd, of "\<lambda>p ws. arr_set ws (p + unat offset) 0"]
    by (simp add: set_zero_def arr_set_length)
qed

theorem set_zero_clears_offset_witness:
  "dense_wf ex_mem ex_dense \<and> buffer ex_mem ex_dense = Inr [1, 2, 3, 4] \<and>
   0 < unat (stride ex_dense) \<and> unat (stride ex_dense) dvd length [1, 2, 3, (4::weight)] \<and>
   unat (1::u64) < unat (stride ex_dense) \<and>
   set_zero 1 ex_dense ex_mem = Some (Inr (ex_mem\<lparr>bufs := [0 \<mapsto> [1, 0, 3, 0]]\<rparr>))"
proof -
  have wf: "dense_wf ex_mem ex_dense" and buf: "buffer ex_mem ex_dense = Inr [1, 2, 3, 4]"
    and st: "unat (stride ex_dense) = 2"
    by (simp_all add: dense_wf_def buffer_def stride_def)
  show ?thesis
    using set_zero_clears_offset [OF wf buf, of 1] wf buf st
    by (simp add: set_buffer_def upt_conv_Cons)
qed

text \<open>
  C32: The skip in \<open>swap_offsets\<close> (no swap when both slots are zero) is only an
  optimisation: \<open>swap_offsets\<close> gives the same result as the same loop that swaps
  unconditionally, on every instance and for every argument.
\<close>

theorem swap_offsets_skip_equiv:
  "swap_offsets offset_1 offset_2 params_per_problem d m =
     for_each_group (swap_offsets_body_ref d offset_1 offset_2 params_per_problem) d m"
proof -
  have "swap_offsets_body d offset_1 offset_2 params_per_problem =
        swap_offsets_body_ref d offset_1 offset_2 params_per_problem"
  proof (intro ext)
    fix p ws
    show "swap_offsets_body d offset_1 offset_2 params_per_problem p ws =
          swap_offsets_body_ref d offset_1 offset_2 params_per_problem p ws"
      by (auto simp: swap_offsets_body_def swap_offsets_body_ref_def Let_def update_zeros_id)
  qed
  then show ?thesis by (simp add: swap_offsets_def)
qed

text \<open>
  C33: \<open>swap_offsets\<close> returns for every instance whose stride shift is below 32 (a
  nonzero stride), with a result or a fault, whatever its arguments.
\<close>

theorem swap_offsets_terminates:
  "unat (dp_stride_shift d) < 32 \<Longrightarrow>
   \<exists>r. swap_offsets offset_1 offset_2 params_per_problem d m = Some r"
  unfolding swap_offsets_def
  by (rule for_each_group_returns) (simp_all add: stride_unat swap_offsets_body_length)

theorem swap_offsets_terminates_witness:
  "unat (dp_stride_shift ex_dense) < 32 \<and> (\<exists>r. swap_offsets 0 1 2 ex_dense ex_mem = Some r)"
  using swap_offsets_terminates [of ex_dense 0 1 2 ex_mem] by simp

text \<open>
  C12: Well-formedness with a stride that divides the buffer is the type invariant of
  \<open>dense_parameters\<close>: every sequence of calls that need no argument check
  (\<open>operator[]\<close>, \<open>strided_index\<close>, \<open>set_default\<close>, \<open>clear_offset\<close>, and
  \<open>set_zero\<close> with an offset below the stride) returns without a fault and leaves a
  well-formed store in which only the instance's own buffer has changed, at the same length.
\<close>

theorem dense_run_no_fault:
  assumes wf: "dense_wf m d" and buf: "buffer m d = Inr ws" and ss: "unat (dp_stride_shift d) < 32"
    and dvd: "unat (stride d) dvd length ws" and safe: "\<forall>op\<in>set ops. dense_op_safe d op"
  shows "\<exists>ws'. dense_run ops d m = Some (Inr (set_buffer m d ws')) \<and> length ws' = length ws \<and>
    dense_wf (set_buffer m d ws') d"
  using wf buf dvd safe
proof (induction ops arbitrary: m ws)
  case Nil
  then show ?case using set_buffer_self [OF Nil(2)] by (intro exI [of _ ws]) simp
next
  case (Cons op ops)
  have st: "0 < unat (stride d)" using stride_unat [OF ss] by simp
  obtain ws1 where r: "dense_step op d m = Some (Inr (set_buffer m d ws1))" and l1: "length ws1 = length ws"
    using dense_step_no_fault [OF Cons.prems(1,2) st Cons.prems(3)] Cons.prems(4) by auto
  let ?m1 = "set_buffer m d ws1"
  have buf1: "buffer ?m1 d = Inr ws1" using buffer_set_buffer [OF Cons.prems(2)] .
  have wf1: "dense_wf ?m1 d" using dense_wf_set_buffer [OF Cons.prems(1,2) l1] .
  obtain ws' where "dense_run ops d ?m1 = Some (Inr (set_buffer ?m1 d ws'))" and "length ws' = length ws1"
    and "dense_wf (set_buffer ?m1 d ws') d"
    using Cons.IH [OF wf1 buf1] Cons.prems(3,4) l1 by auto
  then show ?case using r l1 set_buffer_set_buffer [OF Cons.prems(2)] by (intro exI [of _ ws']) simp
qed

theorem dense_run_no_fault_witness:
  "dense_wf ex_mem ex_dense \<and> buffer ex_mem ex_dense = Inr [1, 2, 3, 4] \<and>
   unat (dp_stride_shift ex_dense) < 32 \<and> unat (stride ex_dense) dvd length [1, 2, 3, (4::weight)] \<and>
   list_all (dense_op_safe ex_dense) [Op_write 5 9, Op_clear_offset 1 2, Op_set_zero 1, Op_set_default (\<lambda>i v. v + 1)] \<and>
   (\<exists>ws'. dense_run [Op_write 5 9, Op_clear_offset 1 2, Op_set_zero 1, Op_set_default (\<lambda>i v. v + 1)]
       ex_dense ex_mem = Some (Inr (set_buffer ex_mem ex_dense ws')) \<and> length ws' = length [1, 2, 3, (4::weight)] \<and>
     dense_wf (set_buffer ex_mem ex_dense ws') ex_dense)"
proof -
  have wf: "dense_wf ex_mem ex_dense" and buf: "buffer ex_mem ex_dense = Inr [1, 2, 3, 4]"
    and ss: "unat (dp_stride_shift ex_dense) < 32" and dvd: "unat (stride ex_dense) dvd length [1, 2, 3, (4::weight)]"
    and safe: "\<forall>op\<in>set [Op_write 5 9, Op_clear_offset 1 2, Op_set_zero 1, Op_set_default (\<lambda>i v. v + 1)].
      dense_op_safe ex_dense op"
    by (simp_all add: dense_wf_def buffer_def stride_def)
  show ?thesis using dense_run_no_fault [OF wf buf ss dvd safe] wf buf ss dvd safe
    by (simp only: list_all_iff)
qed

subsection \<open>Views, sharing and the lifetime contract\<close>

text \<open>
  C36: A view made by \<open>shallow_copy\<close> from a default instance aliases its owner: the
  copy frees nothing, is well-formed on the owner's buffer, every write through the view
  is seen by a read through the owner, and destroying the view frees nothing.
\<close>

theorem shallow_copy_aliases:
  assumes wf: "dense_wf m d"
  shows "\<exists>v. shallow_copy dense_parameters_default d m = Inr (v, m) \<and> dense_wf m v \<and>
    (\<forall>i x m'. index_write m v i x = Inr m' \<longrightarrow> index_read m' d i = Inr x) \<and>
    dense_parameters_destroy v m = Inr (v, m)"
proof -
  let ?v = "d\<lparr>seeded := True\<rparr>"
  have c: "shallow_copy dense_parameters_default d m = Inr (?v, m)"
    by (simp add: shallow_copy_def dense_parameters_default_def free_buf_def)
  have bv: "buffer m ?v = buffer m d" by (simp add: buffer_def)
  have wfv: "dense_wf m ?v" using wf by (simp add: dense_wf_def bv split: sum.splits)
  have rw: "index_read m' d i = Inr x" if w: "index_write m ?v i x = Inr m'" for i x m'
  proof -
    obtain ws where b: "buffer m d = Inr ws" using wf by (auto simp: dense_wf_def split: sum.splits)
    have lt: "unat (i AND weight_mask d) < length ws" using masked_index_lt [OF wf b] .
    have "m' = set_buffer m d (ws[unat (i AND weight_mask d) := x])"
      using w b lt bv by (simp add: index_write_def set_buffer_def)
    then show ?thesis using b lt by (simp add: index_read_def buffer_set_buffer)
  qed
  have "dense_parameters_destroy ?v m = Inr (?v, m)" by (simp add: dense_parameters_destroy_def)
  then show ?thesis using c wfv rw by blast
qed

theorem shallow_copy_aliases_witness:
  "\<exists>v. shallow_copy dense_parameters_default ex_dense ex_mem = Inr (v, ex_mem) \<and> dense_wf ex_mem v \<and>
    (\<forall>i x m'. index_write ex_mem v i x = Inr m' \<longrightarrow> index_read m' ex_dense i = Inr x) \<and>
    dense_parameters_destroy v ex_mem = Inr (v, ex_mem)"
  by (rule shallow_copy_aliases) (simp add: dense_wf_def buffer_def)

text \<open>
  C37: \<open>share()\<close> on a view frees a buffer it does not own: for every owner, a view made
  by \<open>shallow_copy\<close> and then shared leaves the owner pointing at a freed buffer, and
  destroying the owner frees that buffer a second time.
\<close>

theorem share_on_view_double_free:
  assumes own: "buffer m d = Inr ws" and owner: "\<not> seeded d"
    and len: "unat (push_bit (unat (dp_stride_shift d)) n) \<le> length ws"
  shows "\<exists>v v' m2. shallow_copy dense_parameters_default d m = Inr (v, m) \<and>
    share n v m = Inr (v', m2) \<and> buffer m2 d = Inl Use_after_free \<and>
    dense_parameters_destroy d m2 = Inl Double_free"
proof -
  obtain b where b: "dp_begin d = Some b" and bb: "bufs m b = Some ws"
    using own by (auto simp: buffer_def split: option.splits)
  let ?v = "d\<lparr>seeded := True\<rparr>"
  have c: "shallow_copy dense_parameters_default d m = Inr (?v, m)"
    by (simp add: shallow_copy_def dense_parameters_default_def free_buf_def)
  let ?fc = "unat (push_bit (unat (dp_stride_shift d)) n)"
  let ?m1 = "m\<lparr>bufs := (bufs m)(next_buf m \<mapsto> take ?fc ws), next_buf := Suc (next_buf m)\<rparr>"
  obtain ws1 where b1: "bufs ?m1 b = Some ws1" using bb by (cases "b = next_buf m") auto
  let ?m2 = "?m1\<lparr>bufs := (bufs ?m1)(b := None), avail := avail ?m1 + length ws1\<rparr>"
  have s: "share n ?v m = Inr (?v\<lparr>dp_begin := Some (next_buf m)\<rparr>, ?m2)"
    using own b b1 len by (simp add: share_def buffer_def free_buf_def Let_def)
  have "buffer ?m2 d = Inl Use_after_free" and "dense_parameters_destroy d ?m2 = Inl Double_free"
    using b owner by (simp_all add: buffer_def dense_parameters_destroy_def free_buf_def)
  then show ?thesis using c s by blast
qed

theorem share_on_view_double_free_witness:
  "buffer ex_mem ex_dense = Inr [1, 2, 3, 4] \<and> \<not> seeded ex_dense \<and>
   unat (push_bit (unat (dp_stride_shift ex_dense)) (2::u64)) \<le> length [1, 2, 3, (4::weight)] \<and>
   (\<exists>v v' m2. shallow_copy dense_parameters_default ex_dense ex_mem = Inr (v, ex_mem) \<and>
     share 2 v ex_mem = Inr (v', m2) \<and> buffer m2 ex_dense = Inl Use_after_free \<and>
     dense_parameters_destroy ex_dense m2 = Inl Double_free)"
proof -
  have own: "buffer ex_mem ex_dense = Inr [1, 2, 3, 4]" and owner: "\<not> seeded ex_dense"
    and len: "unat (push_bit (unat (dp_stride_shift ex_dense)) (2::u64)) \<le> length [1, 2, 3, (4::weight)]"
    by (simp_all add: buffer_def)
  show ?thesis using share_on_view_double_free [OF own owner len] own owner len by blast
qed

text \<open>
  C38: \<open>shallow_copy\<close> of an owner into itself frees its own buffer and keeps pointing at
  it, now as a view: every later element access is a use after free.
\<close>

theorem shallow_copy_self_use_after_free:
  assumes own: "buffer m d = Inr ws" and owner: "\<not> seeded d"
  shows "\<exists>d' m'. shallow_copy d d m = Inr (d', m') \<and> dp_begin d' = dp_begin d \<and> seeded d' \<and>
    (\<forall>i. index_read m' d' i = Inl Use_after_free) \<and>
    (\<forall>i x. index_write m' d' i x = Inl Use_after_free)"
proof -
  obtain b where b: "dp_begin d = Some b" and bb: "bufs m b = Some ws"
    using own by (auto simp: buffer_def split: option.splits)
  let ?m' = "m\<lparr>bufs := (bufs m)(b := None), avail := avail m + length ws\<rparr>"
  have c: "shallow_copy d d m = Inr (d\<lparr>seeded := True\<rparr>, ?m')"
    using b bb owner by (simp add: shallow_copy_def free_buf_def)
  have "buffer ?m' (d\<lparr>seeded := True\<rparr>) = Inl Use_after_free" using b by (simp add: buffer_def)
  then show ?thesis using c b by (simp add: index_read_def index_write_def)
qed

theorem shallow_copy_self_use_after_free_witness:
  "buffer ex_mem ex_dense = Inr [1, 2, 3, 4] \<and> \<not> seeded ex_dense \<and>
   (\<exists>d' m'. shallow_copy ex_dense ex_dense ex_mem = Inr (d', m') \<and> dp_begin d' = dp_begin ex_dense \<and>
     seeded d' \<and> (\<forall>i. index_read m' d' i = Inl Use_after_free) \<and>
     (\<forall>i x. index_write m' d' i x = Inl Use_after_free))"
proof -
  have own: "buffer ex_mem ex_dense = Inr [1, 2, 3, 4]" and owner: "\<not> seeded ex_dense"
    by (simp_all add: buffer_def)
  show ?thesis using shallow_copy_self_use_after_free [OF own owner] own owner by blast
qed



end
