(* ===== verification/Offsets.thy ===== *)
theory Offsets
  imports Weights
begin

text \<open>
  The offset operations of \<open>dense_parameters\<close> against their row-wise contracts: the
  buffer seen as one row per stride group, \<open>clear_offset\<close>, \<open>set_default\<close> and
  \<open>swap_offsets\<close> as updates of weight 0 of selected rows, and the proofs that the
  strided loops of array_parameters_dense.h implement them.
\<close>

unbundle bit_operations_syntax

section \<open>The row view and the row-wise contracts\<close>

text \<open>
  The abstract view of the weight store the offset operations are written against:
  the buffer as a list of rows, one per stride group (\<open>iter\<close> of the file walks
  them), and the row-wise effect of \<open>clear_offset\<close> and \<open>set_default\<close> on it.
\<close>

definition weight_rows :: "nat \<Rightarrow> weight list \<Rightarrow> weight list list" where
  "weight_rows st ws = map (\<lambda>g. take st (drop (g * st) ws)) [0..<length ws div st]"

definition rows_clear_offset :: "u64 \<Rightarrow> u64 \<Rightarrow> weight list list \<Rightarrow> weight list list" where
  "rows_clear_offset offset params_per_problem rows =
     map (\<lambda>(g, r). if (word_of_nat g AND (params_per_problem - 1)) = offset then r[0 := 0] else r)
       (zip [0..<length rows] rows)"

definition rows_set_default ::
  "(u64 \<Rightarrow> weight \<Rightarrow> weight) \<Rightarrow> nat \<Rightarrow> weight list list \<Rightarrow> weight list list" where
  "rows_set_default default_func st rows =
     map (\<lambda>(g, r). r[0 := default_func (word_of_nat (g * st)) (r ! 0)]) (zip [0..<length rows] rows)"

text \<open>
  The row-wise contract of \<open>swap_offsets(offset_1, offset_2, params_per_problem)\<close>:
  weight 0 of every row of type \<open>offset_1\<close> is exchanged with weight 0 of the row
  \<open>offset_2 - offset_1\<close> further on. \<open>swap_visited\<close> is the flat buffer after the loop
  has visited the first \<open>k\<close> rows, where \<open>T\<close> marks the rows of type \<open>offset_1\<close>.
\<close>

definition rows_swap_offsets :: "u64 \<Rightarrow> u64 \<Rightarrow> u64 \<Rightarrow> weight list list \<Rightarrow> weight list list" where
  "rows_swap_offsets offset_1 offset_2 params_per_problem rows =
     (let dd = unat offset_2 - unat offset_1;
          is_1 = (\<lambda>g. (word_of_nat g AND (params_per_problem - 1)) = offset_1)
      in map (\<lambda>(g, r). if is_1 g then r[0 := rows ! (g + dd) ! 0]
                       else if dd \<le> g \<and> is_1 (g - dd) then r[0 := rows ! (g - dd) ! 0] else r)
           (zip [0..<length rows] rows))"

text \<open>The abstraction of a store to the rows of an instance's buffer.\<close>

definition store_rows :: "nat \<Rightarrow> wmem \<Rightarrow> dense_parameters \<Rightarrow> error + weight list list" where
  "store_rows st m d = map_sum id (weight_rows st) (buffer m d)"

definition swap_visited :: "(nat \<Rightarrow> bool) \<Rightarrow> nat \<Rightarrow> nat \<Rightarrow> weight list \<Rightarrow> nat \<Rightarrow> nat \<Rightarrow> weight" where
  "swap_visited T dd st ws k j =
     (let g = j div st
      in if j mod st = 0 \<and> g < k \<and> T g then ws ! ((g + dd) * st)
         else if j mod st = 0 \<and> dd \<le> g \<and> g - dd < k \<and> T (g - dd) then ws ! ((g - dd) * st)
         else ws ! j)"

section \<open>The loops against the row view\<close>

text \<open>The flat buffer is the concatenation of its rows, and a slot-0 update is row-wise.\<close>

lemma concat_weight_rows:
  assumes "0 < st" and "length ws = n * st"
  shows "concat (weight_rows st ws) = ws"
  using assms
proof (induction n arbitrary: ws)
  case 0
  then show ?case by (simp add: weight_rows_def)
next
  case (Suc n)
  have u: "[0..<Suc n] = 0 # map Suc [0..<n]" by (simp add: map_Suc_upt upt_conv_Cons)
  have "weight_rows st ws = take st ws # weight_rows st (drop st ws)"
  proof -
    have d: "length ws div st = Suc n" and d': "length (drop st ws) div st = n"
      using Suc.prems by simp_all
    show ?thesis
      by (simp only: weight_rows_def d d' u list.map) (simp add: comp_def drop_drop add.commute)
  qed
  then show ?case using Suc by simp
qed

lemma weight_rows_slot0:
  assumes st: "0 < st" and len: "length ws = n * st"
  shows "weight_rows st (map (\<lambda>j. if j mod st = 0 then h (j div st) (ws ! j) else ws ! j) [0..<length ws]) =
    map (\<lambda>(g, r). r[0 := h g (r ! 0)]) (zip [0..<length (weight_rows st ws)] (weight_rows st ws))"
proof (rule nth_equalityI)
  show "length (weight_rows st (map (\<lambda>j. if j mod st = 0 then h (j div st) (ws ! j) else ws ! j)
      [0..<length ws])) = length (map (\<lambda>(g, r). r[0 := h g (r ! 0)])
      (zip [0..<length (weight_rows st ws)] (weight_rows st ws)))"
    by (simp add: weight_rows_def)
next
  fix g assume "g < length (weight_rows st (map (\<lambda>j. if j mod st = 0 then h (j div st) (ws ! j)
      else ws ! j) [0..<length ws]))"
  then have g: "g < n" using st len by (simp add: weight_rows_def)
  then have "Suc g * st \<le> n * st" by (intro mult_le_mono1) simp
  then have gs: "g * st + st \<le> length ws" using len by simp
  show "weight_rows st (map (\<lambda>j. if j mod st = 0 then h (j div st) (ws ! j) else ws ! j)
      [0..<length ws]) ! g = map (\<lambda>(g, r). r[0 := h g (r ! 0)])
      (zip [0..<length (weight_rows st ws)] (weight_rows st ws)) ! g"
    using g gs st len by (auto simp: weight_rows_def list_eq_iff_nth_eq nth_list_update)
qed

lemma drop_bit_group_index:
  assumes "g * 2 ^ s < (2::nat) ^ 64"
  shows "drop_bit s (word_of_nat (g * 2 ^ s) :: u64) = word_of_nat g"
proof -
  have "g \<le> g * 2 ^ s" by simp
  then have g: "g < 2 ^ 64" using assms by linarith
  have "unat (word_of_nat (g * 2 ^ s) :: u64) = g * 2 ^ s"
    using assms by (simp only: unsigned_of_nat) (simp add: take_bit_nat_eq_self)
  then have "unat (drop_bit s (word_of_nat (g * 2 ^ s) :: u64)) = g"
    by (simp only: unat_drop_bit_eq) (simp add: drop_bit_eq_div)
  moreover have "unat (word_of_nat g :: u64) = g"
    using g by (simp add: unsigned_of_nat take_bit_nat_eq_self)
  ultimately show ?thesis by (simp add: word_unat_eq_iff)
qed

lemma group_lt_length:
  assumes g: "(g::nat) < l div st"
  shows "g * st < l"
proof -
  from g have "0 < st" by (cases "st = 0") simp_all
  then have "g * st < l div st * st" using g by simp
  also have "\<dots> \<le> l" by (rule div_times_less_eq_dividend)
  finally show ?thesis .
qed

text \<open>
  A loop whose body rewrites slot 0 of each group, by a function of the group number
  and the old value, refines the row-wise update of slot 0.
\<close>

lemma for_each_group_slot0:
  assumes wf: "dense_wf m d" and buf: "buffer m d = Inr ws"
    and st: "0 < unat (stride d)" and dvd: "unat (stride d) dvd length ws"
    and body: "\<And>g ws'. g < length ws div unat (stride d) \<Longrightarrow> length ws' = length ws \<Longrightarrow>
      body (g * unat (stride d)) ws' =
        Inr (ws'[g * unat (stride d) := h g (ws' ! (g * unat (stride d)))])"
    and len: "\<And>p ws ws'. body p ws = Inr ws' \<Longrightarrow> length ws' = length ws"
  shows "\<exists>ws'. for_each_group body d m = Some (Inr (set_buffer m d ws')) \<and>
    length ws' = length ws \<and>
    weight_rows (unat (stride d)) ws' =
      map (\<lambda>(g, r). r[0 := h g (r ! 0)])
        (zip [0..<length (weight_rows (unat (stride d)) ws)] (weight_rows (unat (stride d)) ws))"
proof -
  let ?st = "unat (stride d)" and ?n = "length ws div unat (stride d)"
  have l: "length ws = ?n * ?st" using dvd by simp
  have "fold_groups body (map (\<lambda>g. g * ?st) [0..<?n]) ws =
      Inr (map (\<lambda>j. if 0 * ?st \<le> j \<and> j mod ?st = 0 then h (j div ?st) (ws ! j) else ws ! j)
        [0..<length ws])"
    by (rule fold_groups_slot [OF st st _ l]) (use body l in simp_all)
  moreover have "for_each_group body d m =
      Some (map_sum id (set_buffer m d) (fold_groups body (map (\<lambda>g. g * ?st) [0..<?n]) ws))"
    by (rule for_each_group_fold [OF wf buf st dvd]) (rule len)
  ultimately show ?thesis
    by (intro exI [where x = "map (\<lambda>j. if j mod ?st = 0 then h (j div ?st) (ws ! j) else ws ! j)
        [0..<length ws]"]) (simp add: weight_rows_slot0 [OF st l, of h])
qed

lemma fold_groups_swap:
  assumes st: "0 < st" and dd: "0 < dd"
    and P1: "\<And>g. T g \<Longrightarrow> \<not> T (g + dd)"
    and P2: "\<And>g. g < n \<Longrightarrow> T g \<Longrightarrow> g + dd < n"
    and P3: "\<And>g. T g \<Longrightarrow> dd \<le> g \<Longrightarrow> \<not> T (g - dd)"
    and body_T: "\<And>g xs. g < n \<Longrightarrow> T g \<Longrightarrow> length xs = n * st \<Longrightarrow>
      body (g * st) xs = Inr (xs[(g + dd) * st := xs ! (g * st), g * st := xs ! ((g + dd) * st)])"
    and body_N: "\<And>g xs. g < n \<Longrightarrow> \<not> T g \<Longrightarrow> length xs = n * st \<Longrightarrow> body (g * st) xs = Inr xs"
  shows "length ws = n * st \<Longrightarrow> k \<le> n \<Longrightarrow>
    fold_groups body (map (\<lambda>g. g * st) [k..<n]) (map (swap_visited T dd st ws k) [0..<length ws]) =
      Inr (map (swap_visited T dd st ws n) [0..<length ws])"
proof (induction "n - k" arbitrary: k)
  case 0
  then show ?case by simp
next
  case (Suc x)
  let ?F = "\<lambda>k. map (swap_visited T dd st ws k) [0..<length ws]"
  from Suc have kn: "k < n" by simp
  have slot: "j = j div st * st" if "j mod st = 0" for j
    using that div_mult_mod_eq [of j st] by simp
  have step: "body (k * st) (?F k) = Inr (?F (Suc k))"
  proof (cases "T k")
    case True
    have kd: "k + dd < n" using P2 [OF kn True] .
    have i0: "k * st < length ws" and i1: "(k + dd) * st < length ws"
      using kn kd Suc.prems(1) st by simp_all
    have ne: "k * st \<noteq> (k + dd) * st" using st dd by simp
    have a: "?F k ! (k * st) = ws ! (k * st)"
      using i0 P3 [OF True] st by (auto simp: swap_visited_def)
    have b: "?F k ! ((k + dd) * st) = ws ! ((k + dd) * st)"
      using i1 P1 [OF True] st by (auto simp: swap_visited_def)
    have "(?F k)[(k + dd) * st := ?F k ! (k * st), k * st := ?F k ! ((k + dd) * st)] = ?F (Suc k)"
    proof (rule nth_equalityI)
      fix j assume "j < length ((?F k)[(k + dd) * st := ?F k ! (k * st), k * st := ?F k ! ((k + dd) * st)])"
      then have j: "j < length ws" by simp
      show "(?F k)[(k + dd) * st := ?F k ! (k * st), k * st := ?F k ! ((k + dd) * st)] ! j = ?F (Suc k) ! j"
      proof (cases "j = k * st \<or> j = (k + dd) * st")
        case True
        then show ?thesis using a b i0 i1 ne st True \<open>T k\<close> P1 [OF \<open>T k\<close>] P3 [OF \<open>T k\<close>]
          by (auto simp: swap_visited_def)
      next
        case False
        have "\<not> (j mod st = 0 \<and> j div st = k)" and "\<not> (j mod st = 0 \<and> j div st = k + dd)"
          using False slot by auto
        then have "swap_visited T dd st ws (Suc k) j = swap_visited T dd st ws k j"
          by (auto simp: swap_visited_def Let_def less_Suc_eq)
        then show ?thesis using False j by simp
      qed
    qed simp
    then show ?thesis using body_T [OF kn True] a b Suc.prems(1) by simp
  next
    case False
    have "swap_visited T dd st ws (Suc k) j = swap_visited T dd st ws k j" for j
      using False by (auto simp: swap_visited_def Let_def less_Suc_eq)
    then have "?F (Suc k) = ?F k" by simp
    then show ?thesis using body_N [OF kn False] Suc.prems(1) by simp
  qed
  have "fold_groups body (map (\<lambda>g. g * st) [Suc k..<n]) (?F (Suc k)) = Inr (?F n)"
    using Suc.hyps(1) [of "Suc k"] Suc.hyps(2) Suc.prems(1) kn by simp
  then show ?case using step kn by (simp add: upt_conv_Cons)
qed

lemma weight_rows_nth0:
  assumes "g < n" and "length ws = n * st" and "0 < st"
  shows "weight_rows st ws ! g ! 0 = ws ! (g * st)"
proof -
  have "g * st + st \<le> length ws"
    using assms by (metis add.commute mult_Suc mult_le_mono1 Suc_leI)
  then show ?thesis using assms by (simp add: weight_rows_def)
qed

lemma length_weight_rows: "0 < st \<Longrightarrow> length ws = n * st \<Longrightarrow> length (weight_rows st ws) = n"
  by (simp add: weight_rows_def)

lemma weight_rows_nonempty:
  "g < n \<Longrightarrow> length ws = n * st \<Longrightarrow> 0 < st \<Longrightarrow> weight_rows st ws ! g \<noteq> []"
  by (simp add: weight_rows_def)

text \<open>
  One visit of the \<open>swap_offsets\<close> loop, at a row of a buffer whose rows fill blocks of
  \<open>params_per_problem = 2^b\<close>: a row of type \<open>offset_1\<close> exchanges weight 0 with the row
  \<open>offset_2 - offset_1\<close> further on (the zero skip is invisible), any other row is kept.
\<close>

lemma swap_offsets_body_row:
  assumes ss: "unat (dp_stride_shift d) < 32" and gn: "g < n"
    and len: "length xs = n * unat (stride d)" and lt: "n * unat (stride d) < 2 ^ 64"
    and ppp: "params_per_problem = 2 ^ b" "b < 64"
    and o: "offset_1 < offset_2" "unat offset_2 < 2 ^ b" and blocks: "2 ^ b dvd n"
  shows "swap_offsets_body d offset_1 offset_2 params_per_problem (g * unat (stride d)) xs =
    (if g mod 2 ^ b = unat offset_1
     then Inr (xs[(g + (unat offset_2 - unat offset_1)) * unat (stride d) := xs ! (g * unat (stride d)),
                  g * unat (stride d) := xs ! ((g + (unat offset_2 - unat offset_1)) * unat (stride d))])
     else Inr xs)"
proof -
  let ?s = "unat (dp_stride_shift d)" and ?st = "unat (stride d)"
  let ?dd = "unat offset_2 - unat offset_1"
  have st: "?st = 2 ^ ?s" by (rule stride_unat [OF ss])
  have o1: "unat offset_1 < unat offset_2" using o(1) by (simp add: word_less_nat_alt)
  have ty: "(word_of_nat g AND (params_per_problem - 1) = offset_1) \<longleftrightarrow> g mod 2 ^ b = unat offset_1"
    by (rule problem_type [OF ppp]) (use o1 o(2) in simp)
  have "g * ?st < n * ?st" using gn st by simp
  then have gst: "g * ?st < 2 ^ 64" using lt by linarith
  have idx: "drop_bit ?s (word_of_nat (g * ?st) :: u64) = word_of_nat g"
    unfolding st by (rule drop_bit_group_index) (use gst st in simp)
  show ?thesis
  proof (cases "g mod 2 ^ b = unat offset_1")
    case False
    then show ?thesis using idx ty by (simp add: swap_offsets_body_def Let_def)
  next
    case True
    have gd: "g + ?dd < n" using problem_partner(2) [OF o1 o(2) True blocks gn] .
    have gdst: "(g + ?dd) * ?st < n * ?st" using gd st by simp
    have "unat (offset_2 - offset_1) = ?dd" using o(1) by (simp add: unat_sub less_imp_le)
    moreover have "unat (word_of_nat ?dd :: u64) = ?dd"
    proof -
      have "unat offset_2 < (2::nat) ^ LENGTH(64)" by (rule unsigned_less)
      then show ?thesis by (simp add: unsigned_of_nat take_bit_nat_eq_self)
    qed
    ultimately have sub: "offset_2 - offset_1 = word_of_nat ?dd" by (simp add: word_unat_eq_iff)
    have w: "word_of_nat g + (offset_2 - offset_1) = (word_of_nat (g + ?dd) :: u64)"
      by (simp add: sub)
    have u: "unat (word_of_nat (g + ?dd) :: u64) = g + ?dd"
    proof -
      have "g + ?dd \<le> (g + ?dd) * ?st" using st by simp
      then have "g + ?dd < 2 ^ 64" using gdst lt by linarith
      then show ?thesis by (simp only: unsigned_of_nat) (simp add: take_bit_nat_eq_self)
    qed
    have lt': "n * 2 ^ ?s < 2 ^ 64" using lt st by simp
    have "(g + ?dd) * 2 ^ ?s < 2 ^ 64" by (rule less_trans [OF mult_less_mono1 [OF gd] lt']) simp
    then have b: "(g + ?dd) * 2 ^ ?s < 2 ^ LENGTH(64)" by simp
    have pb: "unat (push_bit ?s (word_of_nat (g + ?dd) :: u64)) = (g + ?dd) * 2 ^ ?s"
      using unat_push_bit_small [of "word_of_nat (g + ?dd) :: u64" ?s] b unfolding u by blast
    have other: "unat (push_bit ?s (word_of_nat g + (offset_2 - offset_1))) = (g + ?dd) * ?st"
      unfolding w by (simp only: pb st)
    have p: "g * ?st < length xs" and q: "(g + ?dd) * ?st < length xs"
      using gn gd len st by simp_all
    have z: "xs ! ((g + ?dd) * ?st) = 0 \<Longrightarrow> xs ! (g * ?st) = 0 \<Longrightarrow>
        xs[(g + ?dd) * ?st := xs ! (g * ?st), g * ?st := xs ! ((g + ?dd) * ?st)] = xs"
      using swap_zero_id [OF q] by simp
    show ?thesis using True idx ty other q z by (auto simp: swap_offsets_body_def Let_def)
  qed
qed

lemma length_rows_swap_offsets [simp]:
  "length (rows_swap_offsets offset_1 offset_2 params_per_problem rows) = length rows"
  by (simp add: rows_swap_offsets_def Let_def)

lemma rows_swap_offsets_nth:
  assumes ppp: "params_per_problem = 2 ^ b" "b < 64"
    and o: "offset_1 < offset_2" "unat offset_2 < 2 ^ b" and g: "g < length rows"
  shows "rows_swap_offsets offset_1 offset_2 params_per_problem rows ! g =
    (let dd = unat offset_2 - unat offset_1; T = (\<lambda>g. g mod 2 ^ b = unat offset_1)
     in if T g then (rows ! g)[0 := rows ! (g + dd) ! 0]
        else if dd \<le> g \<and> T (g - dd) then (rows ! g)[0 := rows ! (g - dd) ! 0] else rows ! g)"
proof -
  have "unat offset_1 < unat offset_2" using o(1) by (simp add: word_less_nat_alt)
  then have "unat offset_1 < 2 ^ b" using o(2) by simp
  then show ?thesis using g problem_type [OF ppp] by (simp add: rows_swap_offsets_def Let_def)
qed

text \<open>The row-wise swap undoes itself on rows that all have a weight 0.\<close>

lemma rows_swap_offsets_involutive:
  assumes ppp: "params_per_problem = 2 ^ b" "b < 64"
    and o: "offset_1 < offset_2" "unat offset_2 < 2 ^ b"
    and blocks: "2 ^ b dvd length rows" and ne: "\<And>g. g < length rows \<Longrightarrow> rows ! g \<noteq> []"
  shows "rows_swap_offsets offset_1 offset_2 params_per_problem
           (rows_swap_offsets offset_1 offset_2 params_per_problem rows) = rows"
proof -
  let ?S = "rows_swap_offsets offset_1 offset_2 params_per_problem"
  let ?dd = "unat offset_2 - unat offset_1" and ?T = "\<lambda>g. g mod 2 ^ b = unat offset_1"
  have o1: "unat offset_1 < unat offset_2" using o(1) by (simp add: word_less_nat_alt)
  have len: "length (?S rows) = length rows" by simp
  note nth = rows_swap_offsets_nth [OF ppp o]
  show ?thesis
  proof (rule nth_equalityI)
    show "length (?S (?S rows)) = length rows" by simp
  next
    fix g assume "g < length (?S (?S rows))"
    then have g: "g < length rows" by simp
    show "?S (?S rows) ! g = rows ! g"
    proof (cases "?T g")
      case True
      have p: "g + ?dd < length rows" using problem_partner(2) [OF o1 o(2) True blocks g] .
      have "\<not> ?T (g + ?dd)" using problem_partner(1) [OF o1 o(2) True] .
      then have "?S rows ! (g + ?dd) = (rows ! (g + ?dd))[0 := rows ! g ! 0]"
        using nth [of "g + ?dd" rows] p True by (simp add: Let_def)
      then show ?thesis
        using nth [of g "?S rows"] nth [of g rows] g p True len ne [OF p] by (simp add: Let_def)
    next
      case False
      show ?thesis
      proof (cases "?dd \<le> g \<and> ?T (g - ?dd)")
        case True
        have q: "g - ?dd < length rows" using g by simp
        have "?S rows ! (g - ?dd) = (rows ! (g - ?dd))[0 := rows ! g ! 0]"
          using nth [of "g - ?dd" rows] q True by (simp add: Let_def)
        then show ?thesis
          using nth [of g "?S rows"] nth [of g rows] g q True False len ne [OF q] by (simp add: Let_def)
      next
        case N: False
        then show ?thesis
          using nth [of g "?S rows"] nth [of g rows] g False len by (auto simp: Let_def)
      qed
    qed
  qed
qed

text \<open>
  The \<open>swap_offsets\<close> loop, on a store whose rows fill blocks of
  \<open>params_per_problem = 2^b\<close>, with \<open>offset_1 < offset_2 < params_per_problem\<close>:
  it returns, keeps the buffer's length, and its rows are the row-wise swap.
\<close>

lemma swap_offsets_rows:
  assumes wf: "dense_wf m d" and buf: "buffer m d = Inr ws"
    and ss: "unat (dp_stride_shift d) < 32" and dvd: "unat (stride d) dvd length ws"
    and ppp: "params_per_problem = 2 ^ b" "b < 64"
    and o: "offset_1 < offset_2" "unat offset_2 < 2 ^ b"
    and blocks: "2 ^ b dvd length ws div unat (stride d)"
  shows "\<exists>ws'. swap_offsets offset_1 offset_2 params_per_problem d m = Some (Inr (set_buffer m d ws')) \<and>
    length ws' = length ws \<and>
    weight_rows (unat (stride d)) ws' =
      rows_swap_offsets offset_1 offset_2 params_per_problem (weight_rows (unat (stride d)) ws)"
proof -
  let ?st = "unat (stride d)" and ?n = "length ws div unat (stride d)"
  let ?dd = "unat offset_2 - unat offset_1" and ?T = "\<lambda>g. g mod 2 ^ b = unat offset_1"
  let ?body = "swap_offsets_body d offset_1 offset_2 params_per_problem"
  let ?ws' = "map (swap_visited ?T ?dd ?st ws ?n) [0..<length ws]"
  have st: "0 < ?st" using stride_unat [OF ss] by simp
  have l: "length ws = ?n * ?st" using dvd by simp
  have lt: "?n * ?st < 2 ^ 64"
    using wf buf unsigned_less [of "weight_mask d + 1"] l by (simp add: dense_wf_def)
  have o1: "unat offset_1 < unat offset_2" using o(1) by (simp add: word_less_nat_alt)
  have dd: "0 < ?dd" using o1 by simp
  have P1: "\<And>g. ?T g \<Longrightarrow> \<not> ?T (g + ?dd)" using problem_partner(1) [OF o1 o(2)] by blast
  have P2: "\<And>g. g < ?n \<Longrightarrow> ?T g \<Longrightarrow> g + ?dd < ?n"
    using problem_partner(2) [OF o1 o(2) _ blocks] by blast
  have P3: "\<And>g. ?T g \<Longrightarrow> ?dd \<le> g \<Longrightarrow> \<not> ?T (g - ?dd)" using problem_partner(3) [OF o1 o(2)] by blast
  note row = swap_offsets_body_row [OF ss _ _ lt ppp o blocks]
  have body_T: "\<And>g xs. g < ?n \<Longrightarrow> ?T g \<Longrightarrow> length xs = ?n * ?st \<Longrightarrow>
      ?body (g * ?st) xs = Inr (xs[(g + ?dd) * ?st := xs ! (g * ?st), g * ?st := xs ! ((g + ?dd) * ?st)])"
    using row by simp
  have body_N: "\<And>g xs. g < ?n \<Longrightarrow> \<not> ?T g \<Longrightarrow> length xs = ?n * ?st \<Longrightarrow> ?body (g * ?st) xs = Inr xs"
    using row by simp
  have F0: "map (swap_visited ?T ?dd ?st ws 0) [0..<length ws] = ws"
    by (rule nth_equalityI) (simp_all add: swap_visited_def)
  have "fold_groups ?body (map (\<lambda>g. g * ?st) [0..<?n]) (map (swap_visited ?T ?dd ?st ws 0) [0..<length ws]) =
      Inr ?ws'"
    using fold_groups_swap [where T = ?T and dd = ?dd and st = ?st and n = ?n and body = ?body
        and ws = ws and k = 0] st dd P1 P2 P3 body_T body_N l by blast
  then have fold: "fold_groups ?body (map (\<lambda>g. g * ?st) [0..<?n]) ws = Inr ?ws'" by (simp only: F0)
  have loop: "for_each_group ?body d m =
      Some (map_sum id (set_buffer m d) (fold_groups ?body (map (\<lambda>g. g * ?st) [0..<?n]) ws))"
    by (rule for_each_group_fold [OF wf buf st dvd]) (rule swap_offsets_body_length)
  let ?h = "\<lambda>g w. if ?T g then ws ! ((g + ?dd) * ?st)
                   else if ?dd \<le> g \<and> ?T (g - ?dd) then ws ! ((g - ?dd) * ?st) else w"
  have flat: "?ws' = map (\<lambda>j. if j mod ?st = 0 then ?h (j div ?st) (ws ! j) else ws ! j) [0..<length ws]"
  proof (rule map_cong [OF refl])
    fix j assume "j \<in> set [0..<length ws]"
    then have "j div ?st < ?n" using l st by (simp add: less_mult_imp_div_less)
    then show "swap_visited ?T ?dd ?st ws ?n j =
        (if j mod ?st = 0 then ?h (j div ?st) (ws ! j) else ws ! j)"
      by (auto simp: swap_visited_def Let_def)
  qed
  let ?R = "weight_rows ?st ws"
  have lenR: "length ?R = ?n" by (rule length_weight_rows [OF st l])
  have rows: "map (\<lambda>(g, r). r[0 := ?h g (r ! 0)]) (zip [0..<length ?R] ?R) =
      rows_swap_offsets offset_1 offset_2 params_per_problem ?R"
  proof (rule nth_equalityI)
    fix g assume "g < length (map (\<lambda>(g, r). r[0 := ?h g (r ! 0)]) (zip [0..<length ?R] ?R))"
    then have g: "g < ?n" using lenR by simp
    have r0: "?R ! g' ! 0 = ws ! (g' * ?st)" if "g' < ?n" for g'
      by (rule weight_rows_nth0 [OF that l st])
    show "map (\<lambda>(g, r). r[0 := ?h g (r ! 0)]) (zip [0..<length ?R] ?R) ! g =
        rows_swap_offsets offset_1 offset_2 params_per_problem ?R ! g"
      using rows_swap_offsets_nth [OF ppp o, of g ?R] g lenR r0 [of g, symmetric]
        r0 [of "g + ?dd", symmetric] r0 [of "g - ?dd", symmetric] P2 [OF g] by (auto simp: Let_def)
  qed simp
  have r: "weight_rows ?st ?ws' = rows_swap_offsets offset_1 offset_2 params_per_problem ?R"
    by (simp only: flat weight_rows_slot0 [OF st l, of ?h] rows)
  have lw: "length ?ws' = length ws" by simp
  have "swap_offsets offset_1 offset_2 params_per_problem d m = Some (Inr (set_buffer m d ?ws'))"
    using loop fold by (simp add: swap_offsets_def)
  then show ?thesis using lw r by blast
qed

section \<open>Refinement of the offset operations\<close>

text \<open>
  C10: \<open>clear_offset(offset, params_per_problem)\<close> implements its row-wise contract:
  on a well-formed store whose stride (below \<open>2^32\<close>) divides the buffer, it returns,
  keeps the buffer's length, and in the row view zeroes weight 0 of exactly the rows
  whose problem type \<open>row AND (params_per_problem - 1)\<close> is \<open>offset\<close>.
\<close>

theorem clear_offset_refines:
  assumes wf: "dense_wf m d" and buf: "buffer m d = Inr ws"
    and ss: "unat (dp_stride_shift d) < 32" and dvd: "unat (stride d) dvd length ws"
  shows "\<exists>ws'. clear_offset offset params_per_problem d m = Some (Inr (set_buffer m d ws')) \<and>
    length ws' = length ws \<and>
    weight_rows (unat (stride d)) ws' =
      rows_clear_offset offset params_per_problem (weight_rows (unat (stride d)) ws)"
proof -
  let ?st = "unat (stride d)" and ?s = "unat (dp_stride_shift d)"
  let ?h = "\<lambda>g w. if (word_of_nat g AND (params_per_problem - 1)) = offset then 0 else w"
  have st: "?st = 2 ^ ?s" by (rule stride_unat [OF ss])
  have lt: "length ws < 2 ^ 64"
    using wf buf unsigned_less [of "weight_mask d + 1"] by (simp add: dense_wf_def)
  have idx: "drop_bit ?s (word_of_nat (g * ?st) :: u64) = word_of_nat g"
    if "g < length ws div ?st" for g
    unfolding st by (rule drop_bit_group_index) (use group_lt_length [OF that] lt st in simp)
  have body: "clear_offset_body d offset params_per_problem (g * ?st) ws' =
      Inr (ws'[g * ?st := ?h g (ws' ! (g * ?st))])" if "g < length ws div ?st" for g ws'
  proof -
    have z: "ws' ! (g * ?st) = 0 \<Longrightarrow> ws'[g * ?st := 0] = ws'" by (metis list_update_id)
    show ?thesis using idx [OF that] by (auto simp: clear_offset_body_def Let_def z)
  qed
  have len: "length ws' = length ws0" if "clear_offset_body d offset params_per_problem p ws0 = Inr ws'"
    for p ws0 ws'
    using that by (auto simp: clear_offset_body_def Let_def split: if_splits)
  have rows: "map (\<lambda>(g, r). r[0 := ?h g (r ! 0)]) zs =
      map (\<lambda>(g, r). if (word_of_nat g AND (params_per_problem - 1)) = offset then r[0 := 0] else r) zs"
    for zs :: "(nat \<times> weight list) list"
    by (induction zs) auto
  have "0 < ?st" using st by simp
  from for_each_group_slot0 [where body = "clear_offset_body d offset params_per_problem" and h = ?h,
      OF wf buf this dvd body len]
  show ?thesis unfolding clear_offset_def rows_clear_offset_def rows [symmetric] .
qed

theorem clear_offset_refines_witness:
  "dense_wf ex_mem ex_dense \<and> buffer ex_mem ex_dense = Inr [1, 2, 3, 4] \<and>
   unat (dp_stride_shift ex_dense) < 32 \<and> unat (stride ex_dense) dvd length [1, 2, 3, (4::weight)] \<and>
   clear_offset 1 2 ex_dense ex_mem = Some (Inr (ex_mem\<lparr>bufs := [0 \<mapsto> [1, 2, 0, 4]]\<rparr>))"
proof -
  have wf: "dense_wf ex_mem ex_dense" and buf: "buffer ex_mem ex_dense = Inr [1, 2, 3, 4]"
    and st: "unat (stride ex_dense) = 2"
    by (simp_all add: dense_wf_def buffer_def stride_def)
  obtain ws' where r: "clear_offset 1 2 ex_dense ex_mem = Some (Inr (set_buffer ex_mem ex_dense ws'))"
    and l: "length ws' = 4" and rows: "weight_rows 2 ws' = rows_clear_offset 1 2 (weight_rows 2 [1, 2, 3, 4])"
    using clear_offset_refines [OF wf buf, of 1 2] st by auto
  have "rows_clear_offset 1 2 (weight_rows 2 [1, 2, 3, 4]) = [[1, 2], [0, 4]]"
    by (simp add: rows_clear_offset_def weight_rows_def upt_conv_Cons)
  then have "ws' = [1, 2, 0, 4]" using concat_weight_rows [of 2 ws' 2] l rows by simp
  then show ?thesis using wf buf st r by (simp add: set_buffer_def)
qed

text \<open>
  C11: \<open>set_default(default_func)\<close> implements its row-wise contract: on a well-formed
  store whose nonzero stride divides the buffer, it returns and replaces weight 0 of
  every row \<open>g\<close> by \<open>default_func\<close> of the row's buffer index \<open>g * stride\<close> and
  its old value, the other weights unchanged.
\<close>

theorem set_default_refines:
  assumes wf: "dense_wf m d" and buf: "buffer m d = Inr ws"
    and st: "0 < unat (stride d)" and dvd: "unat (stride d) dvd length ws"
  shows "\<exists>ws'. set_default default_func d m = Some (Inr (set_buffer m d ws')) \<and>
    length ws' = length ws \<and>
    weight_rows (unat (stride d)) ws' =
      rows_set_default default_func (unat (stride d)) (weight_rows (unat (stride d)) ws)"
  using for_each_group_slot0 [OF wf buf st dvd,
      of "\<lambda>p ws. Inr (ws[p := default_func (word_of_nat p) (ws ! p)])"
         "\<lambda>g w. default_func (word_of_nat (g * unat (stride d))) w"]
  by (simp add: set_default_def rows_set_default_def)

theorem set_default_refines_witness:
  "dense_wf ex_mem ex_dense \<and> buffer ex_mem ex_dense = Inr [1, 2, 3, 4] \<and>
   0 < unat (stride ex_dense) \<and> unat (stride ex_dense) dvd length [1, 2, 3, (4::weight)] \<and>
   set_default (\<lambda>i w. w + real (unat i)) ex_dense ex_mem =
     Some (Inr (ex_mem\<lparr>bufs := [0 \<mapsto> [1, 2, 5, 4]]\<rparr>))"
proof -
  have wf: "dense_wf ex_mem ex_dense" and buf: "buffer ex_mem ex_dense = Inr [1, 2, 3, 4]"
    and st: "unat (stride ex_dense) = 2"
    by (simp_all add: dense_wf_def buffer_def stride_def)
  obtain ws' where r: "set_default (\<lambda>i w. w + real (unat i)) ex_dense ex_mem =
      Some (Inr (set_buffer ex_mem ex_dense ws'))"
    and l: "length ws' = 4"
    and rows: "weight_rows 2 ws' = rows_set_default (\<lambda>i w. w + real (unat i)) 2 (weight_rows 2 [1, 2, 3, 4])"
    using set_default_refines [OF wf buf, of "\<lambda>i w. w + real (unat i)"] st by auto
  have "rows_set_default (\<lambda>i w. w + real (unat i)) 2 (weight_rows 2 [1, 2, 3, 4]) = [[1, 2], [5, 4]]"
    by (simp add: rows_set_default_def weight_rows_def upt_conv_Cons)
  then have "ws' = [1, 2, 5, 4]" using concat_weight_rows [of 2 ws' 2] l rows by simp
  then show ?thesis using wf buf st r by (simp add: set_buffer_def)
qed

text \<open>
  C15: \<open>swap_offsets(offset_1, offset_2, params_per_problem)\<close> implements its row-wise
  contract: on a well-formed store with stride shift below 32 whose rows fill blocks of
  \<open>params_per_problem = 2^b\<close> rows, with \<open>offset_1 < offset_2 < params_per_problem\<close>,
  the rows of the result are the rows of the store with weight 0 of each row of type
  \<open>offset_1\<close> exchanged with weight 0 of the row \<open>offset_2 - offset_1\<close> further on.
\<close>

theorem swap_offsets_refines:
  assumes wf: "dense_wf m d" and buf: "buffer m d = Inr ws"
    and ss: "unat (dp_stride_shift d) < 32" and dvd: "unat (stride d) dvd length ws"
    and ppp: "params_per_problem = 2 ^ b" "b < 64"
    and o: "offset_1 < offset_2" "unat offset_2 < 2 ^ b"
    and blocks: "2 ^ b dvd length ws div unat (stride d)"
  shows "map_option (case_sum Inl (\<lambda>m'. store_rows (unat (stride d)) m' d))
           (swap_offsets offset_1 offset_2 params_per_problem d m) =
         Some (map_sum id (rows_swap_offsets offset_1 offset_2 params_per_problem)
           (store_rows (unat (stride d)) m d))"
proof -
  obtain ws' where r: "swap_offsets offset_1 offset_2 params_per_problem d m = Some (Inr (set_buffer m d ws'))"
    and rows: "weight_rows (unat (stride d)) ws' =
      rows_swap_offsets offset_1 offset_2 params_per_problem (weight_rows (unat (stride d)) ws)"
    using swap_offsets_rows [OF wf buf ss dvd ppp o blocks] by blast
  show ?thesis using r rows buf buffer_set_buffer [OF buf, of ws'] by (simp add: store_rows_def)
qed

theorem swap_offsets_refines_witness:
  "dense_wf ex_mem ex_dense \<and> buffer ex_mem ex_dense = Inr [1, 2, 3, 4] \<and>
   unat (dp_stride_shift ex_dense) < 32 \<and> unat (stride ex_dense) dvd length [1, 2, 3, (4::weight)] \<and>
   (2::u64) = 2 ^ 1 \<and> (1::nat) < 64 \<and> (0::u64) < 1 \<and> unat (1::u64) < 2 ^ 1 \<and>
   (2::nat) ^ 1 dvd length [1, 2, 3, (4::weight)] div unat (stride ex_dense) \<and>
   map_option (case_sum Inl (\<lambda>m'. store_rows 2 m' ex_dense)) (swap_offsets 0 1 2 ex_dense ex_mem) =
     Some (Inr [[3, 2], [1, 4]])"
proof -
  have wf: "dense_wf ex_mem ex_dense" and buf: "buffer ex_mem ex_dense = Inr [1, 2, 3, 4]"
    and st: "unat (stride ex_dense) = 2"
    by (simp_all add: dense_wf_def buffer_def stride_def)
  have "rows_swap_offsets 0 1 2 (weight_rows 2 [1, 2, 3, 4]) = [[3, 2], [1, 4]]"
    by (simp add: rows_swap_offsets_def weight_rows_def upt_conv_Cons)
  then show ?thesis
    using swap_offsets_refines [OF wf buf, of 2 1 0 1] wf buf st
    by (simp add: store_rows_def)
qed

text \<open>
  C16: \<open>swap_offsets\<close> is an involution, as the specification requires: under the same
  conditions, swapping twice returns the store to exactly the state it started from.
\<close>

theorem swap_offsets_involution:
  assumes wf: "dense_wf m d" and buf: "buffer m d = Inr ws"
    and ss: "unat (dp_stride_shift d) < 32" and dvd: "unat (stride d) dvd length ws"
    and ppp: "params_per_problem = 2 ^ b" "b < 64"
    and o: "offset_1 < offset_2" "unat offset_2 < 2 ^ b"
    and blocks: "2 ^ b dvd length ws div unat (stride d)"
  shows "\<exists>m'. swap_offsets offset_1 offset_2 params_per_problem d m = Some (Inr m') \<and>
    swap_offsets offset_1 offset_2 params_per_problem d m' = Some (Inr m)"
proof -
  let ?st = "unat (stride d)" and ?n = "length ws div unat (stride d)"
  let ?S = "rows_swap_offsets offset_1 offset_2 params_per_problem"
  have st: "0 < ?st" using stride_unat [OF ss] by simp
  have l: "length ws = ?n * ?st" using dvd by simp
  obtain ws1 where r1: "swap_offsets offset_1 offset_2 params_per_problem d m = Some (Inr (set_buffer m d ws1))"
    and l1: "length ws1 = length ws" and rows1: "weight_rows ?st ws1 = ?S (weight_rows ?st ws)"
    using swap_offsets_rows [OF wf buf ss dvd ppp o blocks] by blast
  let ?m1 = "set_buffer m d ws1"
  have wf1: "dense_wf ?m1 d" by (rule dense_wf_set_buffer [OF wf buf l1])
  have buf1: "buffer ?m1 d = Inr ws1" by (rule buffer_set_buffer [OF buf])
  obtain ws2 where r2: "swap_offsets offset_1 offset_2 params_per_problem d ?m1 = Some (Inr (set_buffer ?m1 d ws2))"
    and l2: "length ws2 = length ws1" and rows2: "weight_rows ?st ws2 = ?S (weight_rows ?st ws1)"
    using swap_offsets_rows [OF wf1 buf1 ss _ ppp o] dvd blocks l1 by auto
  have lenR: "length (weight_rows ?st ws) = ?n" by (rule length_weight_rows [OF st l])
  have "?S (?S (weight_rows ?st ws)) = weight_rows ?st ws"
    by (rule rows_swap_offsets_involutive [OF ppp o])
      (use blocks lenR weight_rows_nonempty [OF _ l st] in simp_all)
  then have "weight_rows ?st ws2 = weight_rows ?st ws" using rows1 rows2 by simp
  then have "ws2 = ws"
    using concat_weight_rows [OF st l] concat_weight_rows [OF st, of ws2 ?n] l l1 l2 by metis
  then have "set_buffer ?m1 d ws2 = m"
    using set_buffer_set_buffer [OF buf] set_buffer_self [OF buf] by simp
  then show ?thesis using r1 r2 by auto
qed

theorem swap_offsets_involution_witness:
  "dense_wf ex_mem ex_dense \<and> buffer ex_mem ex_dense = Inr [1, 2, 3, 4] \<and>
   unat (dp_stride_shift ex_dense) < 32 \<and> unat (stride ex_dense) dvd length [1, 2, 3, (4::weight)] \<and>
   (2::u64) = 2 ^ 1 \<and> (1::nat) < 64 \<and> (0::u64) < 1 \<and> unat (1::u64) < 2 ^ 1 \<and>
   (2::nat) ^ 1 dvd length [1, 2, 3, (4::weight)] div unat (stride ex_dense) \<and>
   (\<exists>m'. swap_offsets 0 1 2 ex_dense ex_mem = Some (Inr m') \<and>
      swap_offsets 0 1 2 ex_dense m' = Some (Inr ex_mem))"
proof -
  have wf: "dense_wf ex_mem ex_dense" and buf: "buffer ex_mem ex_dense = Inr [1, 2, 3, 4]"
    and st: "unat (stride ex_dense) = 2"
    by (simp_all add: dense_wf_def buffer_def stride_def)
  show ?thesis using swap_offsets_involution [OF wf buf, of 2 1 0 1] wf buf st by simp
qed

end
