(* ===== verification/Protocol.thy ===== *)
theory Protocol
  imports Prelude
begin

text \<open>
  The reduction composition protocol and the collaborators the reductions call. An
  \<open>example\<close> carries what the three reductions read and write: the namespace indices
  and per-namespace feature lists, the contextual-bandit label, the prediction (the
  union \<open>polyprediction\<close>, here a record of its scalar, multiclass and action-score
  views), the tag and the large-action-space back pointer to a shared example. A base
  learner is a function from the examples it is given to the examples as it leaves
  them and the exception it raised, if any: a throw keeps the mutations made before it.
  Everything here that is not under src/ (the CB label helpers of cb_algs.h, the
  action-score order of action_score.h, the STL heap operations, \<open>clamp\<close> and
  \<open>enforce_minimum_probability\<close> of explore.h, the namespace splicing of
  example.cc, the model-file stream of io_buf.h) is modelled from the spec.
\<close>

unbundle bit_operations_syntax

subsection \<open>Labels, predictions, examples\<close>

record cb_class =
  cb_cost :: real
  cb_action :: u32
  cb_probability :: real

record action_score =
  as_action :: u32
  as_score :: real

record polyprediction =
  pp_scalars :: "fval list"
  pp_multiclass :: u32
  pp_a_s :: "action_score list"

type_synonym feature = "real \<times> u64"

record example =
  ex_indices :: "u8 list"
  ex_feature_space :: "u8 \<Rightarrow> feature list"
  ex_costs :: "cb_class list"
  ex_cs_costs :: "(u32 \<times> real) list"
  ex_pred :: polyprediction
  ex_tag :: string
  ex_shared_ref :: bool

text \<open>
  A base learner (\<open>base.learn\<close>/\<open>base.predict\<close>, selected by the flag): the examples
  it leaves and \<open>Some e\<close> when it raised \<open>e\<close>.
\<close>

type_synonym multi_base = "bool \<Rightarrow> example list \<Rightarrow> example list \<times> error option"
type_synonym single_base = "bool \<Rightarrow> example \<Rightarrow> example \<times> error option"

subsection \<open>Contextual-bandit label helpers (cb_algs.h)\<close>

definition flt_max :: real where
  "flt_max = 340282346638528859811704183484516925440"

definition has_observed_cost :: "cb_class \<Rightarrow> bool" where
  "has_observed_cost c \<longleftrightarrow> cb_cost c \<noteq> flt_max \<and> 0 < cb_probability c"

text \<open>\<open>get_observed_cost_cb\<close>: the first cost entry with an observed cost.\<close>

definition get_observed_cost_cb :: "cb_class list \<Rightarrow> bool \<times> cb_class" where
  "get_observed_cost_cb costs =
     (case find has_observed_cost costs of
        None \<Rightarrow> (False, \<lparr>cb_cost = 0, cb_action = 0, cb_probability = 0\<rparr>)
      | Some c \<Rightarrow> (True, c))"

text \<open>\<open>get_cost_estimate\<close>: the inverse-propensity estimate of an action's cost.\<close>

definition get_cost_estimate :: "cb_class \<Rightarrow> u32 \<Rightarrow> real" where
  "get_cost_estimate obs action =
     (if action = cb_action obs then cb_cost obs / cb_probability obs else 0)"

text \<open>\<open>VW::math::clamp(num, lower, upper)\<close>.\<close>

definition clamp :: "real \<Rightarrow> real \<Rightarrow> real \<Rightarrow> real" where
  "clamp num lower upper = max lower (min num upper)"

subsection \<open>Action scores: order, heap, sort\<close>

text \<open>
  The order of \<open>action_score\<close> (action_score.h): by score, ties broken by action, so
  that distinct actions are totally ordered. \<open>std::greater\<close> is its reverse.
\<close>

definition as_key :: "action_score \<Rightarrow> real \<times> u32" where
  "as_key a = (as_score a, as_action a)"

text \<open>
  The STL heap of \<open>std::make_heap\<close>/\<open>pop_heap\<close>/\<open>push_heap\<close> with
  \<open>std::greater\<close> is a min-priority queue: the model keeps it as the list ordered by
  \<open>as_key\<close>, whose head is the heap top \<open>preds[0]\<close>.
\<close>

definition make_heap :: "action_score list \<Rightarrow> action_score list" where
  "make_heap xs = sort_key as_key xs"

definition push_heap :: "action_score \<Rightarrow> action_score list \<Rightarrow> action_score list" where
  "push_heap x h = insort_key as_key x h"

text \<open>\<open>std::sort(begin, end, std::greater<action_score>())\<close>.\<close>

definition sort_greater :: "action_score list \<Rightarrow> action_score list" where
  "sort_greater xs = rev (sort_key as_key xs)"

subsection \<open>Exploration: the minimum-probability floor (explore.h)\<close>

text \<open>
  \<open>enforce_minimum_probability(minimum_uniform, update_zero_elements, ...)\<close>: above
  0.999 the distribution becomes uniform over its support; otherwise every entry that is
  eligible and at most \<open>minimum_uniform / n\<close> is raised to that floor, and when some mass
  was raised the entries above the floor are scaled so that the total stays the same.
\<close>

definition enforce_minimum_probability :: "real \<Rightarrow> bool \<Rightarrow> real list \<Rightarrow> real list" where
  "enforce_minimum_probability minimum_uniform update_zero_elements pdf =
     (if 0.999 < minimum_uniform then
        (let support_size = (if update_zero_elements then length pdf
                             else length (filter (\<lambda>p. p \<noteq> 0) pdf))
         in map (\<lambda>p. if update_zero_elements \<or> p \<noteq> 0 then 1 / support_size else p) pdf)
      else
        (let m = minimum_uniform / length pdf;
             touched = (\<lambda>p. (p \<noteq> 0 \<or> update_zero_elements) \<and> p \<le> m);
             touched_mass = sum_list (map (\<lambda>p. if touched p then m else 0) pdf);
             untouched_mass = sum_list (map (\<lambda>p. if touched p then 0 else p) pdf);
             pdf1 = map (\<lambda>p. if touched p then m else p) pdf
         in if 0 < touched_mass
            then map (\<lambda>p. if m < p then p * ((1 - touched_mass) / untouched_mass) else p) pdf1
            else pdf1))"

definition with_scores :: "action_score list \<Rightarrow> real list \<Rightarrow> action_score list" where
  "with_scores xs ss = map2 (\<lambda>a s. a\<lparr>as_score := s\<rparr>) xs ss"

subsection \<open>Example headers and namespace splicing (learner.cc, example.cc)\<close>

text \<open>
  The label types a shared-context header is recognised for. \<open>ec_is_example_header\<close>:
  a CB header has exactly one cost, of probability -1; a cost-sensitive header has exactly
  one cost, of class 0 and value \<open>-FLT_MAX\<close>; other label types have no header.
  The CS label is kept as its (class_index, x) pairs.
\<close>

datatype label_type = LT_cb | LT_cs | LT_other

definition ec_is_example_header :: "example \<Rightarrow> label_type \<Rightarrow> bool" where
  "ec_is_example_header ec lt =
     (case lt of
        LT_cb \<Rightarrow> (case ex_costs ec of [c] \<Rightarrow> cb_probability c = -1 | _ \<Rightarrow> False)
      | LT_cs \<Rightarrow> (case ex_cs_costs ec of [(k, x)] \<Rightarrow> k = 0 \<and> x = - flt_max | _ \<Rightarrow> False)
      | LT_other \<Rightarrow> False)"

definition constant_namespace :: u8 where
  "constant_namespace = 128"

text \<open>
  \<open>append_example_namespace\<close>: the namespace is listed if it is new, and the features
  are concatenated; \<open>truncate_example_namespace\<close> cuts them off again and unlists the
  namespace when it is the last one listed and holds nothing else. The splice over a whole
  source example skips the constant namespace and truncates in reverse order.
\<close>

definition append_example_namespace :: "example \<Rightarrow> u8 \<Rightarrow> feature list \<Rightarrow> example" where
  "append_example_namespace ec ns fs =
     ec\<lparr>ex_indices := (if ns \<in> set (ex_indices ec) then ex_indices ec else ex_indices ec @ [ns]),
       ex_feature_space := (ex_feature_space ec)(ns := ex_feature_space ec ns @ fs)\<rparr>"

definition truncate_example_namespace :: "example \<Rightarrow> u8 \<Rightarrow> feature list \<Rightarrow> example" where
  "truncate_example_namespace ec ns fs =
     (let del = ex_feature_space ec ns
      in ec\<lparr>ex_indices := (if ex_indices ec \<noteq> [] \<and> last (ex_indices ec) = ns \<and> length del = length fs
                           then butlast (ex_indices ec) else ex_indices ec),
            ex_feature_space := (ex_feature_space ec)(ns := take (length del - length fs) del)\<rparr>)"

definition append_example_namespaces_from_example :: "example \<Rightarrow> example \<Rightarrow> example" where
  "append_example_namespaces_from_example target source =
     fold (\<lambda>idx t. if idx = constant_namespace then t
                   else append_example_namespace t idx (ex_feature_space source idx))
       (ex_indices source) target"

definition truncate_example_namespaces_from_example :: "example \<Rightarrow> example \<Rightarrow> example" where
  "truncate_example_namespaces_from_example target source =
     fold (\<lambda>idx t. if idx = constant_namespace then t
                   else truncate_example_namespace t idx (ex_feature_space source idx))
       (rev (ex_indices source)) target"

text \<open>An example whose listed namespaces are exactly its nonempty ones, each listed once.\<close>

definition ex_ns_wf :: "example \<Rightarrow> bool" where
  "ex_ns_wf ec \<longleftrightarrow> distinct (ex_indices ec) \<and>
     (\<forall>ns. ns \<in> set (ex_indices ec) \<longleftrightarrow> ex_feature_space ec ns \<noteq> [])"

subsection \<open>The model file (io_buf.h)\<close>

text \<open>
  A model file is a sequence of fixed-width fields; the model keeps each field with the C
  type it was written as. A write appends at the end, a read consumes from the front.
  In text mode a write emits the human-readable message instead of the bytes (its
  wording is not modelled, \<open>MF_text\<close>); reads are always binary. A read of a field
  written with another width is outside what the model follows (\<open>Malformed_input\<close>).
  \<open>io_num_files = 0\<close> is the absence of a backing file.
\<close>

datatype mf_field = MF_float real | MF_double real | MF_u64 u64 | MF_u32 u32 | MF_bool bool | MF_text

record io_buf =
  io_num_files :: nat
  io_data :: "mf_field list"

fun mf_float :: "mf_field \<Rightarrow> real option" where
  "mf_float (MF_float x) = Some x"
| "mf_float _ = None"

fun mf_double :: "mf_field \<Rightarrow> real option" where
  "mf_double (MF_double x) = Some x"
| "mf_double _ = None"

fun mf_u64 :: "mf_field \<Rightarrow> u64 option" where
  "mf_u64 (MF_u64 x) = Some x"
| "mf_u64 _ = None"

fun mf_u32 :: "mf_field \<Rightarrow> u32 option" where
  "mf_u32 (MF_u32 x) = Some x"
| "mf_u32 _ = None"

fun mf_bool :: "mf_field \<Rightarrow> bool option" where
  "mf_bool (MF_bool x) = Some x"
| "mf_bool _ = None"

text \<open>
  \<open>bin_text_read_write_fixed\<close>: a short read leaves the value as it was;
  \<open>bin_text_read_write_fixed_validated\<close>: a short read throws.
\<close>

definition bin_text_read_write_fixed ::
  "(mf_field \<Rightarrow> 'a option) \<Rightarrow> ('a \<Rightarrow> mf_field) \<Rightarrow> io_buf \<Rightarrow> bool \<Rightarrow> bool \<Rightarrow> 'a
   \<Rightarrow> error + ('a \<times> io_buf)" where
  "bin_text_read_write_fixed proj emb io read text v =
     (if read then
        (case io_data io of
           [] \<Rightarrow> Inr (v, io)
         | f # rest \<Rightarrow> (case proj f of
                          None \<Rightarrow> Inl (Malformed_input ''field width'')
                        | Some v' \<Rightarrow> Inr (v', io\<lparr>io_data := rest\<rparr>)))
      else Inr (v, io\<lparr>io_data := io_data io @ [if text then MF_text else emb v]\<rparr>))"

definition bin_text_read_write_fixed_validated ::
  "(mf_field \<Rightarrow> 'a option) \<Rightarrow> ('a \<Rightarrow> mf_field) \<Rightarrow> io_buf \<Rightarrow> bool \<Rightarrow> bool \<Rightarrow> 'a
   \<Rightarrow> error + ('a \<times> io_buf)" where
  "bin_text_read_write_fixed_validated proj emb io read text v =
     (if read then
        (case io_data io of
           [] \<Rightarrow> Inl Unexpected_eof
         | f # rest \<Rightarrow> (case proj f of
                          None \<Rightarrow> Inl (Malformed_input ''field width'')
                        | Some v' \<Rightarrow> Inr (v', io\<lparr>io_data := rest\<rparr>)))
      else Inr (v, io\<lparr>io_data := io_data io @ [if text then MF_text else emb v]\<rparr>))"

text \<open>
  A validated block of \<open>length xs\<close> values of one type (one call over a contiguous
  array): it reads exactly that many fields or throws; a text write is one message.
\<close>

definition bin_text_read_write_array_validated ::
  "(mf_field \<Rightarrow> 'a option) \<Rightarrow> ('a \<Rightarrow> mf_field) \<Rightarrow> io_buf \<Rightarrow> bool \<Rightarrow> bool \<Rightarrow> 'a list
   \<Rightarrow> error + ('a list \<times> io_buf)" where
  "bin_text_read_write_array_validated proj emb io read text xs =
     (if read then
        (if length (io_data io) < length xs then Inl Unexpected_eof
         else (case those (map proj (take (length xs) (io_data io))) of
                 None \<Rightarrow> Inl (Malformed_input ''field width'')
               | Some ys \<Rightarrow> Inr (ys, io\<lparr>io_data := drop (length xs) (io_data io)\<rparr>)))
      else Inr (xs, io\<lparr>io_data := io_data io @ (if text then [MF_text] else map emb xs)\<rparr>))"

subsection \<open>Lemmas: order, heap, sort, floor\<close>

lemma as_key_le_score: "as_key a \<le> as_key b \<Longrightarrow> as_score a \<le> as_score b"
  by (auto simp: as_key_def less_eq_prod_def)

lemma push_heap_props:
  "sorted (map as_key h) \<Longrightarrow> sorted (map as_key (push_heap x h)) \<and>
   mset (push_heap x h) = add_mset x (mset h) \<and> length (push_heap x h) = Suc (length h)"
  by (simp add: push_heap_def sorted_insort_key length_insort)

lemma make_heap_props:
  "mset (make_heap xs) = mset xs \<and> sorted (map as_key (make_heap xs))"
  by (simp add: make_heap_def)

lemma sort_greater_props:
  "mset (sort_greater xs) = mset xs \<and> sorted (rev (map as_key (sort_greater xs)))"
  by (simp add: sort_greater_def rev_map)

lemma with_scores_maps:
  "length xs = length ss \<Longrightarrow>
   map as_score (with_scores xs ss) = ss \<and> map as_action (with_scores xs ss) = map as_action xs"
  by (induction xs ss rule: list_induct2) (simp_all add: with_scores_def)

text \<open>
  With every eligible entry updated, the floor keeps a probability distribution a
  probability distribution: the mass raised to the floor is taken proportionally from
  the entries above it, and the floor never exceeds \<open>0.999 / n\<close> outside the uniform
  case.
\<close>

lemma enforce_minimum_probability_distribution:
  assumes eps: "0 \<le> eps" and ne: "pdf \<noteq> []"
    and nn: "\<forall>p\<in>set pdf. 0 \<le> p" and one: "sum_list pdf = 1"
  shows "sum_list (enforce_minimum_probability eps True pdf) = 1 \<and>
    (\<forall>p\<in>set (enforce_minimum_probability eps True pdf). 0 \<le> p) \<and>
    length (enforce_minimum_probability eps True pdf) = length pdf"
proof (cases "0.999 < eps")
  case True
  have "map (\<lambda>p. 1 / real (length pdf)) pdf = replicate (length pdf) (1 / real (length pdf))"
    by (simp add: map_replicate_const)
  then show ?thesis using True ne by (simp add: enforce_minimum_probability_def sum_list_replicate)
next
  case False
  let ?m = "eps / real (length pdf)"
  let ?tm = "sum_list (map (\<lambda>p. if p \<le> ?m then ?m else 0) pdf)"
  let ?um = "sum_list (map (\<lambda>p. if p \<le> ?m then 0 else p) pdf)"
  let ?st = "sum_list (map (\<lambda>p. if p \<le> ?m then p else 0) pdf)"
  have m0: "0 \<le> ?m" using eps by simp
  have split1: "sum_list pdf = ?st + ?um"
    using sum_list_map_if_split [of "\<lambda>p. p \<le> ?m" "\<lambda>p. p" "\<lambda>p. p" pdf] by simp
  have st_tm: "?st \<le> ?tm" by (rule sum_list_mono) simp
  have st0: "0 \<le> ?st" using nn by (intro sum_list_nonneg) auto
  have tm_le: "?tm \<le> real (length pdf) * ?m"
    by (rule sum_list_map_le_const) (simp add: m0)
  have tm_eps: "?tm \<le> eps" using tm_le ne by simp
  have e: "enforce_minimum_probability eps True pdf =
      (if 0 < ?tm then map (\<lambda>p. if ?m < p then p * ((1 - ?tm) / ?um) else p)
                        (map (\<lambda>p. if p \<le> ?m then ?m else p) pdf)
       else map (\<lambda>p. if p \<le> ?m then ?m else p) pdf)"
    using False by (simp add: enforce_minimum_probability_def Let_def)
  show ?thesis
  proof (cases "0 < ?tm")
    case True
    have eps999: "eps \<le> 999 / 1000" using False by simp
    have um_pos: "0 < ?um" using split1 one st_tm tm_eps eps999 by linarith
    have t1: "0 \<le> 1 - ?tm" using tm_eps eps999 by linarith
    have comp: "map (\<lambda>p. if ?m < p then p * ((1 - ?tm) / ?um) else p) (map (\<lambda>p. if p \<le> ?m then ?m else p) pdf)
        = map (\<lambda>p. if p \<le> ?m then ?m else p * ((1 - ?tm) / ?um)) pdf"
      by auto
    have "sum_list (map (\<lambda>p. if p \<le> ?m then ?m else p * ((1 - ?tm) / ?um)) pdf) =
        ?tm + sum_list (map (\<lambda>p. if p \<le> ?m then 0 else p * ((1 - ?tm) / ?um)) pdf)"
      using sum_list_map_if_split [of "\<lambda>p. p \<le> ?m" "\<lambda>_. ?m" "\<lambda>p. p * ((1 - ?tm) / ?um)" pdf]
      by simp
    also have "sum_list (map (\<lambda>p. if p \<le> ?m then 0 else p * ((1 - ?tm) / ?um)) pdf) =
        ?um * ((1 - ?tm) / ?um)"
      by (rule sum_list_map_if_scale)
    also have "?tm + ?um * ((1 - ?tm) / ?um) = 1" using um_pos by simp
    finally have "sum_list (map (\<lambda>p. if p \<le> ?m then ?m else p * ((1 - ?tm) / ?um)) pdf) = 1" .
    moreover have "\<forall>p\<in>set (map (\<lambda>p. if p \<le> ?m then ?m else p * ((1 - ?tm) / ?um)) pdf). 0 \<le> p"
      using nn m0 um_pos t1 by (auto intro!: divide_nonneg_pos mult_nonneg_nonneg)
    moreover note tpos = True
    have "enforce_minimum_probability eps True pdf =
        map (\<lambda>p. if p \<le> ?m then ?m else p * ((1 - ?tm) / ?um)) pdf"
      by (simp only: e tpos comp if_True)
    ultimately show ?thesis by simp
  next
    case False
    have "0 \<le> ?tm" using m0 by (intro sum_list_nonneg) auto
    then have tm0: "?tm = 0" using False by simp
    have "sum_list (map (\<lambda>p. if p \<le> ?m then ?m else p) pdf) = ?tm + ?um"
      using sum_list_map_if_split [of "\<lambda>p. p \<le> ?m" "\<lambda>_. ?m" "\<lambda>p. p" pdf] by simp
    also have "\<dots> = 1" using tm0 st_tm st0 split1 one by simp
    finally show ?thesis using False e nn m0 by auto
  qed
qed

subsection \<open>Lemmas: the model file\<close>

lemma rw_fixed_write [simp]:
  "bin_text_read_write_fixed proj emb io False False v = Inr (v, io\<lparr>io_data := io_data io @ [emb v]\<rparr>)"
  "bin_text_read_write_fixed_validated proj emb io False False v =
     Inr (v, io\<lparr>io_data := io_data io @ [emb v]\<rparr>)"
  by (simp_all add: bin_text_read_write_fixed_def bin_text_read_write_fixed_validated_def)

lemma rw_fixed_read [simp]:
  "proj (emb x) = Some x \<Longrightarrow>
   bin_text_read_write_fixed proj emb (io\<lparr>io_data := emb x # rest\<rparr>) True text v =
     Inr (x, io\<lparr>io_data := rest\<rparr>)"
  "proj (emb x) = Some x \<Longrightarrow>
   bin_text_read_write_fixed_validated proj emb (io\<lparr>io_data := emb x # rest\<rparr>) True text v =
     Inr (x, io\<lparr>io_data := rest\<rparr>)"
  by (simp_all add: bin_text_read_write_fixed_def bin_text_read_write_fixed_validated_def)

lemma those_map_inj: "(\<And>x. proj (emb x) = Some x) \<Longrightarrow> those (map (proj \<circ> emb) xs) = Some xs"
  by (induction xs) auto

lemma rw_array_write [simp]:
  "bin_text_read_write_array_validated proj emb io False False xs =
     Inr (xs, io\<lparr>io_data := io_data io @ map emb xs\<rparr>)"
  by (simp add: bin_text_read_write_array_validated_def)

lemma rw_array_read:
  "(\<And>x. proj (emb x) = Some x) \<Longrightarrow> length ys = length xs \<Longrightarrow>
   bin_text_read_write_array_validated proj emb (io\<lparr>io_data := map emb xs @ rest\<rparr>) True text ys =
     Inr (xs, io\<lparr>io_data := rest\<rparr>)"
  by (simp add: bin_text_read_write_array_validated_def those_map_inj)

subsection \<open>Lemmas: namespace splicing\<close>

text \<open>
  Splicing a source example into a target and truncating it again gives the target
  back, when the source lists each namespace once and the target lists exactly its
  nonempty namespaces.
\<close>

lemma splice_step:
  assumes inn: "x \<in> set (ex_indices t) \<Longrightarrow> ex_feature_space t x \<noteq> []"
    and out: "x \<notin> set (ex_indices t) \<Longrightarrow> ex_feature_space t x = []"
  shows "truncate_example_namespace (append_example_namespace t x fs) x fs = t"
proof (cases "x \<in> set (ex_indices t)")
  case True
  then show ?thesis using inn [OF True]
    by (simp add: append_example_namespace_def truncate_example_namespace_def)
next
  case False
  then show ?thesis using out [OF False]
    by (simp add: append_example_namespace_def truncate_example_namespace_def fun_upd_idem)
qed

lemma splice_append_other:
  "x \<notin> set xs \<Longrightarrow>
   ex_feature_space (fold (\<lambda>idx t. if idx = constant_namespace then t
                       else append_example_namespace t idx (f idx)) xs t) x = ex_feature_space t x \<and>
   (x \<in> set (ex_indices (fold (\<lambda>idx t. if idx = constant_namespace then t
                       else append_example_namespace t idx (f idx)) xs t)) \<longleftrightarrow> x \<in> set (ex_indices t))"
  by (induction xs arbitrary: t) (auto simp: append_example_namespace_def)

lemma splice_roundtrip_gen:
  assumes "distinct xs"
    and "\<And>x. x \<in> set xs \<Longrightarrow> x \<in> set (ex_indices t) \<Longrightarrow> ex_feature_space t x \<noteq> []"
    and "\<And>x. x \<in> set xs \<Longrightarrow> x \<notin> set (ex_indices t) \<Longrightarrow> ex_feature_space t x = []"
  shows "fold (\<lambda>idx t. if idx = constant_namespace then t
                else truncate_example_namespace t idx (f idx)) (rev xs)
           (fold (\<lambda>idx t. if idx = constant_namespace then t
                   else append_example_namespace t idx (f idx)) xs t) = t"
  using assms
proof (induction xs rule: rev_induct)
  case Nil
  then show ?case by simp
next
  case (snoc x xs)
  let ?A = "fold (\<lambda>idx t. if idx = constant_namespace then t
                   else append_example_namespace t idx (f idx)) xs t"
  have x: "x \<notin> set xs" using snoc.prems(1) by simp
  note o = splice_append_other [OF x, of f t]
  have step: "truncate_example_namespace (append_example_namespace ?A x (f x)) x (f x) = ?A"
    using splice_step [of x ?A "f x"] o snoc.prems(2,3) [of x] by auto
  have "fold (\<lambda>idx t. if idx = constant_namespace then t
                else truncate_example_namespace t idx (f idx)) (rev xs) ?A = t"
    using snoc.IH snoc.prems by simp
  then show ?case using step by (cases "x = constant_namespace") simp_all
qed

lemma splice_roundtrip:
  assumes "distinct (ex_indices src)" and "ex_ns_wf t"
  shows "truncate_example_namespaces_from_example (append_example_namespaces_from_example t src) src = t"
  using splice_roundtrip_gen [OF assms(1), of t "ex_feature_space src"] assms(2)
  by (simp add: truncate_example_namespaces_from_example_def append_example_namespaces_from_example_def
      ex_ns_wf_def)

lemma append_example_namespace_fields [simp]:
  "append_example_namespace (t\<lparr>ex_pred := p, ex_tag := g\<rparr>) ns fs =
     (append_example_namespace t ns fs)\<lparr>ex_pred := p, ex_tag := g\<rparr>"
  "append_example_namespace (t\<lparr>ex_shared_ref := r\<rparr>) ns fs =
     (append_example_namespace t ns fs)\<lparr>ex_shared_ref := r\<rparr>"
  by (simp_all add: append_example_namespace_def)

lemma truncate_example_namespace_fields [simp]:
  "truncate_example_namespace (t\<lparr>ex_pred := p, ex_tag := g\<rparr>) ns fs =
     (truncate_example_namespace t ns fs)\<lparr>ex_pred := p, ex_tag := g\<rparr>"
  "truncate_example_namespace (t\<lparr>ex_shared_ref := r\<rparr>) ns fs =
     (truncate_example_namespace t ns fs)\<lparr>ex_shared_ref := r\<rparr>"
  by (simp_all add: truncate_example_namespace_def Let_def)

lemma fold_append_pred_tag:
  "fold (\<lambda>idx t. if idx = constant_namespace then t else append_example_namespace t idx (f idx)) xs (t\<lparr>ex_pred := p, ex_tag := g\<rparr>) = (fold (\<lambda>idx t. if idx = constant_namespace then t else append_example_namespace t idx (f idx)) xs t)\<lparr>ex_pred := p, ex_tag := g\<rparr>"
  by (induction xs arbitrary: t) simp_all

lemma fold_append_shared_ref:
  "fold (\<lambda>idx t. if idx = constant_namespace then t else append_example_namespace t idx (f idx)) xs (t\<lparr>ex_shared_ref := r\<rparr>) = (fold (\<lambda>idx t. if idx = constant_namespace then t else append_example_namespace t idx (f idx)) xs t)\<lparr>ex_shared_ref := r\<rparr>"
  by (induction xs arbitrary: t) simp_all

lemma fold_append_sel:
  "ex_pred (fold (\<lambda>idx t. if idx = constant_namespace then t else append_example_namespace t idx (f idx)) xs t) = ex_pred t \<and> ex_tag (fold (\<lambda>idx t. if idx = constant_namespace then t else append_example_namespace t idx (f idx)) xs t) = ex_tag t"
  by (induction xs arbitrary: t) (simp_all add: append_example_namespace_def)

lemma fold_truncate_pred_tag:
  "fold (\<lambda>idx t. if idx = constant_namespace then t else truncate_example_namespace t idx (f idx)) xs (t\<lparr>ex_pred := p, ex_tag := g\<rparr>) = (fold (\<lambda>idx t. if idx = constant_namespace then t else truncate_example_namespace t idx (f idx)) xs t)\<lparr>ex_pred := p, ex_tag := g\<rparr>"
  by (induction xs arbitrary: t) simp_all

lemma fold_truncate_shared_ref:
  "fold (\<lambda>idx t. if idx = constant_namespace then t else truncate_example_namespace t idx (f idx)) xs (t\<lparr>ex_shared_ref := r\<rparr>) = (fold (\<lambda>idx t. if idx = constant_namespace then t else truncate_example_namespace t idx (f idx)) xs t)\<lparr>ex_shared_ref := r\<rparr>"
  by (induction xs arbitrary: t) simp_all

lemma fold_truncate_sel:
  "ex_pred (fold (\<lambda>idx t. if idx = constant_namespace then t else truncate_example_namespace t idx (f idx)) xs t) = ex_pred t \<and> ex_tag (fold (\<lambda>idx t. if idx = constant_namespace then t else truncate_example_namespace t idx (f idx)) xs t) = ex_tag t"
  by (induction xs arbitrary: t) (simp_all add: truncate_example_namespace_def Let_def)

lemma splice_fields [simp]:
  "append_example_namespaces_from_example (t\<lparr>ex_pred := p, ex_tag := g\<rparr>) s =
     (append_example_namespaces_from_example t s)\<lparr>ex_pred := p, ex_tag := g\<rparr>"
  "append_example_namespaces_from_example (t\<lparr>ex_shared_ref := r\<rparr>) s =
     (append_example_namespaces_from_example t s)\<lparr>ex_shared_ref := r\<rparr>"
  "truncate_example_namespaces_from_example (t\<lparr>ex_pred := p, ex_tag := g\<rparr>) s =
     (truncate_example_namespaces_from_example t s)\<lparr>ex_pred := p, ex_tag := g\<rparr>"
  "truncate_example_namespaces_from_example (t\<lparr>ex_shared_ref := r\<rparr>) s =
     (truncate_example_namespaces_from_example t s)\<lparr>ex_shared_ref := r\<rparr>"
  "ex_pred (append_example_namespaces_from_example t s) = ex_pred t"
  "ex_tag (append_example_namespaces_from_example t s) = ex_tag t"
  "ex_pred (truncate_example_namespaces_from_example t s) = ex_pred t"
  "ex_tag (truncate_example_namespaces_from_example t s) = ex_tag t"
  by (simp_all add: append_example_namespaces_from_example_def truncate_example_namespaces_from_example_def
      fold_append_pred_tag fold_append_shared_ref fold_append_sel fold_truncate_pred_tag
      fold_truncate_shared_ref fold_truncate_sel)

lemma truncate_source_pred_tag [simp]:
  "truncate_example_namespaces_from_example t (s\<lparr>ex_pred := p, ex_tag := g\<rparr>) =
     truncate_example_namespaces_from_example t s"
  unfolding truncate_example_namespaces_from_example_def by (simp cong: if_cong)

end
