(* ===== verification/Synthcover.thy ===== *)
theory Synthcover
  imports Protocol
begin

text \<open>
  Synthetic-cover exploration, \<open>cb_explore_adf_synthcover\<close> of
  src/vowpalwabbit/core/src/reductions/cb/cb_explore_adf_synthcover.cc. The state is
  the class's fields; \<open>synth_predict_or_learn_impl\<close> is \<open>predict_or_learn_impl\<close>:
  the base call, the running cost bounds, the two short-group branches and the
  exploration proper (\<open>synth_explore\<close>), whose two nested loops are partial functions
  over the 32-bit loop counter of the source, since a counter that wraps can keep them
  running. The heap of scored actions is the min-priority queue of Protocol.
\<close>

unbundle bit_operations_syntax

record synthcover =
  sc_epsilon :: real
  sc_psi :: real
  sc_synthcoversize :: u64
  sc_model_file_version :: "nat \<times> nat \<times> nat"
  sc_action_probs :: "action_score list"
  sc_min_cost :: real
  sc_max_cost :: real

definition synthcover_new :: "real \<Rightarrow> real \<Rightarrow> u64 \<Rightarrow> nat \<times> nat \<times> nat \<Rightarrow> synthcover" where
  "synthcover_new epsilon psi synthcoversize model_file_version =
     \<lparr>sc_epsilon = epsilon, sc_psi = psi, sc_synthcoversize = synthcoversize,
      sc_model_file_version = model_file_version, sc_action_probs = [],
      sc_min_cost = 0, sc_max_cost = 0\<rparr>"

subsection \<open>The cover loops\<close>

text \<open>
  The inner loop: while the popped minimum still scores at most the new heap top and
  the budget lasts, one more synthetic policy votes for it: its probability grows by
  \<open>1 / synthcoversize\<close> and its score by \<open>psi / synthcoversize\<close>. The counter is
  the \<open>uint32_t i\<close> of the source, compared with the \<open>size_t\<close> budget.
\<close>

partial_function (option) synth_inner ::
  "u64 \<Rightarrow> real \<Rightarrow> action_score \<Rightarrow> u32 \<Rightarrow> action_score \<Rightarrow> action_score list
   \<Rightarrow> (error + (u32 \<times> action_score \<times> action_score list)) option" where
  "synth_inner synthcoversize psi secondminpred i minpred action_probs =
     (if as_score minpred \<le> as_score secondminpred \<and> ucast i < synthcoversize then
        (case arr_get action_probs (unat (as_action minpred)) of
           Inl e \<Rightarrow> Some (Inl e)
         | Inr a \<Rightarrow>
             synth_inner synthcoversize psi secondminpred (i + 1)
               (minpred\<lparr>as_score := as_score minpred + 1 / real (unat synthcoversize) * psi\<rparr>)
               (action_probs[unat (as_action minpred) :=
                  a\<lparr>as_score := as_score a + 1 / real (unat synthcoversize)\<rparr>]))
      else Some (Inr (i, minpred, action_probs)))"

text \<open>
  The outer loop: pop the minimum, read the new top, run the inner loop, push the
  minimum back. Popping an empty heap or reading the top of an empty one is undefined
  in the source.
\<close>

partial_function (option) synth_outer ::
  "u64 \<Rightarrow> real \<Rightarrow> u32 \<Rightarrow> action_score list \<Rightarrow> action_score list
   \<Rightarrow> (error + (action_score list \<times> action_score list)) option" where
  "synth_outer synthcoversize psi i preds action_probs =
     (if ucast i < synthcoversize then
        (case preds of
           [] \<Rightarrow> Some (Inl Out_of_range)
         | minpred # rest \<Rightarrow>
             (case rest of
                [] \<Rightarrow> Some (Inl Out_of_range)
              | secondminpred # _ \<Rightarrow>
                  Option.bind (synth_inner synthcoversize psi secondminpred i minpred action_probs)
                    (\<lambda>r. case r of
                           Inl e \<Rightarrow> Some (Inl e)
                         | Inr (i', minpred', action_probs') \<Rightarrow>
                             synth_outer synthcoversize psi i' (push_heap minpred' rest)
                               action_probs')))
      else Some (Inr (preds, action_probs)))"

subsection \<open>Exploration and the handler\<close>

text \<open>
  Lines 104 to 131 of the source, for \<open>num_actions \<ge> 2\<close>: clamp the first
  \<open>num_actions\<close> scores into the observed cost range, heapify, start every action at
  probability 0, run the cover loops, enforce the \<open>epsilon\<close> floor, sort by decreasing
  probability, and write the sorted list over the first \<open>num_actions\<close> predictions.
\<close>

definition synth_explore ::
  "synthcover \<Rightarrow> nat \<Rightarrow> action_score list \<Rightarrow> (error + (synthcover \<times> action_score list)) option" where
  "synth_explore st num_actions preds =
     (if length preds < num_actions then Some (Inl Out_of_range)
      else
        (let preds1 = map (\<lambda>a. a\<lparr>as_score := clamp (as_score a) (sc_min_cost st) (sc_max_cost st)\<rparr>)
                        (take num_actions preds) @ drop num_actions preds;
             probs0 = map (\<lambda>i. \<lparr>as_action = of_nat i, as_score = 0\<rparr>) [0..<num_actions]
         in Option.bind (synth_outer (sc_synthcoversize st) (sc_psi st) 0 (make_heap preds1) probs0)
              (\<lambda>r. case r of
                     Inl e \<Rightarrow> Some (Inl e)
                   | Inr (heap, probs) \<Rightarrow>
                       (let probs' = with_scores probs
                                      (enforce_minimum_probability (sc_epsilon st) True
                                         (map as_score probs));
                            sorted = sort_greater probs'
                        in Some (Inr (st\<lparr>sc_action_probs := sorted\<rparr>,
                                      sorted @ drop num_actions heap))))))"

definition update_a_s :: "example \<Rightarrow> action_score list \<Rightarrow> example" where
  "update_a_s ex preds = ex\<lparr>ex_pred := (ex_pred ex)\<lparr>pp_a_s := preds\<rparr>\<rparr>"

text \<open>
  The running cost bounds: the first cost of the first example that has one widens
  \<open>[_min_cost, _max_cost]\<close>.
\<close>

definition update_cost_range :: "synthcover \<Rightarrow> example list \<Rightarrow> synthcover" where
  "update_cost_range st examples =
     (case find (\<lambda>x. ex_costs x \<noteq> []) examples of
        None \<Rightarrow> st
      | Some x \<Rightarrow>
          (let logged = hd (ex_costs x)
           in st\<lparr>sc_min_cost := min (cb_cost logged) (sc_min_cost st),
                 sc_max_cost := max (cb_cost logged) (sc_max_cost st)\<rparr>))"

text \<open>
  \<open>predict_or_learn_impl\<close>: the base call reads \<open>examples[0]\<close> first (undefined on an
  empty group), the predictions live in \<open>examples[0]->pred.a_s\<close>, a single action
  gets probability 1, and two or more are explored.
\<close>

definition synth_predict_or_learn_impl ::
  "bool \<Rightarrow> multi_base \<Rightarrow> synthcover \<Rightarrow> example list
   \<Rightarrow> (error + (synthcover \<times> example list)) option" where
  "synth_predict_or_learn_impl is_learn base st examples =
     (if examples = [] then Some (Inl Out_of_range)
      else
        (case base is_learn examples of
           (_, Some e) \<Rightarrow> Some (Inl e)
         | (exs, None) \<Rightarrow>
             (let st1 = update_cost_range st exs
              in case exs of
                   [] \<Rightarrow> Some (Inl Out_of_range)
                 | ex0 # rest \<Rightarrow>
                     (let preds = pp_a_s (ex_pred ex0)
                      in if length exs = 1 then
                           (case preds of
                              [] \<Rightarrow> Some (Inl Out_of_range)
                            | p # ps \<Rightarrow> Some (Inr (st1, update_a_s ex0 (p\<lparr>as_score := 1\<rparr> # ps) # rest)))
                         else
                           map_option (map_sum id (\<lambda>(st2, preds'). (st2, update_a_s ex0 preds' # rest)))
                             (synth_explore st1 (length exs) preds)))))"

text \<open>The running cost range always contains 0, as the constructor sets it to [0, 0].\<close>

definition synth_cost_inv :: "synthcover \<Rightarrow> bool" where
  "synth_cost_inv st \<longleftrightarrow> sc_min_cost st \<le> 0 \<and> 0 \<le> sc_max_cost st"

subsection \<open>Setup\<close>

text \<open>
  \<open>cb_explore_adf_synthcover_setup\<close> after option parsing: the three configuration
  checks, in the source's order, then the constructor.
\<close>

definition cb_explore_adf_synthcover_setup ::
  "real \<Rightarrow> u64 \<Rightarrow> real \<Rightarrow> nat \<times> nat \<times> nat \<Rightarrow> error + synthcover" where
  "cb_explore_adf_synthcover_setup epsilon synthcoversize psi model_file_ver =
     (if synthcoversize \<le> 0 then Inl (Configuration_error ''synthcoversize must be >= 1'')
      else if epsilon < 0 then Inl (Configuration_error ''epsilon must be non-negative'')
      else if psi \<le> 0 then Inl (Configuration_error ''synthcoverpsi must be positive'')
      else Inr (synthcover_new epsilon psi synthcoversize model_file_ver))"

subsection \<open>Persistence\<close>

text \<open>
  \<open>save_load\<close>: only the cost range is persisted, as two non-validated \<open>float\<close>
  fields, and a model file older than \<open>VERSION_FILE_WITH_CCB_MULTI_SLOTS_SEEN_FLAG\<close> (a
  constant of vw_versions.h, a parameter here) has none to read. Versions compare
  lexicographically, as \<open>version_struct\<close> does.
\<close>

definition synth_save_load ::
  "nat \<times> nat \<times> nat \<Rightarrow> synthcover \<Rightarrow> io_buf \<Rightarrow> bool \<Rightarrow> bool \<Rightarrow> error + (synthcover \<times> io_buf)" where
  "synth_save_load seen_flag_version st model_file read text =
     (if io_num_files model_file = 0 then Inr (st, model_file)
      else if \<not> read \<or> seen_flag_version \<le> sc_model_file_version st then
        (case bin_text_read_write_fixed mf_float MF_float model_file read text (sc_min_cost st) of
           Inl e \<Rightarrow> Inl e
         | Inr (min_cost, io1) \<Rightarrow>
             (case bin_text_read_write_fixed mf_float MF_float io1 read text (sc_max_cost st) of
                Inl e \<Rightarrow> Inl e
              | Inr (max_cost, io2) \<Rightarrow> Inr (st\<lparr>sc_min_cost := min_cost, sc_max_cost := max_cost\<rparr>, io2)))
      else Inr (st, model_file))"

text \<open>A group whose examples carry only action scores, for the witnesses.\<close>

abbreviation ex_with_a_s :: "action_score list \<Rightarrow> example" where
  "ex_with_a_s preds \<equiv>
     \<lparr>ex_indices = [], ex_feature_space = (\<lambda>_. []), ex_costs = [], ex_cs_costs = [],
      ex_pred = \<lparr>pp_scalars = [], pp_multiclass = 0, pp_a_s = preds\<rparr>, ex_tag = [],
      ex_shared_ref = False\<rparr>"

declare synth_inner.simps [code] synth_outer.simps [code]

subsection \<open>The cover loops return and distribute exactly one unit of mass\<close>

lemma sum_scores_bump:
  "k < length probs \<Longrightarrow>
   sum_list (map as_score (probs[k := (probs ! k)\<lparr>as_score := as_score (probs ! k) + d\<rparr>])) =
   sum_list (map as_score probs) + d"
  using sum_list_update_add [of k "map as_score probs" d] by (simp add: map_update)

lemma synth_inner_returns:
  assumes sz: "unat sz < 2 ^ 32"
  shows "unat i \<le> unat sz \<Longrightarrow> unat (as_action mp) < length probs \<Longrightarrow>
    \<exists>i' mp' probs'. synth_inner sz psi sec i mp probs = Some (Inr (i', mp', probs')) \<and>
      unat i \<le> unat i' \<and> unat i' \<le> unat sz \<and>
      (as_score mp \<le> as_score sec \<and> unat i < unat sz \<longrightarrow> unat i < unat i') \<and>
      as_action mp' = as_action mp \<and> map as_action probs' = map as_action probs \<and>
      sum_list (map as_score probs') =
        sum_list (map as_score probs) + real (unat i' - unat i) / real (unat sz) \<and>
      ((\<forall>a\<in>set probs. 0 \<le> as_score a) \<longrightarrow> (\<forall>a\<in>set probs'. 0 \<le> as_score a))"
proof (induction "unat sz - unat i" arbitrary: i mp probs rule: less_induct)
  case less
  show ?case
  proof (cases "as_score mp \<le> as_score sec \<and> unat i < unat sz")
    case False
    then have "\<not> (as_score mp \<le> as_score sec \<and> ucast i < sz)"
      by (simp add: ucast_less_u64)
    with less.prems show ?thesis by (subst synth_inner.simps) (auto simp: ucast_less_u64)
  next
    case True
    let ?k = "unat (as_action mp)"
    let ?a = "probs ! ?k"
    let ?mp1 = "mp\<lparr>as_score := as_score mp + 1 / real (unat sz) * psi\<rparr>"
    let ?probs1 = "probs[?k := ?a\<lparr>as_score := as_score ?a + 1 / real (unat sz)\<rparr>]"
    have inc: "unat (i + 1) = Suc (unat i)"
      using True sz by (intro unat_u32_inc) simp
    have cond: "as_score mp \<le> as_score sec \<and> ucast i < sz"
      using True by (simp add: ucast_less_u64)
    have step: "synth_inner sz psi sec i mp probs = synth_inner sz psi sec (i + 1) ?mp1 ?probs1"
      using cond less.prems(2) by (subst synth_inner.simps) simp
    have "unat sz - unat (i + 1) < unat sz - unat i" using inc True by (simp add: diff_less_mono2)
    moreover have "unat (i + 1) \<le> unat sz" using inc True by simp
    moreover have "unat (as_action ?mp1) < length ?probs1" using less.prems(2) by simp
    ultimately obtain i' mp' probs' where
      r: "synth_inner sz psi sec (i + 1) ?mp1 ?probs1 = Some (Inr (i', mp', probs'))"
      and le: "unat (i + 1) \<le> unat i'" and le2: "unat i' \<le> unat sz"
      and act: "as_action mp' = as_action ?mp1" and acts: "map as_action probs' = map as_action ?probs1"
      and sum: "sum_list (map as_score probs') =
        sum_list (map as_score ?probs1) + real (unat i' - unat (i + 1)) / real (unat sz)"
      and nn: "(\<forall>a\<in>set ?probs1. 0 \<le> as_score a) \<longrightarrow> (\<forall>a\<in>set probs'. 0 \<le> as_score a)"
      using less.hyps by blast
    have s1: "sum_list (map as_score ?probs1) = sum_list (map as_score probs) + 1 / real (unat sz)"
      using less.prems(2) by (rule sum_scores_bump)
    have d: "real (unat i' - unat i) = real (unat i' - unat (i + 1)) + 1"
      using le inc by simp
    have sum': "sum_list (map as_score probs') =
        sum_list (map as_score probs) + real (unat i' - unat i) / real (unat sz)"
      using sum s1 d by (simp add: add_divide_distrib)
    have acts': "map as_action probs' = map as_action probs"
      using acts less.prems(2) by (simp add: map_update list_update_same_conv)
    have nn': "(\<forall>a\<in>set probs. 0 \<le> as_score a) \<longrightarrow> (\<forall>a\<in>set probs'. 0 \<le> as_score a)"
    proof
      assume h: "\<forall>a\<in>set probs. 0 \<le> as_score a"
      have "0 \<le> as_score ?a" using h less.prems(2) by simp
      have "\<forall>a\<in>set ?probs1. 0 \<le> as_score a"
      proof
        fix b assume "b \<in> set ?probs1"
        then have "b \<in> insert (?a\<lparr>as_score := as_score ?a + 1 / real (unat sz)\<rparr>) (set probs)"
          using set_update_subset_insert by fastforce
        moreover have "0 \<le> 1 / real (unat sz)"
          by (intro divide_nonneg_nonneg zero_le_one of_nat_0_le_iff)
        ultimately show "0 \<le> as_score b" using h \<open>0 \<le> as_score ?a\<close> by auto
      qed
      with nn show "\<forall>a\<in>set probs'. 0 \<le> as_score a" by blast
    qed
    show ?thesis
      using step r le le2 act acts' sum' nn' inc by auto
  qed
qed
lemma synth_outer_returns:
  assumes sz: "unat sz < 2 ^ 32"
  shows "unat i \<le> unat sz \<Longrightarrow> sorted (map as_key heap) \<Longrightarrow> 2 \<le> length heap \<Longrightarrow>
    (\<forall>a\<in>set heap. unat (as_action a) < length probs) \<Longrightarrow>
    \<exists>heap' probs'. synth_outer sz psi i heap probs = Some (Inr (heap', probs')) \<and>
      mset (map as_action heap') = mset (map as_action heap) \<and>
      map as_action probs' = map as_action probs \<and>
      sum_list (map as_score probs') =
        sum_list (map as_score probs) + real (unat sz - unat i) / real (unat sz) \<and>
      ((\<forall>a\<in>set probs. 0 \<le> as_score a) \<longrightarrow> (\<forall>a\<in>set probs'. 0 \<le> as_score a))"
proof (induction "unat sz - unat i" arbitrary: i heap probs rule: less_induct)
  case less
  show ?case
  proof (cases "unat i < unat sz")
    case False
    with less.prems(1) have "unat i = unat sz" by simp
    with False show ?thesis by (subst synth_outer.simps) (simp add: ucast_less_u64)
  next
    case True
    from less.prems(3) obtain mp sec rest' where heap: "heap = mp # sec # rest'"
      by (metis One_nat_def Suc_1 Suc_le_length_iff)
    have sorted_rest: "sorted (map as_key (sec # rest'))" using less.prems(2) heap by simp
    have le: "as_score mp \<le> as_score sec" using less.prems(2) heap by (simp add: as_key_le_score)
    have act: "unat (as_action mp) < length probs" using less.prems(4) heap by simp
    obtain i' mp' probs' where
      r: "synth_inner sz psi sec i mp probs = Some (Inr (i', mp', probs'))"
      and ii: "unat i \<le> unat i'" and isz: "unat i' \<le> unat sz" and adv: "unat i < unat i'"
      and a1: "as_action mp' = as_action mp" and a2: "map as_action probs' = map as_action probs"
      and s1: "sum_list (map as_score probs') =
        sum_list (map as_score probs) + real (unat i' - unat i) / real (unat sz)"
      and n1: "(\<forall>a\<in>set probs. 0 \<le> as_score a) \<longrightarrow> (\<forall>a\<in>set probs'. 0 \<le> as_score a)"
      using synth_inner_returns [OF sz less.prems(1) act, of psi sec] le True by blast
    let ?h = "push_heap mp' (sec # rest')"
    have hp: "sorted (map as_key ?h) \<and> mset ?h = add_mset mp' (mset (sec # rest')) \<and>
        length ?h = Suc (length (sec # rest'))"
      using sorted_rest by (rule push_heap_props)
    have len_probs: "length probs' = length probs" using a2 by (metis length_map)
    have inrange: "\<forall>a\<in>set ?h. unat (as_action a) < length probs'"
    proof
      fix a assume "a \<in> set ?h"
      then have "a \<in> set_mset (add_mset mp' (mset (sec # rest')))"
        using hp by (metis set_mset_mset)
      then have "a = mp' \<or> a \<in> set (sec # rest')" by simp
      then show "unat (as_action a) < length probs'"
        using less.prems(4) heap a1 act len_probs by auto
    qed
    have lt: "unat sz - unat i' < unat sz - unat i" using adv isz by (simp add: diff_less_mono2)
    have hs: "sorted (map as_key ?h)" and hl: "2 \<le> length ?h" using hp by simp_all
    obtain heap' probs'' where
      r2: "synth_outer sz psi i' ?h probs' = Some (Inr (heap', probs''))"
      and m2: "mset (map as_action heap') = mset (map as_action ?h)"
      and a3: "map as_action probs'' = map as_action probs'"
      and s2: "sum_list (map as_score probs'') =
        sum_list (map as_score probs') + real (unat sz - unat i') / real (unat sz)"
      and n2: "(\<forall>a\<in>set probs'. 0 \<le> as_score a) \<longrightarrow> (\<forall>a\<in>set probs''. 0 \<le> as_score a)"
      using less.hyps [OF lt isz hs hl inrange] by blast
    have step: "synth_outer sz psi i heap probs = synth_outer sz psi i' ?h probs'"
      using True r heap by (subst synth_outer.simps) (simp add: ucast_less_u64)
    have mset_eq: "mset (map as_action heap') = mset (map as_action heap)"
      using m2 hp a1 heap by simp
    have d: "real (unat sz - unat i) = real (unat i' - unat i) + real (unat sz - unat i')"
      using ii isz by simp
    have sum: "sum_list (map as_score probs'') =
        sum_list (map as_score probs) + real (unat sz - unat i) / real (unat sz)"
      using s1 s2 d by (simp add: add_divide_distrib)
    have nn: "(\<forall>a\<in>set probs. 0 \<le> as_score a) \<longrightarrow> (\<forall>a\<in>set probs''. 0 \<le> as_score a)"
      using n1 n2 by blast
    have a4: "map as_action probs'' = map as_action probs" using a3 a2 by simp
    have "synth_outer sz psi i heap probs = Some (Inr (heap', probs''))" using step r2 by simp
    with mset_eq a4 sum nn show ?thesis by blast
  qed
qed

subsection \<open>Exploration yields a sorted distribution over all actions\<close>

lemma synth_explore_distribution:
  assumes n2: "2 \<le> n" and len: "length preds = n"
    and acts: "\<forall>a\<in>set preds. unat (as_action a) < n"
    and sz0: "0 < unat (sc_synthcoversize st)" and sz: "unat (sc_synthcoversize st) < 2 ^ 32"
    and eps: "0 \<le> sc_epsilon st"
  shows "\<exists>out. synth_explore st n preds = Some (Inr (st\<lparr>sc_action_probs := out\<rparr>, out)) \<and>
    sum_list (map as_score out) = 1 \<and> (\<forall>a\<in>set out. 0 \<le> as_score a) \<and>
    sorted (rev (map as_key out)) \<and> mset (map as_action out) = mset (map of_nat [0..<n])"
proof -
  let ?sz = "sc_synthcoversize st"
  let ?clampf = "\<lambda>a. a\<lparr>as_score := clamp (as_score a) (sc_min_cost st) (sc_max_cost st)\<rparr>"
  let ?preds1 = "map ?clampf preds"
  let ?probs0 = "map (\<lambda>i. \<lparr>as_action = of_nat i, as_score = 0\<rparr>) [0..<n] :: action_score list"
  let ?heap = "make_heap ?preds1"
  have p1: "map ?clampf (take n preds) @ drop n preds = ?preds1" using len by simp
  have hp: "mset ?heap = mset ?preds1 \<and> sorted (map as_key ?heap)" by (rule make_heap_props)
  have hs: "sorted (map as_key ?heap)" using hp by simp
  have hlen: "2 \<le> length ?heap" using len n2 by (simp add: make_heap_def)
  have hacts: "\<forall>a\<in>set ?heap. unat (as_action a) < length ?probs0"
  proof
    fix a assume "a \<in> set ?heap"
    then have "a \<in> set ?preds1" by (simp add: make_heap_def)
    then show "unat (as_action a) < length ?probs0" using acts by auto
  qed
  have z: "unat (0::u32) \<le> unat ?sz" by simp
  obtain heap' probs where
    outer: "synth_outer ?sz (sc_psi st) 0 ?heap ?probs0 = Some (Inr (heap', probs))"
    and hm: "mset (map as_action heap') = mset (map as_action ?heap)"
    and pa: "map as_action probs = map as_action ?probs0"
    and ps: "sum_list (map as_score probs) =
      sum_list (map as_score ?probs0) + real (unat ?sz - unat (0::u32)) / real (unat ?sz)"
    and pn: "(\<forall>a\<in>set ?probs0. 0 \<le> as_score a) \<longrightarrow> (\<forall>a\<in>set probs. 0 \<le> as_score a)"
    using synth_outer_returns [OF sz z hs hlen hacts, of "sc_psi st"] by blast
  have u: "(unsigned ?sz :: real) \<noteq> 0"
    using sz0 by (metis of_nat_0_less_iff of_nat_unat order_less_irrefl)
  have s1: "sum_list (map as_score probs) = 1" using ps u by (simp add: o_def)
  have n1: "\<forall>a\<in>set probs. 0 \<le> as_score a" using pn by simp
  have lp: "length probs = n" using pa by (metis length_map length_upt minus_nat.diff_0)
  let ?e = "enforce_minimum_probability (sc_epsilon st) True (map as_score probs)"
  have ne: "map as_score probs \<noteq> []" using lp n2 by auto
  have nn1: "\<forall>p\<in>set (map as_score probs). 0 \<le> p" using n1 by simp
  have en: "sum_list ?e = 1 \<and> (\<forall>p\<in>set ?e. 0 \<le> p) \<and> length ?e = length (map as_score probs)"
    by (rule enforce_minimum_probability_distribution [OF eps ne nn1 s1])
  let ?probs' = "with_scores probs ?e"
  have wm: "map as_score ?probs' = ?e \<and> map as_action ?probs' = map as_action probs"
    using en by (intro with_scores_maps) simp
  let ?out = "sort_greater ?probs'"
  have so: "mset ?out = mset ?probs' \<and> sorted (rev (map as_key ?out))" by (rule sort_greater_props)
  have hl': "length heap' = n"
    using arg_cong [OF hm, of size] len by (simp add: make_heap_def)
  have ex: "synth_explore st n preds = Some (Inr (st\<lparr>sc_action_probs := ?out\<rparr>, ?out))"
    using outer hl' len by (simp add: synth_explore_def p1 Let_def)
  have sum_out: "sum_list (map as_score ?out) = 1"
  proof -
    have "mset (map as_score ?out) = mset (map as_score ?probs')" using so by simp
    then have "sum_list (map as_score ?out) = sum_list (map as_score ?probs')"
      by (rule mset_sum_list_eq)
    then show ?thesis using wm en by simp
  qed
  have nn_out: "\<forall>a\<in>set ?out. 0 \<le> as_score a"
  proof
    fix a assume "a \<in> set ?out"
    then have "a \<in> set ?probs'" using so by (metis set_mset_mset)
    then have "as_score a \<in> set (map as_score ?probs')" by simp
    then show "0 \<le> as_score a" using wm en by simp
  qed
  have acts_out: "mset (map as_action ?out) = mset (map of_nat [0..<n])"
  proof -
    have "mset (map as_action ?out) = mset (map as_action ?probs')" using so by simp
    also have "\<dots> = mset (map as_action ?probs0)" using wm pa by simp
    also have "\<dots> = mset (map of_nat [0..<n])" by (simp add: o_def)
    finally show ?thesis .
  qed
  show ?thesis using ex sum_out nn_out so acts_out by blast
qed

lemma update_cost_range_keeps:
  "sc_epsilon (update_cost_range st exs) = sc_epsilon st \<and>
   sc_psi (update_cost_range st exs) = sc_psi st \<and>
   sc_synthcoversize (update_cost_range st exs) = sc_synthcoversize st"
  by (simp add: update_cost_range_def Let_def split: option.split)

lemma update_cost_range_widens:
  "sc_min_cost (update_cost_range st exs) \<le> sc_min_cost st \<and>
   sc_max_cost st \<le> sc_max_cost (update_cost_range st exs)"
  by (simp add: update_cost_range_def Let_def split: option.split)

lemma synth_explore_state:
  "synth_explore st n preds = Some (Inr (st', out)) \<Longrightarrow> \<exists>ps. st' = st\<lparr>sc_action_probs := ps\<rparr>"
  by (auto simp: synth_explore_def Let_def bind_eq_Some_conv split: if_splits)

lemma synth_handler_state:
  assumes "synth_predict_or_learn_impl is_learn base st examples = Some (Inr (st', exs'))"
  shows "\<exists>exs ps. base is_learn examples = (exs, None) \<and>
    (st' = (update_cost_range st exs)\<lparr>sc_action_probs := ps\<rparr> \<or> st' = update_cost_range st exs)"
  using assms
  by (auto simp: synth_predict_or_learn_impl_def Let_def dest!: synth_explore_state
      split: if_splits prod.splits option.splits list.splits)

subsection \<open>Properties of the handler\<close>

text \<open>
  C1: For a group of two or more actions whose base predictions score every action once,
  and a cover size between 1 and \<open>2^32 - 1\<close>, \<open>predict_or_learn_impl\<close> returns, and
  writes into \<open>examples[0]\<close> a probability distribution: the scores are nonnegative,
  sum to 1, are sorted by decreasing probability (ties by decreasing action), and
  assign each action \<open>0 .. N-1\<close> exactly one entry.
\<close>

theorem synth_predict_or_learn_distribution:
  assumes ne: "examples \<noteq> []" and base: "base is_learn examples = (ex0 # rest, None)"
    and two: "rest \<noteq> []"
    and len: "length (pp_a_s (ex_pred ex0)) = length (ex0 # rest)"
    and acts: "\<forall>a\<in>set (pp_a_s (ex_pred ex0)). unat (as_action a) < length (ex0 # rest)"
    and sz0: "0 < unat (sc_synthcoversize st)" and sz: "unat (sc_synthcoversize st) < 2 ^ 32"
    and eps: "0 \<le> sc_epsilon st"
  shows "\<exists>st' out. synth_predict_or_learn_impl is_learn base st examples =
      Some (Inr (st', update_a_s ex0 out # rest)) \<and>
    sum_list (map as_score out) = 1 \<and> (\<forall>a\<in>set out. 0 \<le> as_score a) \<and>
    sorted (rev (map as_key out)) \<and>
    mset (map as_action out) = mset (map of_nat [0..<length (ex0 # rest)])"
proof -
  let ?st1 = "update_cost_range st (ex0 # rest)"
  have k: "sc_epsilon ?st1 = sc_epsilon st \<and> sc_synthcoversize ?st1 = sc_synthcoversize st"
    using update_cost_range_keeps by blast
  have n2: "2 \<le> length (ex0 # rest)" using two by (cases rest) auto
  have "\<exists>out. synth_explore ?st1 (length (ex0 # rest)) (pp_a_s (ex_pred ex0)) =
           Some (Inr (?st1\<lparr>sc_action_probs := out\<rparr>, out)) \<and>
      sum_list (map as_score out) = 1 \<and> (\<forall>a\<in>set out. 0 \<le> as_score a) \<and>
      sorted (rev (map as_key out)) \<and>
      mset (map as_action out) = mset (map of_nat [0..<length (ex0 # rest)])"
    by (rule synth_explore_distribution [OF n2 len acts]) (use sz0 sz eps k in simp_all)
  then obtain out where
    ex: "synth_explore ?st1 (length (ex0 # rest)) (pp_a_s (ex_pred ex0)) =
           Some (Inr (?st1\<lparr>sc_action_probs := out\<rparr>, out))"
    and props: "sum_list (map as_score out) = 1 \<and> (\<forall>a\<in>set out. 0 \<le> as_score a) \<and>
      sorted (rev (map as_key out)) \<and>
      mset (map as_action out) = mset (map of_nat [0..<length (ex0 # rest)])"
    by blast
  have "synth_predict_or_learn_impl is_learn base st examples =
      Some (Inr (?st1\<lparr>sc_action_probs := out\<rparr>, update_a_s ex0 out # rest))"
    using ne base two ex by (simp add: synth_predict_or_learn_impl_def)
  with props show ?thesis by blast
qed

theorem synth_predict_or_learn_distribution_witness:
  "\<exists>st' out. synth_predict_or_learn_impl True (\<lambda>b exs. (exs, None))
       (synthcover_new 0 (1/10) 10 (9, 0, 0))
       [ex_with_a_s [\<lparr>as_action = 0, as_score = 3/10\<rparr>, \<lparr>as_action = 1, as_score = 7/10\<rparr>],
        ex_with_a_s []] =
     Some (Inr (st', update_a_s
       (ex_with_a_s [\<lparr>as_action = 0, as_score = 3/10\<rparr>, \<lparr>as_action = 1, as_score = 7/10\<rparr>])
       out # [ex_with_a_s []])) \<and>
     sum_list (map as_score out) = 1 \<and> (\<forall>a\<in>set out. 0 \<le> as_score a) \<and>
     sorted (rev (map as_key out)) \<and>
     mset (map as_action out) = mset (map of_nat [0..<length
       [ex_with_a_s [\<lparr>as_action = 0, as_score = 3/10\<rparr>, \<lparr>as_action = 1, as_score = 7/10\<rparr>],
        ex_with_a_s []]])"
  by (rule synth_predict_or_learn_distribution) (simp_all add: synthcover_new_def)

text \<open>
  A group with a single action gets probability 1 for that action, whatever the
  exploration parameters: the only change to the base prediction is its score.
\<close>

theorem synth_single_action:
  assumes "examples \<noteq> []" and "base is_learn examples = ([ex0], None)"
    and "pp_a_s (ex_pred ex0) = p # ps"
  shows "synth_predict_or_learn_impl is_learn base st examples =
    Some (Inr (update_cost_range st [ex0], [update_a_s ex0 (p\<lparr>as_score := 1\<rparr> # ps)]))"
  using assms by (simp add: synth_predict_or_learn_impl_def)

theorem synth_single_action_witness:
  "[ex_with_a_s [\<lparr>as_action = 0, as_score = 2\<rparr>]] \<noteq> [] \<and>
   (\<lambda>b exs. (exs, None)) False [ex_with_a_s [\<lparr>as_action = 0, as_score = 2\<rparr>]] =
     ([ex_with_a_s [\<lparr>as_action = 0, as_score = 2\<rparr>]], None) \<and>
   pp_a_s (ex_pred (ex_with_a_s [\<lparr>as_action = 0, as_score = 2\<rparr>])) = \<lparr>as_action = 0, as_score = 2\<rparr> # [] \<and>
   synth_predict_or_learn_impl False (\<lambda>b exs. (exs, None)) (synthcover_new 1 1 5 (9, 0, 0))
     [ex_with_a_s [\<lparr>as_action = 0, as_score = 2\<rparr>]] =
   Some (Inr (update_cost_range (synthcover_new 1 1 5 (9, 0, 0)) [ex_with_a_s [\<lparr>as_action = 0, as_score = 2\<rparr>]],
     [update_a_s (ex_with_a_s [\<lparr>as_action = 0, as_score = 2\<rparr>]) [\<lparr>as_action = 0, as_score = 1\<rparr>]]))"
  using synth_single_action [of "[ex_with_a_s [\<lparr>as_action = 0, as_score = 2\<rparr>]]" "\<lambda>b exs. (exs, None)" False
      "ex_with_a_s [\<lparr>as_action = 0, as_score = 2\<rparr>]" "\<lparr>as_action = 0, as_score = 2\<rparr>" "[]"
      "synthcover_new 1 1 5 (9, 0, 0)"]
  by simp

text \<open>
  C34: An empty group is not answered with an empty prediction: \<open>predict_or_learn_impl\<close>
  reads \<open>examples[0]->ft_offset\<close> before it tests for zero actions, an out-of-range
  access, so its \<open>num_actions == 0\<close> branch is unreachable.
\<close>

theorem synth_empty_group_faults:
  "synth_predict_or_learn_impl is_learn base st [] = Some (Inl Out_of_range)"
  by (simp add: synth_predict_or_learn_impl_def)

text \<open>
  C23: The running cost range only widens and always contains 0: a successful call keeps
  \<open>_min_cost \<le> 0 \<le> _max_cost\<close>, never raises \<open>_min_cost\<close> or lowers
  \<open>_max_cost\<close>, and leaves the hyperparameters unchanged.
\<close>

theorem synth_cost_range_invariant:
  assumes inv: "synth_cost_inv st"
    and run: "synth_predict_or_learn_impl is_learn base st examples = Some (Inr (st', exs'))"
  shows "synth_cost_inv st' \<and> sc_min_cost st' \<le> sc_min_cost st \<and> sc_max_cost st \<le> sc_max_cost st' \<and>
    sc_epsilon st' = sc_epsilon st \<and> sc_psi st' = sc_psi st \<and>
    sc_synthcoversize st' = sc_synthcoversize st"
proof -
  obtain exs ps where "st' = (update_cost_range st exs)\<lparr>sc_action_probs := ps\<rparr> \<or>
      st' = update_cost_range st exs"
    using synth_handler_state [OF run] by blast
  then show ?thesis
    using inv update_cost_range_widens [of st exs] update_cost_range_keeps [of st exs]
    by (auto simp: synth_cost_inv_def)
qed

theorem synth_cost_range_invariant_witness:
  "synth_cost_inv (synthcover_new 1 1 5 (9, 0, 0)) \<and>
   synth_predict_or_learn_impl False (\<lambda>b exs. (exs, None)) (synthcover_new 1 1 5 (9, 0, 0))
     [ex_with_a_s [\<lparr>as_action = 0, as_score = 2\<rparr>]] =
   Some (Inr (synthcover_new 1 1 5 (9, 0, 0),
     [update_a_s (ex_with_a_s [\<lparr>as_action = 0, as_score = 2\<rparr>]) [\<lparr>as_action = 0, as_score = 1\<rparr>]])) \<and>
   synth_cost_inv (synthcover_new 1 1 5 (9, 0, 0))"
proof -
  have inv: "synth_cost_inv (synthcover_new 1 1 5 (9, 0, 0))"
    by (simp add: synth_cost_inv_def synthcover_new_def)
  have run: "synth_predict_or_learn_impl False (\<lambda>b exs. (exs, None)) (synthcover_new 1 1 5 (9, 0, 0))
     [ex_with_a_s [\<lparr>as_action = 0, as_score = 2\<rparr>]] =
   Some (Inr (synthcover_new 1 1 5 (9, 0, 0),
     [update_a_s (ex_with_a_s [\<lparr>as_action = 0, as_score = 2\<rparr>]) [\<lparr>as_action = 0, as_score = 1\<rparr>]]))"
    by (simp add: synth_predict_or_learn_impl_def update_cost_range_def)
  show ?thesis using synth_cost_range_invariant [OF inv run] inv run by simp
qed

text \<open>
  C26: Stack assembly rejects exactly the invalid configurations, before any example is
  seen: it succeeds if and only if \<open>synthcoversize \<ge> 1\<close>, \<open>epsilon \<ge> 0\<close> and
  \<open>psi > 0\<close>, and then builds the reduction with the cost range [0, 0].
\<close>

theorem synth_setup_validates:
  "cb_explore_adf_synthcover_setup epsilon synthcoversize psi v = Inr st \<longleftrightarrow>
   0 < synthcoversize \<and> 0 \<le> epsilon \<and> 0 < psi \<and> st = synthcover_new epsilon psi synthcoversize v"
  by (auto simp: cb_explore_adf_synthcover_setup_def word_gt_0 not_less)

text \<open>
  C22: The cost range survives a binary save and load: writing a state to an empty model
  file and reading it into a state of a recent enough model version restores
  \<open>_min_cost\<close> and \<open>_max_cost\<close>, consumes exactly what was written, and leaves every
  other field of the reading state as it was.
\<close>

theorem synth_save_load_roundtrip:
  assumes "0 < io_num_files io" and "io_data io = []"
    and "seen_flag_version \<le> sc_model_file_version st0"
  shows "\<exists>io'. synth_save_load seen_flag_version st io False False = Inr (st, io') \<and>
    synth_save_load seen_flag_version st0 io' True False =
      Inr (st0\<lparr>sc_min_cost := sc_min_cost st, sc_max_cost := sc_max_cost st\<rparr>, io)"
proof -
  let ?io' = "io\<lparr>io_data := [MF_float (sc_min_cost st), MF_float (sc_max_cost st)]\<rparr>"
  have w: "synth_save_load seen_flag_version st io False False = Inr (st, ?io')"
    using assms by (simp add: synth_save_load_def)
  have r: "synth_save_load seen_flag_version st0 ?io' True False =
      Inr (st0\<lparr>sc_min_cost := sc_min_cost st, sc_max_cost := sc_max_cost st\<rparr>, io)"
    using assms by (simp add: synth_save_load_def bin_text_read_write_fixed_def)
  show ?thesis using w r by blast
qed

theorem synth_save_load_roundtrip_witness:
  "\<exists>io'. synth_save_load (8, 11, 0) ((synthcover_new 0 1 5 (9, 0, 0))\<lparr>sc_min_cost := -2, sc_max_cost := 3\<rparr>)
       \<lparr>io_num_files = 1, io_data = []\<rparr> False False =
       Inr ((synthcover_new 0 1 5 (9, 0, 0))\<lparr>sc_min_cost := -2, sc_max_cost := 3\<rparr>, io') \<and>
    synth_save_load (8, 11, 0) (synthcover_new 0 1 5 (9, 0, 0)) io' True False =
      Inr ((synthcover_new 0 1 5 (9, 0, 0))\<lparr>sc_min_cost := sc_min_cost
             ((synthcover_new 0 1 5 (9, 0, 0))\<lparr>sc_min_cost := -2, sc_max_cost := 3\<rparr>),
           sc_max_cost := sc_max_cost ((synthcover_new 0 1 5 (9, 0, 0))\<lparr>sc_min_cost := -2, sc_max_cost := 3\<rparr>)\<rparr>,
           \<lparr>io_num_files = 1, io_data = []\<rparr>)"
  by (rule synth_save_load_roundtrip) (simp_all add: synthcover_new_def)

end
