(* ===== verification/Mwt.thy ===== *)
theory Mwt
  imports Weights Protocol "HOL-Library.Sublist"
begin

text \<open>
  Multiworld testing, the \<open>mwt\<close> reduction of src/vowpalwabbit/core/src/reductions/mwt.cc.
  The state is the class \<open>mwt\<close>: the evaluated namespaces, the policy table
  \<open>evals\<close> indexed by the masked and shifted feature index, the discovery list
  \<open>policies\<close>, the observation count \<open>total\<close>, the learn-mode parameters, the
  stash of swapped-out feature spaces and the weight store of the workspace, of which the
  reduction reads only the mask and the stride shift. The template
  \<open>predict_or_learn<learn, exclude, is_learn>\<close> is one function of the three flags,
  composed of its four stages: observation, feature swap, base call, restore and output.
\<close>

unbundle bit_operations_syntax

record policy_data =
  pd_cost :: real
  pd_action :: u32
  pd_seen :: bool

definition policy_data_default :: policy_data where
  "policy_data_default = \<lparr>pd_cost = 0, pd_action = 0, pd_seen = False\<rparr>"

record mwt =
  mw_namespaces :: "u8 \<Rightarrow> bool"
  mw_evals :: "policy_data list"
  mw_observation :: "bool \<times> cb_class"
  mw_policies :: "u64 list"
  mw_total :: real
  mw_num_classes :: u32
  mw_learn :: bool
  mw_indices :: "u8 list"
  mw_feature_space :: "u8 \<Rightarrow> feature list"
  mw_weights :: dense_parameters

subsection \<open>Observation: policy discovery and cost accrual\<close>

text \<open>
  \<open>value_policy\<close>: the feature's value is the policy's proposed action, its masked and
  shifted index the policy id; a policy seen for the first time is appended to the
  discovery list. The logged error for a value that is not a nonnegative integer is
  output only and not modelled.
\<close>

definition policy_index :: "mwt \<Rightarrow> u64 \<Rightarrow> u64" where
  "policy_index c index =
     drop_bit (unat (stride_shift (mw_weights c))) (index AND mask (mw_weights c))"

definition value_policy :: "mwt \<Rightarrow> real \<Rightarrow> u64 \<Rightarrow> error + mwt" where
  "value_policy c val index =
     (let value = (float_to_word val :: u32);
          new_index = policy_index c index
      in case arr_get (mw_evals c) (unat new_index) of
           Inl e \<Rightarrow> Inl e
         | Inr pd \<Rightarrow>
             (let c1 = (if \<not> pd_seen pd then
                          c\<lparr>mw_evals := (mw_evals c)[unat new_index := pd\<lparr>pd_seen := True\<rparr>],
                            mw_policies := mw_policies c @ [new_index]\<rparr>
                        else c)
              in Inr (c1\<lparr>mw_evals := (mw_evals c1)[unat new_index :=
                                       (mw_evals c1 ! unat new_index)\<lparr>pd_action := value\<rparr>]\<rparr>)))"

text \<open>\<open>GD::foreach_feature<mwt, value_policy>\<close> over one namespace (offset 0, multiplier 1).\<close>

definition value_policies :: "mwt \<Rightarrow> feature list \<Rightarrow> error + mwt" where
  "value_policies c fs = fold_err (\<lambda>(v, i) c. value_policy c v i) fs c"

definition record_policies :: "example \<Rightarrow> mwt \<Rightarrow> error + mwt" where
  "record_policies ec c =
     fold_err (\<lambda>ns c. if mw_namespaces c ns then value_policies c (ex_feature_space ec ns) else Inr c)
       (ex_indices ec) c"

text \<open>Every registered policy is charged the estimated cost of its proposed action.\<close>

definition accrue_costs :: "cb_class \<Rightarrow> mwt \<Rightarrow> error + mwt" where
  "accrue_costs obs c =
     fold_err (\<lambda>p c. case arr_get (mw_evals c) (unat p) of
                       Inl e \<Rightarrow> Inl e
                     | Inr pd \<Rightarrow>
                         Inr (c\<lparr>mw_evals := (mw_evals c)[unat p :=
                               pd\<lparr>pd_cost := pd_cost pd + get_cost_estimate obs (pd_action pd),
                                  pd_action := 0\<rparr>]\<rparr>))
       (mw_policies c) c"

definition mwt_observe :: "mwt \<Rightarrow> example \<Rightarrow> error + mwt" where
  "mwt_observe c ec =
     (let obs = get_observed_cost_cb (ex_costs ec);
          c1 = c\<lparr>mw_observation := obs\<rparr>
      in if fst obs then
           (case record_policies ec (c1\<lparr>mw_total := mw_total c1 + 1\<rparr>) of
              Inl e \<Rightarrow> Inl e
            | Inr c2 \<Rightarrow> accrue_costs (snd obs) c2)
         else Inr c1)"

subsection \<open>Feature swap and restore\<close>

text \<open>
  Learn mode rewrites each feature of an evaluated namespace to value 1 at index
  \<open>((index & mask) >> stride_shift) * num_classes + value\<close>, shifted back by the stride;
  the arithmetic is on \<open>uint64_t\<close> and wraps.
\<close>

definition mwt_remap :: "mwt \<Rightarrow> feature list \<Rightarrow> feature list" where
  "mwt_remap c fs =
     map (\<lambda>(v, i). (1, push_bit (unat (stride_shift (mw_weights c)))
                          (policy_index c i * ucast (mw_num_classes c) + float_to_word v))) fs"

definition mwt_swap_ns :: "u8 \<Rightarrow> mwt \<times> example \<Rightarrow> mwt \<times> example" where
  "mwt_swap_ns ns ce =
     (case ce of (c, ec) \<Rightarrow>
        (c\<lparr>mw_feature_space := (mw_feature_space c)(ns := ex_feature_space ec ns)\<rparr>,
         ec\<lparr>ex_feature_space := (ex_feature_space ec)(ns := mw_feature_space c ns)\<rparr>))"

definition mwt_exclude_step :: "bool \<Rightarrow> u8 \<Rightarrow> mwt \<times> example \<Rightarrow> mwt \<times> example" where
  "mwt_exclude_step learn ns ce =
     (case ce of (c, ec) \<Rightarrow>
        (if mw_namespaces c ns then
           (let c1 = c\<lparr>mw_indices := mw_indices c @ [ns]\<rparr>;
                c2 = (if learn then
                        c1\<lparr>mw_feature_space :=
                             (mw_feature_space c1)(ns := mwt_remap c1 (ex_feature_space ec ns))\<rparr>
                      else c1)
            in mwt_swap_ns ns (c2, ec))
         else (c, ec)))"

definition mwt_exclude :: "bool \<Rightarrow> mwt \<Rightarrow> example \<Rightarrow> mwt \<times> example" where
  "mwt_exclude learn c ec = fold (mwt_exclude_step learn) (ex_indices ec) (c\<lparr>mw_indices := []\<rparr>, ec)"

text \<open>The restore loop pops the stash from the back and swaps each namespace back.\<close>

function mwt_restore :: "mwt \<times> example \<Rightarrow> mwt \<times> example" where
  "mwt_restore (c, ec) =
     (if mw_indices c = [] then (c, ec)
      else mwt_restore (mwt_swap_ns (last (mw_indices c))
                          (c\<lparr>mw_indices := butlast (mw_indices c)\<rparr>, ec)))"
  by pat_completeness auto
termination
  by (relation "measure (\<lambda>(c, ec). length (mw_indices c))") (auto simp: mwt_swap_ns_def)

declare mwt_restore.simps [simp del]

subsection \<open>Output and the handler\<close>

text \<open>
  The emitted scalars: in learn mode the base's class first, then for each policy in
  discovery order \<open>float(cost) / float(total)\<close>, a division with no guard.
\<close>

definition mwt_scalars :: "bool \<Rightarrow> mwt \<Rightarrow> example \<Rightarrow> error + fval list" where
  "mwt_scalars learn c ec =
     (case map_err (\<lambda>i. case arr_get (mw_evals c) (unat i) of
                          Inl e \<Rightarrow> Inl e
                        | Inr pd \<Rightarrow> Inr (fdiv (pd_cost pd) (mw_total c)))
             (mw_policies c) of
        Inl e \<Rightarrow> Inl e
      | Inr ps \<Rightarrow> Inr ((if learn then [Some (real (unat (pp_multiclass (ex_pred ec))))] else []) @ ps))"

text \<open>
  \<open>predict_or_learn<learn, exclude, is_learn>\<close>. An undefined access is \<open>Inl\<close>; an
  exception of the base is \<open>Inr (c, ec, Some e)\<close> with the state it leaves behind:
  there is no scope guard, so the feature spaces stay swapped.
\<close>

definition mwt_predict_or_learn ::
  "bool \<Rightarrow> bool \<Rightarrow> bool \<Rightarrow> single_base \<Rightarrow> mwt \<Rightarrow> example
   \<Rightarrow> error + (mwt \<times> example \<times> error option)" where
  "mwt_predict_or_learn learn exclude is_learn base c ec =
     (case mwt_observe c ec of
        Inl e \<Rightarrow> Inl e
      | Inr c1 \<Rightarrow>
          (case (if exclude \<or> learn then mwt_exclude learn c1 ec else (c1, ec)) of
             (c2, ec2) \<Rightarrow>
               (case (if learn then base is_learn ec2 else (ec2, None)) of
                  (ec3, Some e) \<Rightarrow> Inr (c2, ec3, Some e)
                | (ec3, None) \<Rightarrow>
                    (case (if exclude \<or> learn then mwt_restore (c2, ec3) else (c2, ec3)) of
                       (c4, ec4) \<Rightarrow>
                         (case mwt_scalars learn c4 ec4 of
                            Inl e \<Rightarrow> Inl e
                          | Inr preds \<Rightarrow>
                              Inr (c4, ec4\<lparr>ex_pred := (ex_pred ec4)\<lparr>pp_scalars := preds\<rparr>\<rparr>,
                                   None))))))"

subsection \<open>Setup\<close>

text \<open>
  \<open>mwt_setup\<close>: the namespaces are the characters of the \<open>--multiworld_test\<close> string,
  learn mode is on when \<open>--learn n\<close> has \<open>n > 0\<close>, the policy table has one entry
  per weight (\<open>all.length()\<close>), and the handler instance is chosen by the flags:
  the result is the state and the \<open>(learn, exclude)\<close> template arguments.
\<close>

definition mwt_setup ::
  "string \<Rightarrow> u32 \<Rightarrow> bool \<Rightarrow> nat \<Rightarrow> dense_parameters \<Rightarrow> mwt \<times> bool \<times> bool" where
  "mwt_setup s num_classes exclude_eval len weights =
     (let learn = 0 < num_classes
      in (\<lparr>mw_namespaces = (\<lambda>ns. ns \<in> set (map (\<lambda>ch. of_nat (of_char ch)) s)),
           mw_evals = replicate len policy_data_default,
           mw_observation = (False, \<lparr>cb_cost = 0, cb_action = 0, cb_probability = 0\<rparr>),
           mw_policies = [], mw_total = 0, mw_num_classes = num_classes, mw_learn = learn,
           mw_indices = [], mw_feature_space = (\<lambda>_. []), mw_weights = weights\<rparr>,
          learn, learn \<and> exclude_eval))"

subsection \<open>Persistence\<close>

text \<open>
  \<open>resize_but_with_stl_behavior\<close>: truncate, or extend with value-initialised entries.
\<close>

definition resize_stl :: "u64 list \<Rightarrow> nat \<Rightarrow> u64 list" where
  "resize_stl xs n = take n xs @ replicate (n - length xs) 0"

text \<open>
  One policy's entry of the table, read into or written from \<open>c.evals[policy]\<close>, an
  unchecked index.
\<close>

definition mwt_save_load_policy ::
  "bool \<Rightarrow> bool \<Rightarrow> u64 \<Rightarrow> policy_data list \<times> io_buf \<Rightarrow> error + (policy_data list \<times> io_buf)" where
  "mwt_save_load_policy read text policy st =
     (case st of (evals, model_file) \<Rightarrow>
        (case arr_get evals (unat policy) of
           Inl e \<Rightarrow> Inl e
         | Inr pd \<Rightarrow>
             (case bin_text_read_write_fixed_validated mf_double MF_double model_file read text (pd_cost pd) of
                Inl e \<Rightarrow> Inl e
              | Inr (cost, io1) \<Rightarrow>
                  (case bin_text_read_write_fixed_validated mf_u32 MF_u32 io1 read text (pd_action pd) of
                     Inl e \<Rightarrow> Inl e
                   | Inr (action, io2) \<Rightarrow>
                       (case bin_text_read_write_fixed_validated mf_bool MF_bool io2 read text (pd_seen pd) of
                          Inl e \<Rightarrow> Inl e
                        | Inr (seen, io3) \<Rightarrow>
                            Inr (evals[unat policy := \<lparr>pd_cost = cost, pd_action = action, pd_seen = seen\<rparr>],
                                 io3))))))"

text \<open>
  \<open>save_load\<close>: the count, the number of policies, the discovery list as one block, then
  each policy's \<open>(cost, action, seen)\<close>, all validated. The logged messages are not
  modelled.
\<close>

definition mwt_save_load :: "mwt \<Rightarrow> io_buf \<Rightarrow> bool \<Rightarrow> bool \<Rightarrow> error + (mwt \<times> io_buf)" where
  "mwt_save_load c model_file read text =
     (if io_num_files model_file = 0 then Inr (c, model_file)
      else
        (case bin_text_read_write_fixed_validated mf_double MF_double model_file read text (mw_total c) of
           Inl e \<Rightarrow> Inl e
         | Inr (total_read, io1) \<Rightarrow>
             (case bin_text_read_write_fixed_validated mf_u64 MF_u64 io1 read text
                     (of_nat (length (mw_policies c))) of
                Inl e \<Rightarrow> Inl e
              | Inr (policies_size, io2) \<Rightarrow>
                  (let policies = (if read then resize_stl (mw_policies c) (unat policies_size)
                                   else mw_policies c)
                   in case bin_text_read_write_array_validated mf_u64 MF_u64 io2 read text policies of
                        Inl e \<Rightarrow> Inl e
                      | Inr (policies', io3) \<Rightarrow>
                          (case fold_err (mwt_save_load_policy read text) policies' (mw_evals c, io3) of
                             Inl e \<Rightarrow> Inl e
                           | Inr (evals', io4) \<Rightarrow>
                               Inr (c\<lparr>mw_total := total_read, mw_policies := policies', mw_evals := evals'\<rparr>,
                                    io4))))))"

text \<open>The fields one policy contributes to a binary model file.\<close>

definition policy_fields :: "policy_data list \<Rightarrow> u64 \<Rightarrow> mf_field list" where
  "policy_fields evals p =
     [MF_double (pd_cost (evals ! unat p)), MF_u32 (pd_action (evals ! unat p)),
      MF_bool (pd_seen (evals ! unat p))]"

subsection \<open>Invariant\<close>

text \<open>
  The policy table is consistent: every policy id the weight mask can produce indexes
  \<open>evals\<close>, the discovery list is duplicate free and lists exactly the seen entries.
  The counter is nonnegative and at least 1 once a policy exists, because policies are
  only discovered on an observed example, after the increment.
\<close>

definition mwt_table_ok :: "mwt \<Rightarrow> bool" where
  "mwt_table_ok c \<longleftrightarrow>
     unat (policy_index c (mask (mw_weights c))) < length (mw_evals c) \<and>
     distinct (mw_policies c) \<and>
     (\<forall>p\<in>set (mw_policies c). unat p < length (mw_evals c) \<and> pd_seen (mw_evals c ! unat p)) \<and>
     (\<forall>i<length (mw_evals c). pd_seen (mw_evals c ! i) \<longrightarrow> i \<in> unat ` set (mw_policies c))"

definition mwt_inv :: "mwt \<Rightarrow> bool" where
  "mwt_inv c \<longleftrightarrow> mwt_table_ok c \<and> 0 \<le> mw_total c \<and> (mw_policies c \<noteq> [] \<longrightarrow> 1 \<le> mw_total c)"

text \<open>The fields an observation or a swap leaves alone, and the growth of the discovery list.\<close>

definition mwt_frame :: "mwt \<Rightarrow> mwt \<Rightarrow> bool" where
  "mwt_frame c c' \<longleftrightarrow>
     mw_weights c' = mw_weights c \<and> mw_total c' = mw_total c \<and>
     mw_namespaces c' = mw_namespaces c \<and> mw_num_classes c' = mw_num_classes c \<and>
     mw_learn c' = mw_learn c \<and> mw_observation c' = mw_observation c \<and>
     mw_indices c' = mw_indices c \<and> mw_feature_space c' = mw_feature_space c \<and>
     length (mw_evals c') = length (mw_evals c) \<and> prefix (mw_policies c) (mw_policies c')"

text \<open>
  A small instance for the witnesses: namespace \<open>'a'\<close> (97) evaluated, two classes, a
  store of two weights of stride 2, and an example with one feature in namespace 97 and
  an observed cost for action 1.
\<close>

abbreviation ex_mwt :: mwt where
  "ex_mwt \<equiv> fst (mwt_setup ''a'' 2 False 2 ex_dense)"

abbreviation ex_mwt_example :: "u8 list \<Rightarrow> feature list \<Rightarrow> example" where
  "ex_mwt_example is fs \<equiv>
     \<lparr>ex_indices = is, ex_feature_space = (\<lambda>_. [])(97 := fs),
      ex_costs = [\<lparr>cb_cost = 1, cb_action = 1, cb_probability = 1/2\<rparr>], ex_cs_costs = [],
      ex_pred = \<lparr>pp_scalars = [], pp_multiclass = 1, pp_a_s = []\<rparr>, ex_tag = [],
      ex_shared_ref = False\<rparr>"

abbreviation ex_mwt_saved :: mwt where
  "ex_mwt_saved \<equiv> ex_mwt\<lparr>mw_policies := [0], mw_total := 1,
     mw_evals := [\<lparr>pd_cost = 2, pd_action = 1, pd_seen = True\<rparr>, policy_data_default]\<rparr>"

text \<open>The part of the state the feature swap does not touch.\<close>

definition mwt_cfg ::
  "mwt \<Rightarrow> (u8 \<Rightarrow> bool) \<times> policy_data list \<times> (bool \<times> cb_class) \<times> u64 list \<times> real \<times> u32 \<times> bool \<times> dense_parameters" where
  "mwt_cfg c = (mw_namespaces c, mw_evals c, mw_observation c, mw_policies c, mw_total c,
                mw_num_classes c, mw_learn c, mw_weights c)"

subsection \<open>Lemmas: the observation stage keeps the policy table consistent\<close>

lemma mwt_frame_refl [simp]: "mwt_frame c c"
  by (simp add: mwt_frame_def)

lemma mwt_frame_trans: "mwt_frame a b \<Longrightarrow> mwt_frame b c \<Longrightarrow> mwt_frame a c"
  by (auto simp: mwt_frame_def)

lemma policy_index_lt:
  "mwt_table_ok c \<Longrightarrow> unat (policy_index c i) < length (mw_evals c)"
  unfolding mwt_table_ok_def policy_index_def
  using unat_drop_bit_and_le [of "unat (stride_shift (mw_weights c))" i "mask (mw_weights c)"]
  by (simp add: ac_simps)

lemma table_ok_update:
  assumes "mwt_table_ok c" "n < length (mw_evals c)" "pd_seen x = pd_seen (mw_evals c ! n)"
  shows "mwt_table_ok (c\<lparr>mw_evals := (mw_evals c)[n := x]\<rparr>)"
  using assms unfolding mwt_table_ok_def policy_index_def
  by (auto simp: nth_list_update)

lemma table_ok_discover:
  assumes ok: "mwt_table_ok c" and n: "unat p < length (mw_evals c)"
    and new: "\<not> pd_seen (mw_evals c ! unat p)" and x: "pd_seen x"
  shows "mwt_table_ok (c\<lparr>mw_policies := mw_policies c @ [p], mw_evals := (mw_evals c)[unat p := x]\<rparr>)"
proof -
  have "p \<notin> set (mw_policies c)" using ok new unfolding mwt_table_ok_def by auto
  then show ?thesis using ok n x unfolding mwt_table_ok_def policy_index_def
    by (auto simp: nth_list_update)
qed

lemma value_policy_ok:
  assumes ok: "mwt_table_ok c"
  shows "\<exists>c'. value_policy c v i = Inr c' \<and> mwt_table_ok c' \<and> mwt_frame c c'"
proof -
  let ?p = "policy_index c i"
  let ?n = "unat ?p"
  let ?pd = "mw_evals c ! ?n"
  have n: "?n < length (mw_evals c)" using policy_index_lt [OF ok] .
  show ?thesis
  proof (cases "pd_seen ?pd")
    case True
    then show ?thesis using n
      by (simp add: value_policy_def Let_def table_ok_update [OF ok] mwt_frame_def)
  next
    case False
    have "mwt_table_ok (c\<lparr>mw_policies := mw_policies c @ [?p],
                          mw_evals := (mw_evals c)[?n := ?pd\<lparr>pd_seen := True, pd_action := float_to_word v\<rparr>]\<rparr>)"
      using table_ok_discover [OF ok n False, of "?pd\<lparr>pd_seen := True, pd_action := float_to_word v\<rparr>"]
      by simp
    then show ?thesis using n False
      by (simp add: value_policy_def Let_def mwt_frame_def)
  qed
qed

lemma value_policies_ok:
  "mwt_table_ok c \<Longrightarrow> \<exists>c'. value_policies c fs = Inr c' \<and> mwt_table_ok c' \<and> mwt_frame c c'"
  unfolding value_policies_def
proof (rule fold_err_preserves [where P = "\<lambda>s. mwt_table_ok s \<and> mwt_frame c s"])
  fix x s
  assume "mwt_table_ok s \<and> mwt_frame c s"
  then show "\<exists>s'. (case x of (v, i) \<Rightarrow> \<lambda>c. value_policy c v i) s = Inr s' \<and> mwt_table_ok s' \<and> mwt_frame c s'"
    using value_policy_ok [of s "fst x" "snd x"] mwt_frame_trans by (cases x) fastforce
qed simp

lemma record_policies_ok:
  "mwt_table_ok c \<Longrightarrow> \<exists>c'. record_policies ec c = Inr c' \<and> mwt_table_ok c' \<and> mwt_frame c c'"
  unfolding record_policies_def
proof (rule fold_err_preserves [where P = "\<lambda>s. mwt_table_ok s \<and> mwt_frame c s"])
  fix x s
  assume "mwt_table_ok s \<and> mwt_frame c s"
  then show "\<exists>s'. (if mw_namespaces s x then value_policies s (ex_feature_space ec x) else Inr s) = Inr s' \<and>
      mwt_table_ok s' \<and> mwt_frame c s'"
    using value_policies_ok [of s "ex_feature_space ec x"] mwt_frame_trans by fastforce
qed simp

lemma accrue_costs_ok:
  assumes "mwt_table_ok c"
  shows "\<exists>c'. accrue_costs obs c = Inr c' \<and> mwt_table_ok c' \<and> mwt_frame c c' \<and>
    mw_policies c' = mw_policies c"
  unfolding accrue_costs_def
proof (rule fold_err_preserves [where P = "\<lambda>s. mwt_table_ok s \<and> mwt_frame c s \<and> mw_policies s = mw_policies c"])
  fix x s
  assume x: "x \<in> set (mw_policies c)" and P: "mwt_table_ok s \<and> mwt_frame c s \<and> mw_policies s = mw_policies c"
  then have n: "unat x < length (mw_evals s)" unfolding mwt_table_ok_def by auto
  show "\<exists>s'. (case arr_get (mw_evals s) (unat x) of Inl e \<Rightarrow> Inl e
              | Inr pd \<Rightarrow> Inr (s\<lparr>mw_evals := (mw_evals s)[unat x :=
                   pd\<lparr>pd_cost := pd_cost pd + get_cost_estimate obs (pd_action pd), pd_action := 0\<rparr>]\<rparr>)) = Inr s' \<and>
            mwt_table_ok s' \<and> mwt_frame c s' \<and> mw_policies s' = mw_policies c"
    using P n table_ok_update [of s "unat x"] by (auto simp: mwt_frame_def)
qed (use assms in simp)

lemma table_ok_fields [simp]:
  "mwt_table_ok (c\<lparr>mw_total := t\<rparr>) = mwt_table_ok c"
  "mwt_table_ok (c\<lparr>mw_observation := ob\<rparr>) = mwt_table_ok c"
  "mwt_table_ok (c\<lparr>mw_indices := is\<rparr>) = mwt_table_ok c"
  "mwt_table_ok (c\<lparr>mw_feature_space := f\<rparr>) = mwt_table_ok c"
  by (simp_all add: mwt_table_ok_def policy_index_def)

lemma mwt_observe_ok:
  assumes inv: "mwt_inv c"
  shows "\<exists>c'. mwt_observe c ec = Inr c' \<and> mwt_inv c' \<and>
    mw_weights c' = mw_weights c \<and> mw_namespaces c' = mw_namespaces c \<and>
    mw_num_classes c' = mw_num_classes c \<and> mw_learn c' = mw_learn c \<and>
    mw_feature_space c' = mw_feature_space c \<and> prefix (mw_policies c) (mw_policies c') \<and>
    length (mw_evals c') = length (mw_evals c)"
proof (cases "fst (get_observed_cost_cb (ex_costs ec))")
  case True
  let ?c1 = "c\<lparr>mw_observation := get_observed_cost_cb (ex_costs ec), mw_total := mw_total c + 1\<rparr>"
  have ok1: "mwt_table_ok ?c1" using inv by (simp add: mwt_inv_def)
  obtain c2 where r: "record_policies ec ?c1 = Inr c2" and ok2: "mwt_table_ok c2" and f2: "mwt_frame ?c1 c2"
    using record_policies_ok [OF ok1] by blast
  obtain c3 where a: "accrue_costs (snd (get_observed_cost_cb (ex_costs ec))) c2 = Inr c3"
    and ok3: "mwt_table_ok c3" and f3: "mwt_frame c2 c3" and p3: "mw_policies c3 = mw_policies c2"
    using accrue_costs_ok [OF ok2] by blast
  have "mwt_frame ?c1 c3" using f2 f3 by (rule mwt_frame_trans)
  then show ?thesis using True r a ok3 inv
    by (auto simp: mwt_observe_def mwt_frame_def mwt_inv_def)
next
  case False
  then show ?thesis using inv by (simp add: mwt_observe_def mwt_inv_def)
qed

lemma mwt_inv_fields [simp]:
  "mwt_inv (c\<lparr>mw_indices := is, mw_feature_space := f\<rparr>) = mwt_inv c"
  "mwt_inv (c\<lparr>mw_indices := is\<rparr>) = mwt_inv c"
  by (simp_all add: mwt_inv_def mwt_table_ok_def policy_index_def)

lemma mwt_remap_fields [simp]:
  "mwt_remap (c\<lparr>mw_indices := is, mw_feature_space := f\<rparr>) = mwt_remap c"
  "mwt_remap (c\<lparr>mw_indices := is\<rparr>) = mwt_remap c"
  by (simp_all add: mwt_remap_def policy_index_def fun_eq_iff)

lemma mwt_cfg_inv: "mwt_cfg c' = mwt_cfg c \<Longrightarrow> mwt_inv c' = mwt_inv c"
  by (simp add: mwt_cfg_def mwt_inv_def mwt_table_ok_def policy_index_def)

lemma mwt_cfg_remap: "mwt_cfg c' = mwt_cfg c \<Longrightarrow> mwt_remap c' = mwt_remap c"
  by (simp add: mwt_cfg_def mwt_remap_def policy_index_def fun_eq_iff)

lemma exclude_step_cfg: "mwt_cfg (fst (mwt_exclude_step learn x (c, ec))) = mwt_cfg c"
  by (simp add: mwt_exclude_step_def mwt_swap_ns_def Let_def mwt_cfg_def)

lemma exclude_fold_cfg: "mwt_cfg (fst (fold (mwt_exclude_step learn) xs ce)) = mwt_cfg (fst ce)"
proof (induction xs arbitrary: ce)
  case (Cons x xs)
  then show ?case using exclude_step_cfg [of learn x "fst ce" "snd ce"] by simp
qed simp

lemma mwt_exclude_cfg: "mwt_cfg (fst (mwt_exclude learn c ec)) = mwt_cfg c"
  using exclude_fold_cfg [of learn "ex_indices ec" "(c\<lparr>mw_indices := []\<rparr>, ec)"]
  by (simp add: mwt_exclude_def mwt_cfg_def)

lemma restore_cfg: "mwt_cfg (fst (mwt_restore ce)) = mwt_cfg (fst ce)"
proof (induction ce rule: mwt_restore.induct)
  case (1 c ec)
  then show ?case by (subst mwt_restore.simps) (simp add: mwt_swap_ns_def mwt_cfg_def)
qed

lemma restore_indices: "mw_indices (fst (mwt_restore ce)) = []"
  by (induction ce rule: mwt_restore.induct) (subst mwt_restore.simps, simp add: mwt_swap_ns_def)

lemma mwt_exclude_cfg_eq: "mwt_exclude learn c ec = (c', ec') \<Longrightarrow> mwt_cfg c' = mwt_cfg c"
  using mwt_exclude_cfg [of learn c ec] by simp

lemma restore_cfg_eq: "mwt_restore (c, ec) = (c', ec') \<Longrightarrow> mwt_cfg c' = mwt_cfg c"
  using restore_cfg [of "(c, ec)"] by simp

lemma mwt_scalars_ok:
  assumes inv: "mwt_inv c"
  shows "mwt_scalars learn c ec =
    Inr ((if learn then [Some (real (unat (pp_multiclass (ex_pred ec))))] else []) @
         map (\<lambda>p. Some (pd_cost (mw_evals c ! unat p) / mw_total c)) (mw_policies c))"
proof -
  have "map_err (\<lambda>i. case arr_get (mw_evals c) (unat i) of Inl e \<Rightarrow> Inl e
                    | Inr pd \<Rightarrow> Inr (fdiv (pd_cost pd) (mw_total c))) (mw_policies c) =
        Inr (map (\<lambda>p. Some (pd_cost (mw_evals c ! unat p) / mw_total c)) (mw_policies c))"
  proof (rule map_err_map)
    fix p assume p: "p \<in> set (mw_policies c)"
    then have "unat p < length (mw_evals c)" and "1 \<le> mw_total c"
      using inv by (auto simp: mwt_inv_def mwt_table_ok_def)
    then show "(case arr_get (mw_evals c) (unat p) of Inl e \<Rightarrow> Inl e
                | Inr pd \<Rightarrow> Inr (fdiv (pd_cost pd) (mw_total c))) =
               Inr (Some (pd_cost (mw_evals c ! unat p) / mw_total c))"
      by simp
  qed
  then show ?thesis by (simp add: mwt_scalars_def)
qed

lemma mwt_handler_unfold:
  assumes "mwt_observe c ec = Inr c1"
    and "(if exclude \<or> learn then mwt_exclude learn c1 ec else (c1, ec)) = (c2, ec2)"
    and "(if learn then base is_learn ec2 else (ec2, None)) = (ec3, err)"
    and "(if exclude \<or> learn then mwt_restore (c2, ec3) else (c2, ec3)) = (c4, ec4)"
  shows "mwt_predict_or_learn learn exclude is_learn base c ec =
    (case err of
       Some e \<Rightarrow> Inr (c2, ec3, Some e)
     | None \<Rightarrow> (case mwt_scalars learn c4 ec4 of
                 Inl e \<Rightarrow> Inl e
               | Inr preds \<Rightarrow> Inr (c4, ec4\<lparr>ex_pred := (ex_pred ec4)\<lparr>pp_scalars := preds\<rparr>\<rparr>, None)))"
  unfolding mwt_predict_or_learn_def by (simp only: assms sum.case prod.case)

lemma mwt_handler_stages:
  assumes inv: "mwt_inv c"
  obtains c1 c2 ec2 ec3 err c4 ec4 where
    "mwt_observe c ec = Inr c1" "mwt_inv c1" "prefix (mw_policies c) (mw_policies c1)"
    "(if exclude \<or> learn then mwt_exclude learn c1 ec else (c1, ec)) = (c2, ec2)"
    "(if learn then base is_learn ec2 else (ec2, None)) = (ec3, err)"
    "(if exclude \<or> learn then mwt_restore (c2, ec3) else (c2, ec3)) = (c4, ec4)"
    "mwt_cfg c2 = mwt_cfg c1" "mwt_cfg c4 = mwt_cfg c1"
proof -
  obtain c1 where o1: "mwt_observe c ec = Inr c1" and inv1: "mwt_inv c1"
    and p1: "prefix (mw_policies c) (mw_policies c1)"
    using mwt_observe_ok [OF inv] by blast
  obtain c2 ec2 where e2: "(if exclude \<or> learn then mwt_exclude learn c1 ec else (c1, ec)) = (c2, ec2)"
    by fastforce
  have cfg2: "mwt_cfg c2 = mwt_cfg c1" using e2 mwt_exclude_cfg_eq [of learn c1 ec]
    by (auto split: if_splits)
  obtain ec3 err where e3: "(if learn then base is_learn ec2 else (ec2, None)) = (ec3, err)"
    by fastforce
  obtain c4 ec4 where e4: "(if exclude \<or> learn then mwt_restore (c2, ec3) else (c2, ec3)) = (c4, ec4)"
    by fastforce
  have cfg4: "mwt_cfg c4 = mwt_cfg c1" using e4 restore_cfg_eq [of c2 ec3] cfg2
    by (auto split: if_splits)
  show ?thesis using that [OF o1 inv1 p1 e2 e3 e4 cfg2 cfg4] .
qed

lemma exclude_fold_fs:
  assumes "distinct xs"
  shows "ex_feature_space (snd (fold (mwt_exclude_step learn) xs (c, ec))) =
           (\<lambda>ns. if ns \<in> set xs \<and> mw_namespaces c ns then
                   (if learn then mwt_remap c (ex_feature_space ec ns) else mw_feature_space c ns)
                 else ex_feature_space ec ns) \<and>
         mw_feature_space (fst (fold (mwt_exclude_step learn) xs (c, ec))) =
           (\<lambda>ns. if ns \<in> set xs \<and> mw_namespaces c ns then ex_feature_space ec ns
                 else mw_feature_space c ns) \<and>
         mw_indices (fst (fold (mwt_exclude_step learn) xs (c, ec))) =
           mw_indices c @ filter (mw_namespaces c) xs"
  using assms
proof (induction xs arbitrary: c ec)
  case Nil
  then show ?case by (simp add: fun_eq_iff)
next
  case (Cons x xs)
  obtain c1 ec1 where st: "mwt_exclude_step learn x (c, ec) = (c1, ec1)" by fastforce
  have cfg: "mwt_cfg c1 = mwt_cfg c" using exclude_step_cfg [of learn x c ec] st by simp
  have ns1: "mw_namespaces c1 = mw_namespaces c" using cfg by (simp add: mwt_cfg_def)
  have rm: "\<And>fs. mwt_remap c1 fs = mwt_remap c fs" using mwt_cfg_remap [OF cfg] by simp
  have x: "x \<notin> set xs" using Cons.prems by simp
  have IH: "ex_feature_space (snd (fold (mwt_exclude_step learn) xs (c1, ec1))) =
           (\<lambda>ns. if ns \<in> set xs \<and> mw_namespaces c ns then
                   (if learn then mwt_remap c1 (ex_feature_space ec1 ns) else mw_feature_space c1 ns)
                 else ex_feature_space ec1 ns) \<and>
         mw_feature_space (fst (fold (mwt_exclude_step learn) xs (c1, ec1))) =
           (\<lambda>ns. if ns \<in> set xs \<and> mw_namespaces c ns then ex_feature_space ec1 ns
                 else mw_feature_space c1 ns) \<and>
         mw_indices (fst (fold (mwt_exclude_step learn) xs (c1, ec1))) =
           mw_indices c1 @ filter (mw_namespaces c) xs"
    using ns1 Cons.prems Cons.IH [of c1 ec1] by simp
  have s1: "ex_feature_space ec1 = (if mw_namespaces c x then (ex_feature_space ec)(x :=
              (if learn then mwt_remap c (ex_feature_space ec x) else mw_feature_space c x))
            else ex_feature_space ec)"
    and s2: "mw_feature_space c1 = (if mw_namespaces c x then (mw_feature_space c)(x := ex_feature_space ec x)
            else mw_feature_space c)"
    and s3: "mw_indices c1 = (if mw_namespaces c x then mw_indices c @ [x] else mw_indices c)"
    using st by (auto simp: mwt_exclude_step_def mwt_swap_ns_def Let_def split: if_splits)
  show ?case using IH s1 s2 s3 x st rm by (auto simp: fun_eq_iff)
qed

lemma restore_fs:
  "distinct (mw_indices c) \<Longrightarrow>
   ex_feature_space (snd (mwt_restore (c, ec))) =
     (\<lambda>ns. if ns \<in> set (mw_indices c) then mw_feature_space c ns else ex_feature_space ec ns)"
proof (induction "(c, ec)" arbitrary: c ec rule: mwt_restore.induct)
  case (1 c ec)
  show ?case
  proof (cases "mw_indices c = []")
    case True
    then show ?thesis by (subst mwt_restore.simps) simp
  next
    case False
    let ?l = "last (mw_indices c)" and ?b = "butlast (mw_indices c)"
    have dec: "mw_indices c = ?b @ [?l]" using False by simp
    have nl: "?l \<notin> set ?b" and db: "distinct ?b" using "1.prems" dec by (metis distinct_append distinct1_rotate rotate1.simps(2) not_distinct_conv_prefix)+
    define c1 where "c1 = c\<lparr>mw_indices := ?b, mw_feature_space := (mw_feature_space c)(?l := ex_feature_space ec ?l)\<rparr>"
    define ec1 where "ec1 = ec\<lparr>ex_feature_space := (ex_feature_space ec)(?l := mw_feature_space c ?l)\<rparr>"
    have sw: "mwt_swap_ns ?l (c\<lparr>mw_indices := ?b\<rparr>, ec) = (c1, ec1)"
      by (simp add: mwt_swap_ns_def c1_def ec1_def)
    have ih: "ex_feature_space (snd (mwt_restore (c1, ec1))) =
       (\<lambda>ns. if ns \<in> set ?b then mw_feature_space c1 ns else ex_feature_space ec1 ns)"
      using "1.hyps" [OF False sw] db by (simp add: c1_def)
    have r: "mwt_restore (c, ec) = mwt_restore (c1, ec1)"
      using False sw by (subst mwt_restore.simps) simp
    have si: "set (mw_indices c) = insert ?l (set ?b)" by (subst dec) auto
    show ?thesis
      unfolding r ih
    proof (rule ext)
      fix ns
      show "(if ns \<in> set ?b then mw_feature_space c1 ns else ex_feature_space ec1 ns) =
            (if ns \<in> set (mw_indices c) then mw_feature_space c ns else ex_feature_space ec ns)"
        using nl si by (cases "ns = ?l") (simp_all add: c1_def ec1_def)
    qed
  qed
qed

lemma unat_drop_bit_group_mask:
  assumes "0 < unat (w :: 'a::len word)" and "unat w * 2 ^ s < 2 ^ LENGTH('a)"
  shows "unat (drop_bit s (push_bit s w - 1)) < unat w"
proof -
  have p: "unat (push_bit s w) = unat w * 2 ^ s" using unat_push_bit_small [OF assms(2)] .
  then have nz: "push_bit s w \<noteq> 0" using assms(1) by (metis mult_is_0 not_gr0 power_not_zero unsigned_0 zero_neq_numeral)
  have "unat (push_bit s w - 1) = unat w * 2 ^ s - 1" using p nz by (simp add: unat_minus_one)
  moreover have "(unat w * 2 ^ s - 1) div 2 ^ s < unat w"
    using assms(1) by (simp add: less_mult_imp_div_less)
  ultimately show ?thesis by (simp only: unat_drop_bit_eq) (simp add: drop_bit_eq_div)
qed

lemmas mwt_eval_simps = mwt_predict_or_learn_def mwt_setup_def mwt_observe_def
  get_observed_cost_cb_def has_observed_cost_def flt_max_def get_cost_estimate_def
  record_policies_def value_policies_def value_policy_def accrue_costs_def policy_data_default_def
  mwt_exclude_def mwt_exclude_step_def mwt_swap_ns_def mwt_remap_def policy_index_def
  mask_def stride_shift_def mwt_restore.simps mwt_scalars_def float_to_word_def Let_def

lemma ex_mwt_inv: "mwt_inv ex_mwt"
  by (simp add: mwt_setup_def mwt_inv_def mwt_table_ok_def policy_index_def mask_def
      stride_shift_def policy_data_default_def)

lemma mwt_cfg_policies: "mwt_cfg c' = mwt_cfg c \<Longrightarrow> mw_policies c' = mw_policies c"
  by (simp add: mwt_cfg_def)

lemma mwt_cfg_namespaces: "mwt_cfg c' = mwt_cfg c \<Longrightarrow> mw_namespaces c' = mw_namespaces c"
  by (simp add: mwt_cfg_def)

text \<open>
  C2: On a state satisfying the policy-table invariant, \<open>predict_or_learn\<close> is defined for
  every flag combination, base learner and example (no index of \<open>evals\<close> is out of
  range), keeps the invariant, and only extends the discovery list.
\<close>

theorem mwt_predict_or_learn_inv:
  assumes inv: "mwt_inv c"
  shows "\<exists>c' ec' r. mwt_predict_or_learn learn exclude is_learn base c ec = Inr (c', ec', r) \<and>
    mwt_inv c' \<and> prefix (mw_policies c) (mw_policies c')"
proof -
  obtain c1 c2 ec2 ec3 err c4 ec4 where o1: "mwt_observe c ec = Inr c1" and inv1: "mwt_inv c1"
    and p1: "prefix (mw_policies c) (mw_policies c1)"
    and e2: "(if exclude \<or> learn then mwt_exclude learn c1 ec else (c1, ec)) = (c2, ec2)"
    and e3: "(if learn then base is_learn ec2 else (ec2, None)) = (ec3, err)"
    and e4: "(if exclude \<or> learn then mwt_restore (c2, ec3) else (c2, ec3)) = (c4, ec4)"
    and cfg2: "mwt_cfg c2 = mwt_cfg c1" and cfg4: "mwt_cfg c4 = mwt_cfg c1"
    by (rule mwt_handler_stages [OF inv])
  note run = mwt_handler_unfold [where learn = learn and exclude = exclude and base = base and is_learn = is_learn, OF o1 e2 e3 e4]
  have inv2: "mwt_inv c2" and inv4: "mwt_inv c4"
    using inv1 mwt_cfg_inv [OF cfg2] mwt_cfg_inv [OF cfg4] by simp_all
  have "prefix (mw_policies c) (mw_policies c2)" and "prefix (mw_policies c) (mw_policies c4)"
    using p1 mwt_cfg_policies [OF cfg2] mwt_cfg_policies [OF cfg4] by simp_all
  then show ?thesis
    using run inv2 inv4 mwt_scalars_ok [OF inv4, of learn ec4] by (cases err) auto
qed

theorem mwt_predict_or_learn_inv_witness:
  "\<exists>c' ec' r. mwt_predict_or_learn True False True (\<lambda>b x. (x, None)) ex_mwt
      (ex_mwt_example [97] [(3, 5)]) = Inr (c', ec', r) \<and>
    mwt_inv c' \<and> prefix (mw_policies ex_mwt) (mw_policies c')"
  by (rule mwt_predict_or_learn_inv) (rule ex_mwt_inv)

text \<open>
  C4: On a state satisfying the invariant, a call that returns emits no NaN or infinity:
  the scalars are exactly the base's class (in learn mode) followed by, for each policy in
  discovery order, its accrued cost divided by the observation count, all finite.
\<close>

theorem mwt_outputs_finite:
  assumes inv: "mwt_inv c"
    and run: "mwt_predict_or_learn learn exclude is_learn base c ec = Inr (c', ec', None)"
  shows "pp_scalars (ex_pred ec') =
    (if learn then [Some (real (unat (pp_multiclass (ex_pred ec'))))] else []) @
    map (\<lambda>p. Some (pd_cost (mw_evals c' ! unat p) / mw_total c')) (mw_policies c')"
proof -
  obtain c1 c2 ec2 ec3 err c4 ec4 where o1: "mwt_observe c ec = Inr c1" and inv1: "mwt_inv c1"
    and e2: "(if exclude \<or> learn then mwt_exclude learn c1 ec else (c1, ec)) = (c2, ec2)"
    and e3: "(if learn then base is_learn ec2 else (ec2, None)) = (ec3, err)"
    and e4: "(if exclude \<or> learn then mwt_restore (c2, ec3) else (c2, ec3)) = (c4, ec4)"
    and cfg4: "mwt_cfg c4 = mwt_cfg c1"
    by (rule mwt_handler_stages [OF inv])
  have inv4: "mwt_inv c4" using inv1 mwt_cfg_inv [OF cfg4] by simp
  have "err = None" and "c' = c4" and "ec' = ec4\<lparr>ex_pred := (ex_pred ec4)\<lparr>pp_scalars :=
      (if learn then [Some (real (unat (pp_multiclass (ex_pred ec4))))] else []) @
      map (\<lambda>p. Some (pd_cost (mw_evals c4 ! unat p) / mw_total c4)) (mw_policies c4)\<rparr>\<rparr>"
    using run mwt_handler_unfold [where learn = learn and exclude = exclude and base = base and is_learn = is_learn, OF o1 e2 e3 e4] mwt_scalars_ok [OF inv4, of learn ec4]
    by (auto split: option.splits)
  then show ?thesis by simp
qed

theorem mwt_outputs_finite_witness:
  "\<exists>c' ec'. mwt_predict_or_learn True False True (\<lambda>b x. (x, None)) ex_mwt
      (ex_mwt_example [97] [(3, 5)]) = Inr (c', ec', None) \<and>
    pp_scalars (ex_pred ec') =
      [Some (real (unat (pp_multiclass (ex_pred ec'))))] @
      map (\<lambda>p. Some (pd_cost (mw_evals c' ! unat p) / mw_total c')) (mw_policies c') \<and>
    pp_scalars (ex_pred ec') = [Some 1, Some 0]"
proof -
  obtain c' ec' where run: "mwt_predict_or_learn True False True (\<lambda>b x. (x, None)) ex_mwt
      (ex_mwt_example [97] [(3, 5)]) = Inr (c', ec', None)" and out: "pp_scalars (ex_pred ec') = [Some 1, Some 0]"
    by (simp add: mwt_eval_simps)
  show ?thesis using mwt_outputs_finite [OF ex_mwt_inv run] run out by simp
qed

text \<open>
  C5: When the example lists each namespace at most once and the base leaves feature
  spaces alone, a call that returns restores the example's feature spaces exactly, in
  every mode, after remapping or excluding the evaluated namespaces for the base.
\<close>

theorem mwt_restores_features:
  assumes inv: "mwt_inv c" and d: "distinct (ex_indices ec)"
    and keeps: "\<And>b x. ex_feature_space (fst (base b x)) = ex_feature_space x"
    and run: "mwt_predict_or_learn learn exclude is_learn base c ec = Inr (c', ec', None)"
  shows "ex_feature_space ec' = ex_feature_space ec"
proof -
  obtain c1 c2 ec2 ec3 err c4 ec4 where o1: "mwt_observe c ec = Inr c1"
    and e2: "(if exclude \<or> learn then mwt_exclude learn c1 ec else (c1, ec)) = (c2, ec2)"
    and e3: "(if learn then base is_learn ec2 else (ec2, None)) = (ec3, err)"
    and e4: "(if exclude \<or> learn then mwt_restore (c2, ec3) else (c2, ec3)) = (c4, ec4)"
    by (rule mwt_handler_stages [OF inv])
  have out: "ex_feature_space ec' = ex_feature_space ec4"
    using run mwt_handler_unfold [where learn = learn and exclude = exclude and base = base and is_learn = is_learn, OF o1 e2 e3 e4] by (auto split: option.splits sum.splits)
  have fs3: "ex_feature_space ec3 = ex_feature_space ec2"
    using e3 keeps [of is_learn ec2] by (auto split: if_splits)
  show ?thesis
  proof (cases "exclude \<or> learn")
    case True
    let ?c0 = "c1\<lparr>mw_indices := []\<rparr>"
    have x: "(c2, ec2) = fold (mwt_exclude_step learn) (ex_indices ec) (?c0, ec)"
      using e2 True by (simp add: mwt_exclude_def)
    note ch = exclude_fold_fs [OF d, of learn ?c0 ec]
    have i2: "mw_indices c2 = filter (mw_namespaces c1) (ex_indices ec)"
      using ch x [symmetric] by simp
    have r: "ex_feature_space ec4 =
        (\<lambda>ns. if ns \<in> set (mw_indices c2) then mw_feature_space c2 ns else ex_feature_space ec3 ns)"
      using e4 True restore_fs [of c2 ec3] i2 d by simp
    show ?thesis using out r fs3 ch x [symmetric] i2 by (auto simp: fun_eq_iff)
  next
    case False
    then show ?thesis using out e2 e3 e4 by simp
  qed
qed

theorem mwt_restores_features_witness:
  "\<exists>c' ec'. mwt_predict_or_learn True False True (\<lambda>b x. (x, None)) ex_mwt
      (ex_mwt_example [97] [(3, 5)]) = Inr (c', ec', None) \<and>
    ex_feature_space ec' = ex_feature_space (ex_mwt_example [97] [(3, 5)])"
proof -
  obtain c' ec' where run: "mwt_predict_or_learn True False True (\<lambda>b x. (x, None)) ex_mwt
      (ex_mwt_example [97] [(3, 5)]) = Inr (c', ec', None)"
    by (simp add: mwt_eval_simps)
  have "ex_feature_space ec' = ex_feature_space (ex_mwt_example [97] [(3, 5)])"
    by (rule mwt_restores_features [OF ex_mwt_inv _ _ run]) simp_all
  then show ?thesis using run by blast
qed

text \<open>
  C28: The feature swap has no scope guard: when the base raises in learn mode, the
  exception propagates with every evaluated namespace of the example still holding the
  remapped features and the stash of swapped namespaces still full.
\<close>

theorem mwt_base_failure_leaves_remapped:
  assumes inv: "mwt_inv c" and d: "distinct (ex_indices ec)"
    and ns: "ns \<in> set (ex_indices ec)" and ev: "mw_namespaces c ns"
    and keeps: "\<And>b x. ex_feature_space (fst (base b x)) = ex_feature_space x"
    and fails: "\<And>x. snd (base is_learn x) = Some e"
  shows "\<exists>c' ec'. mwt_predict_or_learn True exclude is_learn base c ec = Inr (c', ec', Some e) \<and>
    ex_feature_space ec' ns = mwt_remap c (ex_feature_space ec ns) \<and> ns \<in> set (mw_indices c')"
proof -
  obtain c1 c2 ec2 ec3 err c4 ec4 where o1: "mwt_observe c ec = Inr c1"
    and e2: "(if exclude \<or> True then mwt_exclude True c1 ec else (c1, ec)) = (c2, ec2)"
    and e3: "(if True then base is_learn ec2 else (ec2, None)) = (ec3, err)"
    and e4: "(if exclude \<or> True then mwt_restore (c2, ec3) else (c2, ec3)) = (c4, ec4)"
    by (rule mwt_handler_stages [OF inv])
  obtain c1' where "mwt_observe c ec = Inr c1'" and "mw_weights c1' = mw_weights c"
    and "mw_namespaces c1' = mw_namespaces c" and "mw_num_classes c1' = mw_num_classes c"
    using mwt_observe_ok [OF inv] by blast
  then have nsc: "mw_namespaces c1 = mw_namespaces c" and rm: "\<And>fs. mwt_remap c1 fs = mwt_remap c fs"
    using o1 by (auto simp: mwt_remap_def policy_index_def)
  have err: "err = Some e" and fs3: "ex_feature_space ec3 = ex_feature_space ec2"
    using e3 fails [of ec2] keeps [of is_learn ec2] by (metis if_True snd_conv fst_conv)+
  have res: "mwt_predict_or_learn True exclude is_learn base c ec = Inr (c2, ec3, Some e)"
    using mwt_handler_unfold [where learn = True and exclude = exclude and base = base
        and is_learn = is_learn, OF o1 e2 e3 e4] err by simp
  let ?c0 = "c1\<lparr>mw_indices := []\<rparr>"
  have x: "(c2, ec2) = fold (mwt_exclude_step True) (ex_indices ec) (?c0, ec)"
    using e2 by (simp add: mwt_exclude_def)
  note ch = exclude_fold_fs [OF d, of True ?c0 ec]
  have "ex_feature_space ec2 ns = mwt_remap c (ex_feature_space ec ns)"
    and "ns \<in> set (mw_indices c2)"
    using ch x [symmetric] ns ev nsc rm by simp_all
  then show ?thesis using res fs3 by auto
qed

theorem mwt_base_failure_leaves_remapped_witness:
  "(\<exists>c' ec'. mwt_predict_or_learn True False True (\<lambda>b x. (x, Some Base_error)) ex_mwt
      (ex_mwt_example [97] [(3, 5)]) = Inr (c', ec', Some Base_error) \<and>
    ex_feature_space ec' 97 = mwt_remap ex_mwt [(3, 5)] \<and> 97 \<in> set (mw_indices c')) \<and>
   mwt_remap ex_mwt [(3, 5)] = [(1, 6)]"
proof -
  have "\<exists>c' ec'. mwt_predict_or_learn True False True (\<lambda>b x. (x, Some Base_error)) ex_mwt
      (ex_mwt_example [97] [(3, 5)]) = Inr (c', ec', Some Base_error) \<and>
    ex_feature_space ec' 97 = mwt_remap ex_mwt (ex_feature_space (ex_mwt_example [97] [(3, 5)]) 97) \<and>
    97 \<in> set (mw_indices c')"
    by (rule mwt_base_failure_leaves_remapped [OF ex_mwt_inv])
       (simp_all add: mwt_setup_def)
  moreover have "mwt_remap ex_mwt [(3, 5)] = [(1, 6)]"
    by (simp add: mwt_eval_simps)
  ultimately show ?thesis by simp
qed

lemma mwt_remap_same:
  "mw_weights c' = mw_weights c \<Longrightarrow> mw_num_classes c' = mw_num_classes c \<Longrightarrow> mwt_remap c' = mwt_remap c"
  by (simp add: mwt_remap_def policy_index_def fun_eq_iff)

text \<open>
  C35: The restore loop is not exact when an example lists a namespace twice: in learn mode
  the second pass of the swap loop remaps the features it has already remapped and
  overwrites the stash, and the two swaps back leave the doubly remapped list in the
  example. Every value of a remapped feature is 1, so no feature of another value comes
  back.
\<close>

theorem mwt_duplicate_namespace_not_restored:
  assumes inv: "mwt_inv c" and ev: "mw_namespaces c ns" and idx: "ex_indices ec = [ns, ns]"
    and keeps: "\<And>b x. ex_feature_space (fst (base b x)) = ex_feature_space x"
    and run: "mwt_predict_or_learn True exclude is_learn base c ec = Inr (c', ec', None)"
  shows "ex_feature_space ec' ns = mwt_remap c (mwt_remap c (ex_feature_space ec ns)) \<and>
    ((\<exists>f\<in>set (ex_feature_space ec ns). fst f \<noteq> 1) \<longrightarrow> ex_feature_space ec' ns \<noteq> ex_feature_space ec ns)"
proof -
  obtain c1 c2 ec2 ec3 err c4 ec4 where o1: "mwt_observe c ec = Inr c1"
    and e2: "(if exclude \<or> True then mwt_exclude True c1 ec else (c1, ec)) = (c2, ec2)"
    and e3: "(if True then base is_learn ec2 else (ec2, None)) = (ec3, err)"
    and e4: "(if exclude \<or> True then mwt_restore (c2, ec3) else (c2, ec3)) = (c4, ec4)"
    by (rule mwt_handler_stages [OF inv])
  have out: "ex_feature_space ec' = ex_feature_space ec4"
    using run mwt_handler_unfold [where learn = True and exclude = exclude and base = base and is_learn = is_learn, OF o1 e2 e3 e4]
    by (auto split: option.splits sum.splits)
  have same: "mw_weights c1 = mw_weights c" "mw_num_classes c1 = mw_num_classes c"
    and ns1: "mw_namespaces c1 ns"
    using mwt_observe_ok [OF inv, of ec] o1 ev by auto
  let ?F = "ex_feature_space ec ns" and ?R = "mwt_remap c"
  have R1: "mwt_remap c1 = ?R" by (rule mwt_remap_same [OF same])
  have R2: "mwt_remap (c1\<lparr>mw_feature_space := f\<rparr>) = ?R" for f
    using R1 by (simp add: mwt_remap_def policy_index_def fun_eq_iff)
  have x2: "mw_indices c2 = [ns, ns] \<and> mw_feature_space c2 ns = ?R ?F \<and>
      ex_feature_space ec2 ns = ?R (?R ?F)"
    using e2 idx ns1 R1 R2 by (auto simp: mwt_exclude_def mwt_exclude_step_def mwt_swap_ns_def Let_def)
  have fs3: "ex_feature_space ec3 = ex_feature_space ec2"
    using e3 keeps [of is_learn ec2] by simp
  have "ex_feature_space ec4 ns = ?R (?R ?F)"
    using e4 x2 fs3 by (auto simp: mwt_restore.simps mwt_swap_ns_def)
  then have eq: "ex_feature_space ec' ns = ?R (?R ?F)" using out by simp
  have ones: "\<forall>f\<in>set (?R xs). fst f = 1" for xs by (auto simp: mwt_remap_def)
  show ?thesis using eq ones [of "?R ?F"] by auto
qed


theorem mwt_duplicate_namespace_not_restored_witness:
  "\<exists>c' ec'. mwt_predict_or_learn True False True (\<lambda>b x. (x, None)) ex_mwt
      (ex_mwt_example [97, 97] [(3, 5)]) = Inr (c', ec', None) \<and>
    ex_feature_space ec' 97 = mwt_remap ex_mwt (mwt_remap ex_mwt [(3, 5)]) \<and>
    ex_feature_space ec' 97 \<noteq> [(3, 5)]"
proof -
  obtain c' ec' where run: "mwt_predict_or_learn True False True (\<lambda>b x. (x, None)) ex_mwt
      (ex_mwt_example [97, 97] [(3, 5)]) = Inr (c', ec', None)"
    by (simp add: mwt_eval_simps)
  have ev: "mw_namespaces ex_mwt 97" by (simp add: mwt_setup_def)
  have idx: "ex_indices (ex_mwt_example [97, 97] [(3, 5)]) = [97, 97]" by simp
  have keeps: "\<And>b x. ex_feature_space (fst ((\<lambda>b x. (x, None :: error option)) b x)) = ex_feature_space x"
    by simp
  note th = mwt_duplicate_namespace_not_restored [OF ex_mwt_inv ev idx keeps run]
  have fs: "ex_feature_space (ex_mwt_example [97, 97] [(3, 5)]) 97 = [(3, 5)]" by simp
  have ex1: "\<exists>f\<in>set (ex_feature_space (ex_mwt_example [97, 97] [(3, 5)]) 97). fst f \<noteq> 1" by simp
  have a: "ex_feature_space ec' 97 =
      mwt_remap ex_mwt (mwt_remap ex_mwt (ex_feature_space (ex_mwt_example [97, 97] [(3, 5)]) 97))"
    and b: "ex_feature_space ec' 97 \<noteq> ex_feature_space (ex_mwt_example [97, 97] [(3, 5)]) 97"
    using th ex1 by blast+
  show ?thesis using a b run unfolding fs by blast
qed

text \<open>
  C24: Setup over the workspace's weight store keeps every policy index in range: when
  the store is built by \<open>dense_parameters(length, stride_shift)\<close> without overflow
  and \<open>evals\<close> gets \<open>length\<close> entries, the initial state satisfies the invariant,
  since \<open>(index & mask) >> stride_shift\<close> is below \<open>length\<close> for every index.
\<close>

theorem mwt_setup_inv:
  assumes new: "dense_parameters_new len ss m = Inr (d, m')" and pos: "0 < unat len"
    and fit: "unat len * 2 ^ unat ss < 2 ^ 64"
  shows "mwt_inv (fst (mwt_setup s num_classes exclude_eval (unat len) d))"
proof -
  have "weight_mask d = push_bit (unat ss) len - 1" and "dp_stride_shift d = ss"
    using new by (auto simp: dense_parameters_new_def Let_def split: sum.splits)
  moreover have "unat (drop_bit (unat ss) (push_bit (unat ss) len - 1)) < unat len"
    using unat_drop_bit_group_mask [OF pos] fit by simp
  ultimately show ?thesis
    by (simp add: mwt_setup_def mwt_inv_def mwt_table_ok_def policy_index_def mask_def stride_shift_def
        policy_data_default_def Let_def)
qed

theorem mwt_setup_inv_witness:
  "mwt_inv (fst (mwt_setup ''a'' 2 False (unat (2::u64)) (ex_dense\<lparr>dp_begin := Some 1\<rparr>)))"
proof -
  have new: "dense_parameters_new 2 1 (ex_mem\<lparr>avail := 8\<rparr>) =
     Inr (ex_dense\<lparr>dp_begin := Some 1\<rparr>,
          ex_mem\<lparr>bufs := [0 \<mapsto> [1, 2, 3, 4], 1 \<mapsto> replicate 4 0], next_buf := 2, avail := 4\<rparr>)"
    by (simp add: dense_parameters_new_def calloc_mergable_or_throw_def fun_upd_twist)
  show ?thesis by (rule mwt_setup_inv [OF new]) simp_all
qed

subsection \<open>Persistence round trip\<close>

lemma policy_data_eta [simp]: "\<lparr>pd_cost = pd_cost x, pd_action = pd_action x, pd_seen = pd_seen x\<rparr> = x"
  by (cases x) simp

lemma save_policies_write:
  "\<forall>p\<in>set ps. unat p < length evals \<Longrightarrow>
   fold_err (mwt_save_load_policy False False) ps (evals, io) =
     Inr (evals, io\<lparr>io_data := io_data io @ concat (map (policy_fields evals) ps)\<rparr>)"
  by (induction ps arbitrary: io) (simp_all add: mwt_save_load_policy_def policy_fields_def)

lemma save_policies_read:
  assumes "\<forall>p\<in>set ps. unat p < length evals \<and> unat p < length src"
  shows "\<exists>evals'. fold_err (mwt_save_load_policy True False) ps
      (evals, io\<lparr>io_data := concat (map (policy_fields src) ps) @ rest\<rparr>) = Inr (evals', io\<lparr>io_data := rest\<rparr>) \<and>
    length evals' = length evals \<and> (\<forall>p\<in>set ps. evals' ! unat p = src ! unat p) \<and>
    (\<forall>i. i \<notin> unat ` set ps \<longrightarrow> evals' ! i = evals ! i)"
  using assms
proof (induction ps arbitrary: evals)
  case Nil
  then show ?case by simp
next
  case (Cons p ps)
  let ?e1 = "evals[unat p := src ! unat p]"
  have "\<forall>q\<in>set ps. unat q < length ?e1 \<and> unat q < length src" using Cons.prems by simp
  then obtain evals' where r: "fold_err (mwt_save_load_policy True False) ps
      (?e1, io\<lparr>io_data := concat (map (policy_fields src) ps) @ rest\<rparr>) = Inr (evals', io\<lparr>io_data := rest\<rparr>)"
    and l: "length evals' = length ?e1" and a: "\<forall>q\<in>set ps. evals' ! unat q = src ! unat q"
    and o: "\<forall>i. i \<notin> unat ` set ps \<longrightarrow> evals' ! i = ?e1 ! i"
    using Cons.IH by blast
  have step: "mwt_save_load_policy True False p
      (evals, io\<lparr>io_data := concat (map (policy_fields src) (p # ps)) @ rest\<rparr>) =
      Inr (?e1, io\<lparr>io_data := concat (map (policy_fields src) ps) @ rest\<rparr>)"
    using Cons.prems by (simp add: mwt_save_load_policy_def policy_fields_def)
  have "evals' ! unat p = src ! unat p"
  proof (cases "unat p \<in> unat ` set ps")
    case True
    then show ?thesis using a by auto
  next
    case False
    then show ?thesis using o Cons.prems by simp
  qed
  then have "\<forall>q\<in>set (p # ps). evals' ! unat q = src ! unat q" using a by simp
  moreover have "\<forall>i. i \<notin> unat ` set (p # ps) \<longrightarrow> evals' ! i = evals ! i"
    using o by (auto simp: nth_list_update)
  ultimately show ?case using step r l by simp
qed

text \<open>
  C8: The policy table survives a binary save and load, as the spec requires: writing a
  state that satisfies the invariant to an empty model file and reading it into a state
  with a policy table of the same size restores the observation count, the discovery list
  in order, and every policy's \<open>(cost, action, seen)\<close>, consuming exactly what was
  written.
\<close>

theorem mwt_save_load_roundtrip:
  assumes inv: "mwt_inv c" and n: "length (mw_policies c) < 2 ^ 64"
    and files: "0 < io_num_files io" and empty: "io_data io = []"
  shows "\<exists>io'. mwt_save_load c io False False = Inr (c, io') \<and>
    (\<forall>c0. length (mw_evals c0) = length (mw_evals c) \<longrightarrow>
       (\<exists>c0'. mwt_save_load c0 io' True False = Inr (c0', io) \<and>
          mw_total c0' = mw_total c \<and> mw_policies c0' = mw_policies c \<and>
          (\<forall>p\<in>set (mw_policies c). mw_evals c0' ! unat p = mw_evals c ! unat p)))"
proof -
  let ?ps = "mw_policies c" and ?ev = "mw_evals c"
  have rng: "\<forall>p\<in>set ?ps. unat p < length ?ev" using inv by (simp add: mwt_inv_def mwt_table_ok_def)
  let ?d = "[MF_double (mw_total c), MF_u64 (of_nat (length ?ps))] @ map MF_u64 ?ps @
            concat (map (policy_fields ?ev) ?ps)"
  have w: "mwt_save_load c io False False = Inr (c, io\<lparr>io_data := ?d\<rparr>)"
    using files empty save_policies_write [OF rng, of "io\<lparr>io_data := [MF_double (mw_total c),
        MF_u64 (of_nat (length ?ps))] @ map MF_u64 ?ps\<rparr>"]
    by (simp add: mwt_save_load_def Let_def)
  have "\<forall>c0. length (mw_evals c0) = length ?ev \<longrightarrow>
       (\<exists>c0'. mwt_save_load c0 (io\<lparr>io_data := ?d\<rparr>) True False = Inr (c0', io) \<and>
          mw_total c0' = mw_total c \<and> mw_policies c0' = ?ps \<and>
          (\<forall>p\<in>set ?ps. mw_evals c0' ! unat p = ?ev ! unat p))"
  proof (intro allI impI)
    fix c0 :: mwt assume l0: "length (mw_evals c0) = length ?ev"
    have un: "unat (of_nat (length ?ps) :: u64) = length ?ps" using n by (simp add: unsigned_of_nat take_bit_nat_eq_self)
    have rs: "length (resize_stl (mw_policies c0) (length ?ps)) = length ?ps"
      by (simp add: resize_stl_def)
    have arr: "bin_text_read_write_array_validated mf_u64 MF_u64
        (io\<lparr>io_data := map MF_u64 ?ps @ concat (map (policy_fields ?ev) ?ps)\<rparr>) True False
        (resize_stl (mw_policies c0) (length ?ps)) =
        Inr (?ps, io\<lparr>io_data := concat (map (policy_fields ?ev) ?ps)\<rparr>)"
      by (rule rw_array_read) (simp_all add: rs)
    obtain evals' where f: "fold_err (mwt_save_load_policy True False) ?ps
        (mw_evals c0, io\<lparr>io_data := concat (map (policy_fields ?ev) ?ps) @ []\<rparr>) = Inr (evals', io\<lparr>io_data := []\<rparr>)"
      and e: "\<forall>p\<in>set ?ps. evals' ! unat p = ?ev ! unat p"
      using save_policies_read [where ps = ?ps and evals = "mw_evals c0" and src = ?ev and io = io and rest = "[]"] rng l0 by auto
    have "mwt_save_load c0 (io\<lparr>io_data := ?d\<rparr>) True False =
        Inr (c0\<lparr>mw_total := mw_total c, mw_policies := ?ps, mw_evals := evals'\<rparr>, io)"
      using files empty un arr f by (simp add: mwt_save_load_def bin_text_read_write_fixed_validated_def)
    then show "\<exists>c0'. mwt_save_load c0 (io\<lparr>io_data := ?d\<rparr>) True False = Inr (c0', io) \<and>
          mw_total c0' = mw_total c \<and> mw_policies c0' = ?ps \<and>
          (\<forall>p\<in>set ?ps. mw_evals c0' ! unat p = ?ev ! unat p)"
      using e by auto
  qed
  then show ?thesis using w by blast
qed

lemma all_less_2: "(\<forall>i<Suc (Suc 0). P i) = (P 0 \<and> P 1)"
  by (auto simp: less_Suc_eq)

theorem mwt_save_load_roundtrip_witness:
  "\<exists>io'. mwt_save_load ex_mwt_saved \<lparr>io_num_files = 1, io_data = []\<rparr> False False = Inr (ex_mwt_saved, io') \<and>
    (\<forall>c0. length (mw_evals c0) = length (mw_evals ex_mwt_saved) \<longrightarrow>
       (\<exists>c0'. mwt_save_load c0 io' True False = Inr (c0', \<lparr>io_num_files = 1, io_data = []\<rparr>) \<and>
          mw_total c0' = mw_total ex_mwt_saved \<and> mw_policies c0' = mw_policies ex_mwt_saved \<and>
          (\<forall>p\<in>set (mw_policies ex_mwt_saved). mw_evals c0' ! unat p = mw_evals ex_mwt_saved ! unat p)))"
  by (rule mwt_save_load_roundtrip)
     (simp_all add: mwt_setup_def mwt_inv_def mwt_table_ok_def policy_index_def mask_def stride_shift_def
       policy_data_default_def all_less_2)

lemma mwt_observe_unlabelled:
  "\<not> fst (get_observed_cost_cb (ex_costs ec)) \<Longrightarrow>
   mwt_observe c ec = Inr (c\<lparr>mw_observation := get_observed_cost_cb (ex_costs ec)\<rparr>)"
  by (simp add: mwt_observe_def Let_def)

text \<open>
  C30: The division in the output has no guard of its own: on any state with a consistent
  policy table but an observation count of 0, a call on an unlabelled example over a base
  that does not raise returns and emits NaN for every registered policy. Loading does not
  check the file against the invariant, so such a state comes from a model file with a
  policy and a count of 0, as the witness shows.
\<close>

theorem mwt_loaded_zero_total_emits_nan:
  assumes ok: "mwt_table_ok c" and zero: "mw_total c = 0"
    and unl: "\<not> fst (get_observed_cost_cb (ex_costs ec))"
    and nr: "\<And>b x. snd (base b x) = None"
  shows "\<exists>c' ec'. mwt_predict_or_learn learn exclude is_learn base c ec = Inr (c', ec', None) \<and>
    pp_scalars (ex_pred ec') =
      (if learn then [Some (real (unat (pp_multiclass (ex_pred ec'))))] else []) @
      replicate (length (mw_policies c)) None"
proof -
  let ?c1 = "c\<lparr>mw_observation := get_observed_cost_cb (ex_costs ec)\<rparr>"
  have o1: "mwt_observe c ec = Inr ?c1" by (rule mwt_observe_unlabelled [OF unl])
  obtain c2 ec2 where e2: "(if exclude \<or> learn then mwt_exclude learn ?c1 ec else (?c1, ec)) = (c2, ec2)"
    by fastforce
  have cfg2: "mwt_cfg c2 = mwt_cfg ?c1" using e2 mwt_exclude_cfg_eq [of learn ?c1 ec]
    by (auto split: if_splits)
  obtain ec3 where e3: "(if learn then base is_learn ec2 else (ec2, None)) = (ec3, None)"
  proof (cases learn)
    case True
    then show ?thesis using that nr [of is_learn ec2] by (cases "base is_learn ec2") simp
  qed (use that in simp)
  obtain c4 ec4 where e4: "(if exclude \<or> learn then mwt_restore (c2, ec3) else (c2, ec3)) = (c4, ec4)"
    by fastforce
  have cfg4: "mwt_cfg c4 = mwt_cfg ?c1" using e4 restore_cfg_eq [of c2 ec3] cfg2
    by (auto split: if_splits)
  then have ev: "mw_evals c4 = mw_evals c" and pol: "mw_policies c4 = mw_policies c"
    and tot: "mw_total c4 = 0"
    using zero by (simp_all add: mwt_cfg_def)
  have "map_err (\<lambda>i. case arr_get (mw_evals c4) (unat i) of Inl e \<Rightarrow> Inl e
                     | Inr pd \<Rightarrow> Inr (fdiv (pd_cost pd) (mw_total c4))) (mw_policies c4) =
        Inr (map (\<lambda>_. None) (mw_policies c))"
    unfolding ev pol tot by (rule map_err_map) (use ok in \<open>auto simp: mwt_table_ok_def arr_get_def\<close>)
  then have sc: "mwt_scalars learn c4 ec4 =
      Inr ((if learn then [Some (real (unat (pp_multiclass (ex_pred ec4))))] else []) @
           replicate (length (mw_policies c)) None)"
    by (simp add: mwt_scalars_def map_replicate_const)
  show ?thesis
    using mwt_handler_unfold [where learn = learn and exclude = exclude and base = base and is_learn = is_learn, OF o1 e2 e3 e4] sc
    by simp
qed


theorem mwt_loaded_zero_total_emits_nan_witness:
  "\<exists>c1. mwt_save_load ex_mwt
       \<lparr>io_num_files = 1, io_data = [MF_double 0, MF_u64 1, MF_u64 0, MF_double 2, MF_u32 1, MF_bool True]\<rparr>
       True False = Inr (c1, \<lparr>io_num_files = 1, io_data = []\<rparr>) \<and>
     mwt_table_ok c1 \<and> mw_total c1 = 0 \<and> mw_policies c1 = [0] \<and>
     (\<exists>c2 ec'. mwt_predict_or_learn False False False (\<lambda>b x. (x, None)) c1
        ((ex_mwt_example [] [])\<lparr>ex_costs := []\<rparr>) = Inr (c2, ec', None) \<and>
      pp_scalars (ex_pred ec') = [None])"
proof -
  obtain c1 where load: "mwt_save_load ex_mwt
       \<lparr>io_num_files = 1, io_data = [MF_double 0, MF_u64 1, MF_u64 0, MF_double 2, MF_u32 1, MF_bool True]\<rparr>
       True False = Inr (c1, \<lparr>io_num_files = 1, io_data = []\<rparr>)"
    and ok: "mwt_table_ok c1" and z: "mw_total c1 = 0" and p: "mw_policies c1 = [0]"
    by (simp add: mwt_eval_simps mwt_save_load_def mwt_save_load_policy_def resize_stl_def
        bin_text_read_write_fixed_validated_def bin_text_read_write_array_validated_def mwt_table_ok_def less_2_cases_iff)
  have unl: "\<not> fst (get_observed_cost_cb (ex_costs ((ex_mwt_example [] [])\<lparr>ex_costs := []\<rparr>)))"
    by (simp add: get_observed_cost_cb_def)
  show ?thesis
    using mwt_loaded_zero_total_emits_nan [OF ok z unl, where base = "\<lambda>b x. (x, None)" and learn = False
        and exclude = False and is_learn = False] load ok z p
    by auto
qed

end
