(* ===== verification/MwtRun.thy ===== *)
theory MwtRun
  imports Mwt
begin

text \<open>
  Multiworld testing over a stream of examples: the driver calls
  \<open>predict_or_learn\<close> once per example on the same reduction state, and an exception of
  the base ends the stream. The theory proves that a policy, once observed, is reported
  in every later output.
\<close>

section \<open>Runs\<close>

text \<open>
  \<open>mwt_trace\<close> returns, for every call, the state after it and the scalars it emitted.
  An undefined access and an exception of the base both abort the run.
\<close>

fun mwt_trace ::
  "bool \<Rightarrow> bool \<Rightarrow> single_base \<Rightarrow> mwt \<Rightarrow> (bool \<times> example) list \<Rightarrow> error + (mwt \<times> fval list) list" where
  "mwt_trace learn exclude base c [] = Inr []"
| "mwt_trace learn exclude base c ((is_learn, ec) # rest) =
     (case mwt_predict_or_learn learn exclude is_learn base c ec of
        Inl e \<Rightarrow> Inl e
      | Inr (c', ec', Some e) \<Rightarrow> Inl e
      | Inr (c', ec', None) \<Rightarrow>
          (case mwt_trace learn exclude base c' rest of
             Inl e \<Rightarrow> Inl e
           | Inr tr \<Rightarrow> Inr ((c', pp_scalars (ex_pred ec')) # tr)))"

text \<open>The estimate of policy \<open>p\<close> a state reports.\<close>

definition policy_estimate :: "mwt \<Rightarrow> u64 \<Rightarrow> fval" where
  "policy_estimate c p = Some (pd_cost (mw_evals c ! unat p) / mw_total c)"

section \<open>Discovery\<close>

lemma mwt_cfg_weights: "mwt_cfg c' = mwt_cfg c \<Longrightarrow> mw_weights c' = mw_weights c"
  by (simp add: mwt_cfg_def)

lemma policy_index_weights: "mw_weights c' = mw_weights c \<Longrightarrow> policy_index c' i = policy_index c i"
  by (simp add: policy_index_def)

lemma value_policy_discovers:
  assumes ok: "mwt_table_ok c" and r: "value_policy c v i = Inr c'"
  shows "policy_index c i \<in> set (mw_policies c')"
proof -
  let ?n = "unat (policy_index c i)"
  have n: "?n < length (mw_evals c)" using policy_index_lt [OF ok] .
  show ?thesis
  proof (cases "pd_seen (mw_evals c ! ?n)")
    case True
    then have "?n \<in> unat ` set (mw_policies c)" using ok n by (auto simp: mwt_table_ok_def)
    then obtain x where "x \<in> set (mw_policies c)" and "unat (policy_index c i) = unat x" by blast
    then have "policy_index c i \<in> set (mw_policies c)" by (metis word_unat_eq_iff)
    then show ?thesis using r True n by (auto simp: value_policy_def Let_def)
  next
    case False
    then show ?thesis using r n by (auto simp: value_policy_def Let_def)
  qed
qed

lemma frame_keeps_policy:
  "mwt_frame c t \<Longrightarrow> mwt_frame t t' \<Longrightarrow> mwt_frame c t' \<and> (p \<in> set (mw_policies t) \<longrightarrow> p \<in> set (mw_policies t'))"
  using mwt_frame_trans [of c t t'] by (auto simp: mwt_frame_def prefix_def)

lemma value_policy_step:
  assumes "mwt_table_ok t \<and> mwt_frame c t" and "value_policy t v i = Inr t'"
  shows "(mwt_table_ok t' \<and> mwt_frame c t') \<and> (p \<in> set (mw_policies t) \<longrightarrow> p \<in> set (mw_policies t'))"
  using assms value_policy_ok [of t v i] frame_keeps_policy [of c t t' p] by auto

lemma value_policies_step:
  assumes "mwt_table_ok t \<and> mwt_frame c t" and "value_policies t fs = Inr t'"
  shows "(mwt_table_ok t' \<and> mwt_frame c t') \<and> (p \<in> set (mw_policies t) \<longrightarrow> p \<in> set (mw_policies t'))"
  using assms value_policies_ok [of t fs] frame_keeps_policy [of c t t' p] by auto

lemma value_policies_discovers:
  assumes q: "mwt_table_ok t \<and> mwt_frame c t" and r: "value_policies t fs = Inr t'"
    and f: "(v, i) \<in> set fs"
  shows "policy_index c i \<in> set (mw_policies t')"
proof (rule fold_err_establish [where Q = "\<lambda>t. mwt_table_ok t \<and> mwt_frame c t"])
  show "fold_err (\<lambda>(v, i) c. value_policy c v i) fs t = Inr t'" using r by (simp add: value_policies_def)
  show "(v, i) \<in> set fs" by (rule f)
  show "mwt_table_ok t \<and> mwt_frame c t" by (rule q)
next
  fix y u u' assume qu: "mwt_table_ok u \<and> mwt_frame c u"
    and st: "(\<lambda>(v, i) c. value_policy c v i) y u = Inr u'"
  obtain a b where y: "y = (a, b)" by (cases y)
  have "value_policy u a b = Inr u'" using st y by simp
  then show "(mwt_table_ok u' \<and> mwt_frame c u') \<and>
      (policy_index c i \<in> set (mw_policies u) \<longrightarrow> policy_index c i \<in> set (mw_policies u'))"
    by (rule value_policy_step [OF qu])
next
  fix u u' assume q': "mwt_table_ok u \<and> mwt_frame c u"
    and "(\<lambda>(v, i) c. value_policy c v i) (v, i) u = Inr u'"
  then have "policy_index u i \<in> set (mw_policies u')" using value_policy_discovers [of u v i u'] by simp
  moreover have "policy_index u i = policy_index c i"
    using policy_index_weights [of u c i] q' by (simp add: mwt_frame_def)
  ultimately show "policy_index c i \<in> set (mw_policies u')" by simp
qed

text \<open>
  Recording the policies of an example puts the policy of every feature of every
  evaluated namespace it lists into the discovery list.
\<close>

lemma record_policies_discovers:
  assumes ok: "mwt_table_ok c" and r: "record_policies ec c = Inr c'"
    and ns: "ns \<in> set (ex_indices ec)" "mw_namespaces c ns" and f: "(v, i) \<in> set (ex_feature_space ec ns)"
  shows "policy_index c i \<in> set (mw_policies c')"
proof (rule fold_err_establish [where Q = "\<lambda>t. mwt_table_ok t \<and> mwt_frame c t"])
  show "fold_err (\<lambda>ns c. if mw_namespaces c ns then value_policies c (ex_feature_space ec ns) else Inr c)
      (ex_indices ec) c = Inr c'"
    using r by (simp add: record_policies_def)
  show "ns \<in> set (ex_indices ec)" by (rule ns(1))
  show "mwt_table_ok c \<and> mwt_frame c c" using ok by simp
next
  fix y u u' assume q: "mwt_table_ok u \<and> mwt_frame c u"
    and st: "(if mw_namespaces u y then value_policies u (ex_feature_space ec y) else Inr u) = Inr u'"
  show "(mwt_table_ok u' \<and> mwt_frame c u') \<and>
      (policy_index c i \<in> set (mw_policies u) \<longrightarrow> policy_index c i \<in> set (mw_policies u'))"
  proof (cases "mw_namespaces u y")
    case True
    then have "value_policies u (ex_feature_space ec y) = Inr u'" using st by simp
    then show ?thesis by (rule value_policies_step [OF q])
  next
    case False
    then have "u' = u" using st by simp
    then show ?thesis using q by simp
  qed
next
  fix u u' assume q: "mwt_table_ok u \<and> mwt_frame c u"
    and st: "(if mw_namespaces u ns then value_policies u (ex_feature_space ec ns) else Inr u) = Inr u'"
  have "mw_namespaces u ns" using q ns(2) by (simp add: mwt_frame_def)
  then have "value_policies u (ex_feature_space ec ns) = Inr u'" using st by simp
  then show "policy_index c i \<in> set (mw_policies u')" by (rule value_policies_discovers [OF q _ f])
qed


lemma observe_discovers:
  assumes inv: "mwt_inv c" and obs: "fst (get_observed_cost_cb (ex_costs ec))"
    and ns: "ns \<in> set (ex_indices ec)" "mw_namespaces c ns" and f: "(v, i) \<in> set (ex_feature_space ec ns)"
    and r: "mwt_observe c ec = Inr c1"
  shows "policy_index c i \<in> set (mw_policies c1)"
proof -
  let ?c1 = "c\<lparr>mw_observation := get_observed_cost_cb (ex_costs ec), mw_total := mw_total c + 1\<rparr>"
  have ok1: "mwt_table_ok ?c1" using inv by (simp add: mwt_inv_def)
  obtain c2 where rp: "record_policies ec ?c1 = Inr c2" and ok2: "mwt_table_ok c2"
    using record_policies_ok [OF ok1] by blast
  obtain c3 where a: "accrue_costs (snd (get_observed_cost_cb (ex_costs ec))) c2 = Inr c3"
    and p3: "mw_policies c3 = mw_policies c2"
    using accrue_costs_ok [OF ok2] by blast
  have c13: "c1 = c3" using r obs rp a by (simp add: mwt_observe_def)
  have "policy_index ?c1 i \<in> set (mw_policies c2)"
    by (rule record_policies_discovers [OF ok1 rp ns(1) _ f]) (use ns(2) in simp)
  moreover have "policy_index ?c1 i = policy_index c i" by (simp add: policy_index_def)
  ultimately show ?thesis using c13 p3 by simp
qed

section \<open>One call with a base that does not raise\<close>

lemma mwt_step_ok:
  assumes inv: "mwt_inv c" and nofail: "\<forall>b x. snd (base b x) = None"
  shows "\<exists>c' ec'. mwt_predict_or_learn learn exclude is_learn base c ec = Inr (c', ec', None) \<and>
    mwt_inv c' \<and> prefix (mw_policies c) (mw_policies c') \<and>
    mw_weights c' = mw_weights c \<and> mw_namespaces c' = mw_namespaces c \<and>
    (\<exists>pre. pp_scalars (ex_pred ec') = pre @ map (policy_estimate c') (mw_policies c')) \<and>
    (\<forall>c1. mwt_observe c ec = Inr c1 \<longrightarrow> mw_policies c' = mw_policies c1)"
proof -
  obtain c1 c2 ec2 ec3 err c4 ec4 where o1: "mwt_observe c ec = Inr c1" and inv1: "mwt_inv c1"
    and p1: "prefix (mw_policies c) (mw_policies c1)"
    and e2: "(if exclude \<or> learn then mwt_exclude learn c1 ec else (c1, ec)) = (c2, ec2)"
    and e3: "(if learn then base is_learn ec2 else (ec2, None)) = (ec3, err)"
    and e4: "(if exclude \<or> learn then mwt_restore (c2, ec3) else (c2, ec3)) = (c4, ec4)"
    and cfg4: "mwt_cfg c4 = mwt_cfg c1"
    by (rule mwt_handler_stages [OF inv])
  have err: "err = None"
  proof (cases learn)
    case True
    then have "base is_learn ec2 = (ec3, err)" using e3 by simp
    then show ?thesis using nofail by (metis snd_conv)
  next
    case False
    then show ?thesis using e3 by simp
  qed
  note run = mwt_handler_unfold [where learn = learn and exclude = exclude and base = base
      and is_learn = is_learn, OF o1 e2 e3 e4]
  have inv4: "mwt_inv c4" using inv1 mwt_cfg_inv [OF cfg4] by simp
  obtain c1' where o1': "mwt_observe c ec = Inr c1'" and w1: "mw_weights c1' = mw_weights c"
    and n1: "mw_namespaces c1' = mw_namespaces c"
    using mwt_observe_ok [OF inv, of ec] by blast
  have c1: "c1' = c1" using o1 o1' by simp
  have pol: "mw_policies c4 = mw_policies c1" by (rule mwt_cfg_policies [OF cfg4])
  have w4: "mw_weights c4 = mw_weights c" using mwt_cfg_weights [OF cfg4] w1 c1 by simp
  have n4: "mw_namespaces c4 = mw_namespaces c" using mwt_cfg_namespaces [OF cfg4] n1 c1 by simp
  let ?pre = "if learn then [Some (real (unat (pp_multiclass (ex_pred ec4))))] else []"
  have sc: "mwt_scalars learn c4 ec4 = Inr (?pre @ map (policy_estimate c4) (mw_policies c4))"
    using mwt_scalars_ok [OF inv4, of learn ec4] by (simp add: policy_estimate_def comp_def)
  show ?thesis
    using run err sc inv4 p1 pol w4 n4 o1 by auto
qed

lemma trace_persists:
  assumes "mwt_inv c" and nofail: "\<forall>b x. snd (base b x) = None" and "p \<in> set (mw_policies c)"
  shows "\<exists>tr. mwt_trace learn exclude base c exs = Inr tr \<and> length tr = length exs \<and>
    (\<forall>j<length tr. p \<in> set (mw_policies (fst (tr ! j))) \<and>
       policy_estimate (fst (tr ! j)) p \<in> set (snd (tr ! j)))"
  using assms(1,3)
proof (induction exs arbitrary: c)
  case Nil
  then show ?case by simp
next
  case (Cons x rest)
  obtain il ec where x: "x = (il, ec)" by (cases x)
  obtain c' ec' pre where r: "mwt_predict_or_learn learn exclude il base c ec = Inr (c', ec', None)"
    and inv': "mwt_inv c'" and pf: "prefix (mw_policies c) (mw_policies c')"
    and sc: "pp_scalars (ex_pred ec') = pre @ map (policy_estimate c') (mw_policies c')"
    using mwt_step_ok [OF Cons.prems(1) nofail, of learn exclude il ec] by blast
  have p': "p \<in> set (mw_policies c')" using pf Cons.prems(2) set_mono_prefix by blast
  obtain tr where t: "mwt_trace learn exclude base c' rest = Inr tr" and l: "length tr = length rest"
    and all: "\<forall>j<length tr. p \<in> set (mw_policies (fst (tr ! j))) \<and>
       policy_estimate (fst (tr ! j)) p \<in> set (snd (tr ! j))"
    using Cons.IH [OF inv' p'] by blast
  show ?case
  proof (intro exI conjI allI impI)
    show "mwt_trace learn exclude base c (x # rest) = Inr ((c', pp_scalars (ex_pred ec')) # tr)"
      using x r t by simp
    show "length ((c', pp_scalars (ex_pred ec')) # tr) = length (x # rest)" using l by simp
  next
    fix j assume j: "j < length ((c', pp_scalars (ex_pred ec')) # tr)"
    show "p \<in> set (mw_policies (fst (((c', pp_scalars (ex_pred ec')) # tr) ! j)))"
      using p' all j by (cases j) auto
    show "policy_estimate (fst (((c', pp_scalars (ex_pred ec')) # tr) ! j)) p
        \<in> set (snd (((c', pp_scalars (ex_pred ec')) # tr) ! j))"
      using p' all j sc by (cases j) auto
  qed
qed

section \<open>Observed policies are reported from then on\<close>

text \<open>
  C17: Multiworld testing never forgets a policy: in a run of calls from a state with a
  consistent policy table, over a base that does not raise, the run goes through, and
  once call \<open>k\<close> has seen an observed cost with a feature of an evaluated namespace, the
  policy of that feature is in the discovery list and its estimate is among the emitted
  scalars at call \<open>k\<close> and at every later call.
\<close>

theorem mwt_observed_policy_reported:
  assumes inv: "mwt_inv c" and nofail: "\<forall>b x. snd (base b x) = None"
    and k: "k < length exs" and ek: "exs ! k = (is_learn, ec)"
    and obs: "fst (get_observed_cost_cb (ex_costs ec))"
    and ns: "ns \<in> set (ex_indices ec)" "mw_namespaces c ns"
    and f: "(v, i) \<in> set (ex_feature_space ec ns)"
  shows "\<exists>tr. mwt_trace learn exclude base c exs = Inr tr \<and> length tr = length exs \<and>
    (\<forall>j. k \<le> j \<and> j < length tr \<longrightarrow>
       policy_index c i \<in> set (mw_policies (fst (tr ! j))) \<and>
       policy_estimate (fst (tr ! j)) (policy_index c i) \<in> set (snd (tr ! j)))"
  using inv ns(2) k ek
proof (induction exs arbitrary: c k)
  case Nil
  then show ?case by simp
next
  case (Cons x rest)
  obtain il ec0 where x: "x = (il, ec0)" by (cases x)
  obtain c' ec' pre where r: "mwt_predict_or_learn learn exclude il base c ec0 = Inr (c', ec', None)"
    and inv': "mwt_inv c'" and pf: "prefix (mw_policies c) (mw_policies c')"
    and w': "mw_weights c' = mw_weights c" and n': "mw_namespaces c' = mw_namespaces c"
    and sc: "pp_scalars (ex_pred ec') = pre @ map (policy_estimate c') (mw_policies c')"
    and ob: "\<forall>c1. mwt_observe c ec0 = Inr c1 \<longrightarrow> mw_policies c' = mw_policies c1"
    using mwt_step_ok [OF Cons.prems(1) nofail, of learn exclude il ec0] by blast
  have pi: "policy_index c' i = policy_index c i" by (rule policy_index_weights [OF w'])
  let ?hd = "(c', pp_scalars (ex_pred ec'))"
  show ?case
  proof (cases k)
    case 0
    then have ec0: "ec0 = ec" and il: "il = is_learn" using Cons.prems(4) x by simp_all
    obtain c1 where o1: "mwt_observe c ec = Inr c1" using mwt_observe_ok [OF Cons.prems(1), of ec] by blast
    have "policy_index c i \<in> set (mw_policies c1)"
      by (rule observe_discovers [OF Cons.prems(1) obs ns(1) Cons.prems(2) f o1])
    then have p': "policy_index c i \<in> set (mw_policies c')" using ob o1 ec0 by simp
    obtain tr where t: "mwt_trace learn exclude base c' rest = Inr tr" and l: "length tr = length rest"
      and all: "\<forall>j<length tr. policy_index c i \<in> set (mw_policies (fst (tr ! j))) \<and>
         policy_estimate (fst (tr ! j)) (policy_index c i) \<in> set (snd (tr ! j))"
      using trace_persists [OF inv' nofail p'] by blast
    show ?thesis
    proof (intro exI conjI allI impI)
      show "mwt_trace learn exclude base c (x # rest) = Inr (?hd # tr)" using x r t by simp
      show "length (?hd # tr) = length (x # rest)" using l by simp
    next
      fix j assume "k \<le> j \<and> j < length (?hd # tr)"
      then have j: "j < length (?hd # tr)" by simp
      show "policy_index c i \<in> set (mw_policies (fst ((?hd # tr) ! j)))"
        using p' all j by (cases j) auto
      show "policy_estimate (fst ((?hd # tr) ! j)) (policy_index c i) \<in> set (snd ((?hd # tr) ! j))"
        using p' all j sc by (cases j) auto
    qed
  next
    case (Suc k')
    have "k' < length rest" and "rest ! k' = (is_learn, ec)" using Cons.prems(3,4) Suc by simp_all
    moreover have "mw_namespaces c' ns" using Cons.prems(2) n' by simp
    ultimately obtain tr where t: "mwt_trace learn exclude base c' rest = Inr tr"
      and l: "length tr = length rest"
      and all: "\<forall>j. k' \<le> j \<and> j < length tr \<longrightarrow>
         policy_index c' i \<in> set (mw_policies (fst (tr ! j))) \<and>
         policy_estimate (fst (tr ! j)) (policy_index c' i) \<in> set (snd (tr ! j))"
      using Cons.IH [OF inv'] by blast
    show ?thesis
    proof (intro exI conjI allI impI)
      show "mwt_trace learn exclude base c (x # rest) = Inr (?hd # tr)" using x r t by simp
      show "length (?hd # tr) = length (x # rest)" using l by simp
    next
      fix j assume j: "k \<le> j \<and> j < length (?hd # tr)"
      then obtain j' where j': "j = Suc j'" "k' \<le> j'" "j' < length tr" using Suc by (cases j) auto
      show "policy_index c i \<in> set (mw_policies (fst ((?hd # tr) ! j)))"
        using all j' pi by simp
      show "policy_estimate (fst ((?hd # tr) ! j)) (policy_index c i) \<in> set (snd ((?hd # tr) ! j))"
        using all j' pi by simp
    qed
  qed
qed

theorem mwt_observed_policy_reported_witness:
  "mwt_inv ex_mwt \<and> (\<forall>b x. snd ((\<lambda>b x. (x, None)) b x) = (None :: error option)) \<and>
   0 < length [(True, ex_mwt_example [97] [(3, 5)]), (False, ex_mwt_example [] [])] \<and>
   fst (get_observed_cost_cb (ex_costs (ex_mwt_example [97] [(3, 5)]))) \<and>
   mw_namespaces ex_mwt 97 \<and>
   (\<exists>tr. mwt_trace True False (\<lambda>b x. (x, None)) ex_mwt
          [(True, ex_mwt_example [97] [(3, 5)]), (False, ex_mwt_example [] [])] = Inr tr \<and>
        length tr = length [(True, ex_mwt_example [97] [(3, 5)]), (False, ex_mwt_example [] [])] \<and>
        (\<forall>j. 0 \<le> j \<and> j < length tr \<longrightarrow>
           policy_index ex_mwt 5 \<in> set (mw_policies (fst (tr ! j))) \<and>
           policy_estimate (fst (tr ! j)) (policy_index ex_mwt 5) \<in> set (snd (tr ! j))))"
proof -
  have obs: "fst (get_observed_cost_cb (ex_costs (ex_mwt_example [97] [(3, 5)])))"
    by (simp add: get_observed_cost_cb_def has_observed_cost_def flt_max_def)
  have ns: "mw_namespaces ex_mwt 97" by (simp add: mwt_setup_def Let_def)
  show ?thesis
    using mwt_observed_policy_reported [where c = ex_mwt and base = "\<lambda>b x. (x, None)" and k = 0
        and exs = "[(True, ex_mwt_example [97] [(3, 5)]), (False, ex_mwt_example [] [])]"
        and is_learn = True and ec = "ex_mwt_example [97] [(3, 5)]" and ns = 97 and v = 3 and i = 5
        and learn = True and exclude = False]
      ex_mwt_inv obs ns by (simp del: mwt_trace.simps)
qed

end
