(* ===== verification/MwtOutput.thy ===== *)
theory MwtOutput
  imports Mwt
begin

text \<open>
  What the driver does with the result of a multiworld-testing call: the prediction line
  \<open>MWT::print_scalars\<close> writes to each sink (\<open>output_example_prediction_mwt\<close>), the
  arguments \<open>update_stats_mwt\<close> hands to \<open>shared_data::update\<close>, and the progress line
  of \<open>print_update_mwt\<close>. The lemmas compose these with \<open>predict_or_learn\<close>.
\<close>

unbundle bit_operations_syntax

section \<open>Definitions\<close>

text \<open>
  \<open>MWT::print_scalars\<close>: with a sink, one line of the scalars separated by single spaces,
  then, when the tag is not empty, a space and the tag, then a newline; how a \<open>float\<close>
  is printed by \<open>stringstream\<close> is the parameter \<open>show_float\<close>. Without a sink nothing
  is written (\<open>None\<close>); a short write is only logged.
\<close>

definition print_scalars :: "(fval \<Rightarrow> string) \<Rightarrow> bool \<Rightarrow> fval list \<Rightarrow> string \<Rightarrow> string option" where
  "print_scalars show_float has_sink scalars tag =
     (if \<not> has_sink then None
      else Some (concat (map (\<lambda>i. (if 0 < i then [CHR '' ''] else []) @ show_float (scalars ! i))
                           [0..<length scalars]) @
                 concat (map (\<lambda>i. (if i = 0 then [CHR '' ''] else []) @ [tag ! i]) [0..<length tag]) @
                 [CHR 0x0A]))"

text \<open>
  \<open>output_example_prediction_mwt\<close>: \<open>print_scalars\<close> once per final prediction sink, a
  sink given by whether its writer pointer is non-null.
\<close>

definition output_example_prediction_mwt :: "(fval \<Rightarrow> string) \<Rightarrow> bool list \<Rightarrow> example \<Rightarrow> string option list" where
  "output_example_prediction_mwt show_float sinks ec =
     map (\<lambda>sink. print_scalars show_float sink (pp_scalars (ex_pred ec)) (ex_tag ec)) sinks"

text \<open>
  \<open>update_stats_mwt\<close>: the arguments of \<open>sd.update(test_only, labeled, loss, 1,
  num_features)\<close>. In learn mode with an observed cost the loss is the estimate of the
  action \<open>static_cast<uint32_t>(ec.pred.scalars[0])\<close>; reading \<open>scalars[0]\<close> of an empty
  list, or casting a NaN, is undefined (\<open>Inl\<close>). The feature count is a parameter.
\<close>

definition update_stats_mwt ::
  "mwt \<Rightarrow> example \<Rightarrow> bool \<Rightarrow> nat \<Rightarrow> error + (bool \<times> bool \<times> real \<times> real \<times> nat)" where
  "update_stats_mwt data ec test_only num_features =
     (let labeled = fst (mw_observation data)
      in if mw_learn data \<and> labeled then
           (case pp_scalars (ex_pred ec) of
              [] \<Rightarrow> Inl Out_of_range
            | None # _ \<Rightarrow> Inl Out_of_range
            | Some x # _ \<Rightarrow>
                Inr (test_only, labeled, get_cost_estimate (snd (mw_observation data)) (float_to_word x),
                     1, num_features))
         else Inr (test_only, labeled, 0, 1, num_features))"

text \<open>
  \<open>print_update_mwt\<close>: the progress line is printed when the weighted example count has
  reached the dump interval, the workspace is neither quiet nor running BFGS, and the
  reduction is in learn mode. The result is what is passed to
  \<open>shared_data::print_update\<close>: the label column, the predicted class
  \<open>ec.pred.multiclass\<close> and the feature count (a parameter); \<open>None\<close> prints nothing.
\<close>

definition print_update_mwt ::
  "real \<Rightarrow> real \<Rightarrow> bool \<Rightarrow> bool \<Rightarrow> mwt \<Rightarrow> example \<Rightarrow> nat \<Rightarrow> (string \<times> u32 \<times> nat) option" where
  "print_update_mwt weighted_examples dump_interval quiet bfgs data ec num_features =
     (let should_print_driver_update = dump_interval \<le> weighted_examples \<and> \<not> quiet \<and> \<not> bfgs
      in if should_print_driver_update \<and> mw_learn data then
           Some (if fst (mw_observation data) then ''unknown'' else '' known'',
                 pp_multiclass (ex_pred ec), num_features)
         else None)"

section \<open>The printed line\<close>

lemma tag_loop:
  "concat (map (\<lambda>i. (if i = 0 then [CHR '' ''] else []) @ [t ! i]) [0..<length t]) =
     (if t = [] then [] else CHR '' '' # t)"
proof (cases t)
  case (Cons a u)
  have "concat (map (\<lambda>i. [u ! i]) [0..<length u]) = u"
    using map_nth_upt [of "\<lambda>c. [c]" u] by simp
  then show ?thesis using Cons by (simp add: upt_Suc_0 comp_def del: upt_Suc)
qed simp

text \<open>
  The index loops of \<open>print_scalars\<close> are a join: the first scalar, then each further
  scalar after one space; the tag after one space when it is not empty; then a newline.
\<close>

lemma print_scalars_join:
  "print_scalars show_float True (x # xs) tag =
     Some (show_float x @ concat (map (\<lambda>y. CHR '' '' # show_float y) xs) @
           (if tag = [] then [] else CHR '' '' # tag) @ [CHR 0x0A])"
proof -
  have "concat (map (\<lambda>i. (if 0 < i then [CHR '' ''] else []) @ show_float ((x # xs) ! i))
          [0..<length (x # xs)]) = show_float x @ concat (map (\<lambda>y. CHR '' '' # show_float y) xs)"
    using map_nth_upt [of "\<lambda>y. CHR '' '' # show_float y" xs] by (simp add: upt_Suc_0 comp_def del: upt_Suc)
  then show ?thesis by (simp add: print_scalars_def tag_loop del: upt_Suc)
qed

lemma print_scalars_empty:
  "print_scalars show_float True [] tag = Some ((if tag = [] then [] else CHR '' '' # tag) @ [CHR 0x0A])"
  by (simp add: print_scalars_def tag_loop del: upt_Suc)

section \<open>After a returning call\<close>

lemma fst_get_observed_cost_cb:
  "fst (get_observed_cost_cb costs) \<longleftrightarrow> (\<exists>cl\<in>set costs. has_observed_cost cl)"
proof -
  have "fst (get_observed_cost_cb costs) \<longleftrightarrow> find has_observed_cost costs \<noteq> None"
    by (simp add: get_observed_cost_cb_def split: option.split)
  then show ?thesis by (auto simp: find_None_iff)
qed

lemma mwt_observe_observation:
  assumes inv: "mwt_inv c" and o: "mwt_observe c ec = Inr c1"
  shows "mw_observation c1 = get_observed_cost_cb (ex_costs ec)"
proof (cases "fst (get_observed_cost_cb (ex_costs ec))")
  case True
  let ?c1 = "c\<lparr>mw_observation := get_observed_cost_cb (ex_costs ec), mw_total := mw_total c + 1\<rparr>"
  have ok1: "mwt_table_ok ?c1" using inv by (simp add: mwt_inv_def)
  obtain c2 where r: "record_policies ec ?c1 = Inr c2" and ok2: "mwt_table_ok c2" and f2: "mwt_frame ?c1 c2"
    using record_policies_ok [OF ok1] by blast
  obtain c3 where a: "accrue_costs (snd (get_observed_cost_cb (ex_costs ec))) c2 = Inr c3"
    and f3: "mwt_frame c2 c3"
    using accrue_costs_ok [OF ok2] by blast
  have "c1 = c3" using o True r a by (simp add: mwt_observe_def)
  then show ?thesis using mwt_frame_trans [OF f2 f3] by (simp add: mwt_frame_def)
next
  case False
  then show ?thesis using o by (auto simp: mwt_observe_def)
qed

text \<open>
  A call that returns leaves the observation of its example in the state, keeps the
  mode, and in learn mode emits the base's class as its first scalar.
\<close>

lemma mwt_returning_call:
  assumes inv: "mwt_inv c"
    and run: "mwt_predict_or_learn learn exclude is_learn base c ec = Inr (c', ec', None)"
  shows "mw_observation c' = get_observed_cost_cb (ex_costs ec)" and "mw_learn c' = mw_learn c"
    and "learn \<Longrightarrow> \<exists>rest. pp_scalars (ex_pred ec') = Some (real (unat (pp_multiclass (ex_pred ec')))) # rest"
proof -
  obtain c1 c2 ec2 ec3 err c4 ec4 where o1: "mwt_observe c ec = Inr c1" and inv1: "mwt_inv c1"
    and e2: "(if exclude \<or> learn then mwt_exclude learn c1 ec else (c1, ec)) = (c2, ec2)"
    and e3: "(if learn then base is_learn ec2 else (ec2, None)) = (ec3, err)"
    and e4: "(if exclude \<or> learn then mwt_restore (c2, ec3) else (c2, ec3)) = (c4, ec4)"
    and cfg4: "mwt_cfg c4 = mwt_cfg c1"
    by (rule mwt_handler_stages [OF inv])
  obtain preds where sc: "mwt_scalars learn c4 ec4 = Inr preds" and "err = None" and c': "c' = c4"
    and ec': "ec' = ec4\<lparr>ex_pred := (ex_pred ec4)\<lparr>pp_scalars := preds\<rparr>\<rparr>"
    using run mwt_handler_unfold [where learn = learn and exclude = exclude and base = base and is_learn = is_learn, OF o1 e2 e3 e4]
    by (auto split: option.splits sum.splits)
  have "mw_learn c1 = mw_learn c" using mwt_observe_ok [OF inv, of ec] o1 by auto
  then show "mw_observation c' = get_observed_cost_cb (ex_costs ec)" and "mw_learn c' = mw_learn c"
    using cfg4 mwt_observe_observation [OF inv o1] c' by (simp_all add: mwt_cfg_def)
  show "\<exists>rest. pp_scalars (ex_pred ec') = Some (real (unat (pp_multiclass (ex_pred ec')))) # rest" if learn
    using sc ec' that by (auto simp: mwt_scalars_def split: sum.splits)
qed

section \<open>The driver's view of a call\<close>

text \<open>
  C20: The progress line of a learn-mode call prints the label column \<open>unknown\<close> exactly
  for an example that has an observed cost, and \<open> known\<close> for one without: after a
  returning \<open>predict_or_learn\<close> the state holds the example's observation, and
  \<open>print_update_mwt\<close> tests \<open>optional_observation.first\<close> the wrong way round.
\<close>

theorem mwt_progress_label_inverted:
  assumes inv: "mwt_inv c" and learn: "mw_learn c"
    and run: "mwt_predict_or_learn learn_t exclude is_learn base c ec = Inr (c', ec', None)"
    and shown: "dump_interval \<le> weighted" "\<not> quiet" "\<not> bfgs"
  shows "print_update_mwt weighted dump_interval quiet bfgs c' ec' n =
    Some (if \<exists>cl\<in>set (ex_costs ec). has_observed_cost cl then ''unknown'' else '' known'',
          pp_multiclass (ex_pred ec'), n)"
  using mwt_returning_call(1,2) [OF inv run] learn shown
  by (simp add: print_update_mwt_def fst_get_observed_cost_cb)

theorem mwt_progress_label_inverted_witness:
  "\<exists>c' ec'. mwt_predict_or_learn True False True (\<lambda>b x. (x, None)) ex_mwt
      (ex_mwt_example [97] [(3, 5)]) = Inr (c', ec', None) \<and>
    print_update_mwt 1 1 False False c' ec' 4 = Some (''unknown'', 1, 4)"
proof -
  obtain c' ec' where run: "mwt_predict_or_learn True False True (\<lambda>b x. (x, None)) ex_mwt
      (ex_mwt_example [97] [(3, 5)]) = Inr (c', ec', None)" and cl: "pp_multiclass (ex_pred ec') = 1"
    by (simp add: mwt_eval_simps)
  have learn: "mw_learn ex_mwt" by (simp add: mwt_setup_def)
  show ?thesis
    using mwt_progress_label_inverted [OF ex_mwt_inv learn run, of 1 1 False False 4] run cl
    by (simp add: has_observed_cost_def flt_max_def)
qed

text \<open>
  C19: After a returning learn-mode call, \<open>update_stats_mwt\<close> reports the example as
  labelled exactly when it has an observed cost, and then charges the inverse-propensity
  estimate of that cost on the class the base predicted; an unlabelled example has loss 0.
\<close>

theorem mwt_update_stats_charges_class:
  assumes inv: "mwt_inv c" and learn: "mw_learn c"
    and run: "mwt_predict_or_learn True exclude is_learn base c ec = Inr (c', ec', None)"
  shows "update_stats_mwt c' ec' test_only n =
    (let obs = get_observed_cost_cb (ex_costs ec)
     in Inr (test_only, fst obs,
             if fst obs then get_cost_estimate (snd obs) (pp_multiclass (ex_pred ec')) else 0, 1, n))"
proof -
  obtain rest where sc: "pp_scalars (ex_pred ec') = Some (real (unat (pp_multiclass (ex_pred ec')))) # rest"
    using mwt_returning_call(3) [OF inv run] by blast
  show ?thesis
    using mwt_returning_call(1,2) [OF inv run] learn sc
    by (simp add: update_stats_mwt_def float_to_word_unat Let_def del: of_nat_unat)
qed

theorem mwt_update_stats_charges_class_witness:
  "\<exists>c' ec'. mwt_predict_or_learn True False True (\<lambda>b x. (x, None)) ex_mwt
      (ex_mwt_example [97] [(3, 5)]) = Inr (c', ec', None) \<and>
    update_stats_mwt c' ec' False 1 = Inr (False, True, 2, 1, 1)"
proof -
  obtain c' ec' where run: "mwt_predict_or_learn True False True (\<lambda>b x. (x, None)) ex_mwt
      (ex_mwt_example [97] [(3, 5)]) = Inr (c', ec', None)" and cl: "pp_multiclass (ex_pred ec') = 1"
    by (simp add: mwt_eval_simps)
  have learn: "mw_learn ex_mwt" by (simp add: mwt_setup_def)
  show ?thesis
    using mwt_update_stats_charges_class [OF ex_mwt_inv learn run, of False 1] run cl
    by (simp add: get_observed_cost_cb_def has_observed_cost_def flt_max_def get_cost_estimate_def)
qed

end
