(* ===== verification/Sfm.thy ===== *)
theory Sfm
  imports Protocol
begin

text \<open>
  The shared feature merger, src/vowpalwabbit/core/src/reductions/shared_feature_merger.cc.
  Its state is the class \<open>sfm_data\<close> (the optional metrics, the label type of the parser
  and the large-action-space flag). \<open>sfm_predict_or_learn\<close> is \<open>predict_or_learn\<close>:
  detect a shared header at the front of the group, splice its namespaces into every
  other example, swap its prediction and tag into the first action, call the base on the
  shortened group, and undo everything in the scope guard, which runs whether the base
  returns or raises. As in the other handlers, \<open>Inl\<close> is an undefined access and
  \<open>Inr (data, group, Some e)\<close> an exception leaving the group as shown.
\<close>

record sfm_data =
  sfm_metrics :: "nat option"
  sfm_label_type :: label_type
  sfm_store_shared :: bool

text \<open>The per-example splice of the header and its undo (lines 50-59 and 71-81).\<close>

definition sfm_merge :: "bool \<Rightarrow> example \<Rightarrow> example \<Rightarrow> example" where
  "sfm_merge store shared ex =
     (let ex1 = append_example_namespaces_from_example ex shared
      in if store then ex1\<lparr>ex_shared_ref := True\<rparr> else ex1)"

definition sfm_unmerge :: "bool \<Rightarrow> example \<Rightarrow> example \<Rightarrow> example" where
  "sfm_unmerge store shared ex =
     (let ex1 = truncate_example_namespaces_from_example ex shared
      in if store then ex1\<lparr>ex_shared_ref := False\<rparr> else ex1)"

text \<open>\<open>std::swap\<close> of the \<open>pred\<close> and \<open>tag\<close> fields of two examples.\<close>

definition swap_pred_tag :: "example \<Rightarrow> example \<Rightarrow> example \<times> example" where
  "swap_pred_tag a b =
     (a\<lparr>ex_pred := ex_pred b, ex_tag := ex_tag b\<rparr>, b\<lparr>ex_pred := ex_pred a, ex_tag := ex_tag a\<rparr>)"

text \<open>
  The scope guard (lines 66-86): with a header, truncate every example, swap prediction
  and tag back between the header and the first example, and reinsert the header.
\<close>

definition sfm_restore :: "bool \<Rightarrow> bool \<Rightarrow> example \<Rightarrow> example list \<Rightarrow> error + example list" where
  "sfm_restore has_example_header store shared ec_seq =
     (if has_example_header then
        (case map (sfm_unmerge store shared) ec_seq of
           [] \<Rightarrow> Inl Out_of_range
         | e0 # rest \<Rightarrow>
             (case swap_pred_tag shared e0 of (shared', e0') \<Rightarrow> Inr (shared' # e0' # rest)))
      else Inr ec_seq)"

text \<open>
  The metrics counter counts learn calls on groups with a header that the base completed.
\<close>

definition sfm_count :: "bool \<Rightarrow> bool \<Rightarrow> sfm_data \<Rightarrow> sfm_data" where
  "sfm_count is_learn has_example_header data =
     (case sfm_metrics data of
        None \<Rightarrow> data
      | Some n \<Rightarrow> if is_learn \<and> has_example_header then data\<lparr>sfm_metrics := Some (Suc n)\<rparr> else data)"

definition sfm_predict_or_learn ::
  "bool \<Rightarrow> multi_base \<Rightarrow> sfm_data \<Rightarrow> example list
   \<Rightarrow> error + (sfm_data \<times> example list \<times> error option)" where
  "sfm_predict_or_learn is_learn base data ec_seq =
     (if ec_seq = [] then
        Inr (data, ec_seq,
             Some (Malformed_input ''cb_adf: At least one action must be provided for an example to be valid.''))
      else
        (let store = sfm_store_shared data;
             has_example_header = ec_is_example_header (hd ec_seq) (sfm_label_type data)
         in if has_example_header then
              (let shared = hd ec_seq;
                   seq = map (sfm_merge store shared) (tl ec_seq)
               in case seq of
                    [] \<Rightarrow> Inl Out_of_range
                  | e0 # rest \<Rightarrow>
                      (case swap_pred_tag e0 shared of
                         (e0', shared') \<Rightarrow>
                           (case base is_learn (e0' # rest) of
                              (seq', err) \<Rightarrow>
                                (case sfm_restore True store shared' seq' of
                                   Inl e \<Rightarrow> Inl e
                                 | Inr seq'' \<Rightarrow>
                                     Inr (if err = None then sfm_count is_learn True data else data,
                                          seq'', err)))))
            else
              (case base is_learn ec_seq of
                 (seq', err) \<Rightarrow>
                   Inr (if err = None then sfm_count is_learn False data else data, seq', err))))"

text \<open>\<open>persist\<close>: the metric the reduction reports, when metrics are on.\<close>

definition sfm_persist :: "sfm_data \<Rightarrow> (string \<times> nat) list" where
  "sfm_persist data =
     (case sfm_metrics data of
        None \<Rightarrow> []
      | Some n \<Rightarrow> [(''sfm_count_learn_example_with_shared'', n)])"

text \<open>
  \<open>shared_feature_merger_setup\<close>: the reduction is only inserted above a multiline base
  whose input label type is CB or CS; otherwise the base itself is returned. Metrics are
  kept with \<open>--extra_metrics\<close>, the header is stored in the reduction features with
  \<open>--large_action_space\<close>, and headers are recognised by the parser's label type.
\<close>

datatype sfm_setup_result = Sfm_no_base | Sfm_base_only | Sfm_reduction sfm_data

definition shared_feature_merger_setup ::
  "bool \<Rightarrow> bool \<Rightarrow> label_type option \<Rightarrow> bool \<Rightarrow> label_type \<Rightarrow> sfm_setup_result" where
  "shared_feature_merger_setup extra_metrics large_action_space base_label base_multiline parser_label =
     (case base_label of
        None \<Rightarrow> Sfm_no_base
      | Some lt \<Rightarrow>
          if lt \<notin> {LT_cb, LT_cs} \<or> \<not> base_multiline then Sfm_base_only
          else Sfm_reduction
                 \<lparr>sfm_metrics = (if extra_metrics then Some 0 else None),
                  sfm_label_type = parser_label, sfm_store_shared = large_action_space\<rparr>)"

text \<open>
  Examples for the witnesses: a CB shared header (one cost of probability -1) holding
  namespace 7, an action holding namespace 5, and a base that writes one prediction into
  every example it is given and then raises or returns.
\<close>

abbreviation sfm_ex :: "u8 list \<Rightarrow> (u8 \<Rightarrow> feature list) \<Rightarrow> cb_class list \<Rightarrow> string \<Rightarrow> example" where
  "sfm_ex idx fs costs tag \<equiv>
     \<lparr>ex_indices = idx, ex_feature_space = fs, ex_costs = costs, ex_cs_costs = [],
      ex_pred = \<lparr>pp_scalars = [], pp_multiclass = 0, pp_a_s = []\<rparr>, ex_tag = tag,
      ex_shared_ref = False\<rparr>"

abbreviation sfm_hdr :: example where
  "sfm_hdr \<equiv> sfm_ex [7] ((\<lambda>_. [])(7 := [(1, 70)])) [\<lparr>cb_cost = 0, cb_action = 0, cb_probability = -1\<rparr>] ''h''"

abbreviation sfm_act :: example where
  "sfm_act \<equiv> sfm_ex [5] ((\<lambda>_. [])(5 := [(1, 50)])) [] ''a''"

abbreviation sfm_pred :: polyprediction where
  "sfm_pred \<equiv> \<lparr>pp_scalars = [], pp_multiclass = 0, pp_a_s = [\<lparr>as_action = 0, as_score = 1\<rparr>]\<rparr>"

abbreviation sfm_base :: "error option \<Rightarrow> multi_base" where
  "sfm_base err \<equiv> (\<lambda>b xs. (map2 (\<lambda>x p. x\<lparr>ex_pred := p\<rparr>) xs (replicate (length xs) sfm_pred), err))"

abbreviation sfm_cb :: sfm_data where
  "sfm_cb \<equiv> \<lparr>sfm_metrics = Some 0, sfm_label_type = LT_cb, sfm_store_shared = True\<rparr>"

subsection \<open>Lemmas and properties of the merger\<close>

lemma map_map2_keep:
  "length xs = length ys \<Longrightarrow> (\<And>x y. f (g x y) = f x) \<Longrightarrow> map f (map2 g xs ys) = map f xs"
  by (induction xs ys rule: list_induct2) simp_all

lemma sfm_merge_sel [simp]:
  "ex_pred (sfm_merge store s e) = ex_pred e" "ex_tag (sfm_merge store s e) = ex_tag e"
  by (simp_all add: sfm_merge_def Let_def)

lemma sfm_unmerge_pred_tag [simp]:
  "ex_indices (sfm_unmerge store s (x\<lparr>ex_pred := p, ex_tag := g\<rparr>)) = ex_indices (sfm_unmerge store s x)"
  "ex_feature_space (sfm_unmerge store s (x\<lparr>ex_pred := p, ex_tag := g\<rparr>)) = ex_feature_space (sfm_unmerge store s x)"
  "ex_pred (sfm_unmerge store s x) = ex_pred x" "ex_tag (sfm_unmerge store s x) = ex_tag x"
  "sfm_unmerge store (s\<lparr>ex_pred := p, ex_tag := g\<rparr>) x = sfm_unmerge store s x"
  by (simp_all add: sfm_unmerge_def Let_def)

lemma sfm_unmerge_pred_only [simp]:
  "ex_indices (sfm_unmerge store s (x\<lparr>ex_pred := p\<rparr>)) = ex_indices (sfm_unmerge store s x)"
  "ex_feature_space (sfm_unmerge store s (x\<lparr>ex_pred := p\<rparr>)) = ex_feature_space (sfm_unmerge store s x)"
  using sfm_unmerge_pred_tag(1,2) [where store = store and s = s and x = x and p = p and g = "ex_tag x"]
  by simp_all

lemma sfm_unmerge_merge:
  assumes "distinct (ex_indices s)" "ex_ns_wf e"
  shows "ex_indices (sfm_unmerge store s (sfm_merge store s e)) = ex_indices e \<and>
    ex_feature_space (sfm_unmerge store s (sfm_merge store s e)) = ex_feature_space e"
  using splice_roundtrip [OF assms]
  by (simp add: sfm_unmerge_def sfm_merge_def Let_def)

lemma sfm_header_run:
  assumes hdr: "ec_is_example_header hdr (sfm_label_type data)"
    and b: "base is_learn ((sfm_merge (sfm_store_shared data) hdr e0)\<lparr>ex_pred := ex_pred hdr, ex_tag := ex_tag hdr\<rparr> #
              map (sfm_merge (sfm_store_shared data) hdr) rest) = (x0 # xs, err)"
  shows "sfm_predict_or_learn is_learn base data (hdr # e0 # rest) =
    Inr (if err = None then sfm_count is_learn True data else data,
         hdr\<lparr>ex_pred := ex_pred x0, ex_tag := ex_tag x0\<rparr> #
         (sfm_unmerge (sfm_store_shared data) hdr x0)\<lparr>ex_pred := ex_pred e0, ex_tag := ex_tag e0\<rparr> #
         map (sfm_unmerge (sfm_store_shared data) hdr) xs, err)"
  using hdr b by (simp add: sfm_predict_or_learn_def sfm_restore_def swap_pred_tag_def Let_def)

text \<open>
  C6: For a group whose first example is a shared header, a base that only writes
  predictions, a header listing each namespace once and actions whose listed namespaces
  are exactly their nonempty ones, the merger undoes every splice whether the base returns
  or raises: the header is back in front with its namespaces and tag, every action has its
  own namespaces and features again, and the first action its own prediction and tag.
\<close>

theorem sfm_restores_group:
  assumes hdr: "ec_is_example_header hdr (sfm_label_type data)"
    and d: "distinct (ex_indices hdr)" and wf: "\<forall>e\<in>set (e0 # rest). ex_ns_wf e"
    and base: "\<And>xs. base is_learn xs = (map2 (\<lambda>x p. x\<lparr>ex_pred := p\<rparr>) xs (P xs), E xs)"
    and len: "\<And>xs. length (P xs) = length xs"
  shows "\<exists>data' g err. sfm_predict_or_learn is_learn base data (hdr # e0 # rest) = Inr (data', g, err) \<and>
    map ex_indices g = map ex_indices (hdr # e0 # rest) \<and>
    map ex_feature_space g = map ex_feature_space (hdr # e0 # rest) \<and>
    map ex_tag g = map ex_tag (hdr # e0 # rest) \<and> ex_pred (g ! 1) = ex_pred e0"
proof -
  let ?st = "sfm_store_shared data"
  let ?M = "sfm_merge ?st hdr" and ?U = "sfm_unmerge ?st hdr"
  let ?L = "(?M e0)\<lparr>ex_pred := ex_pred hdr, ex_tag := ex_tag hdr\<rparr> # map ?M rest"
  obtain p0 ps where P: "P ?L = p0 # ps" and lps: "length ps = length rest"
    using len [of ?L] by (cases "P ?L") auto
  have b: "base is_learn ?L = (((?M e0)\<lparr>ex_pred := p0, ex_tag := ex_tag hdr\<rparr>) #
            map2 (\<lambda>x p. x\<lparr>ex_pred := p\<rparr>) (map ?M rest) ps, E ?L)"
    using base [of ?L] P by simp
  note run = sfm_header_run [of hdr data base is_learn e0 rest, OF hdr b]
  have rt: "\<And>e. e \<in> set (e0 # rest) \<Longrightarrow> ex_indices (?U (?M e)) = ex_indices e \<and>
      ex_feature_space (?U (?M e)) = ex_feature_space e"
    using sfm_unmerge_merge [OF d] wf by blast
  let ?R = "map2 (\<lambda>x p. x\<lparr>ex_pred := p\<rparr>) (map ?M rest) ps"
  have rt': "\<forall>e\<in>set rest. ex_indices (?U (?M e)) = ex_indices e \<and>
      ex_feature_space (?U (?M e)) = ex_feature_space e"
    using rt by simp
  have "map (\<lambda>x. ex_indices (?U x)) ?R = map (\<lambda>x. ex_indices (?U x)) (map ?M rest)"
    by (rule map_map2_keep) (simp_all add: lps)
  then have m1: "map ex_indices (map ?U ?R) = map ex_indices rest" using rt' by (simp add: comp_def)
  have "map (\<lambda>x. ex_feature_space (?U x)) ?R = map (\<lambda>x. ex_feature_space (?U x)) (map ?M rest)"
    by (rule map_map2_keep) (simp_all add: lps)
  then have m2: "map ex_feature_space (map ?U ?R) = map ex_feature_space rest" using rt' by (simp add: comp_def)
  have "map (\<lambda>x. ex_tag (?U x)) ?R = map (\<lambda>x. ex_tag (?U x)) (map ?M rest)"
    by (rule map_map2_keep) (simp_all add: lps)
  then have m3: "map ex_tag (map ?U ?R) = map ex_tag rest" by (simp add: comp_def)
  show ?thesis using run m1 m2 m3 rt [of e0] by simp
qed

lemmas sfm_eval_simps = sfm_predict_or_learn_def sfm_restore_def swap_pred_tag_def sfm_merge_def
  sfm_unmerge_def sfm_count_def ec_is_example_header_def append_example_namespaces_from_example_def
  truncate_example_namespaces_from_example_def append_example_namespace_def
  truncate_example_namespace_def constant_namespace_def Let_def

theorem sfm_restores_group_witness:
  "\<exists>data' g err. sfm_predict_or_learn True (sfm_base (Some Base_error)) sfm_cb [sfm_hdr, sfm_act] =
      Inr (data', g, err) \<and>
    map ex_indices g = map ex_indices [sfm_hdr, sfm_act] \<and>
    map ex_feature_space g = map ex_feature_space [sfm_hdr, sfm_act] \<and>
    map ex_tag g = map ex_tag [sfm_hdr, sfm_act] \<and> ex_pred (g ! 1) = ex_pred sfm_act"
  by (rule sfm_restores_group [where P = "\<lambda>xs. replicate (length xs) sfm_pred" and E = "\<lambda>_. Some Base_error"])
     (simp_all add: ec_is_example_header_def ex_ns_wf_def)

text \<open>
  C27: An empty group is rejected with the \<open>cb_adf\<close> malformed-input exception, the
  state and the group untouched.
\<close>

theorem sfm_empty_group_error:
  "sfm_predict_or_learn is_learn base data [] =
     Inr (data, [], Some (Malformed_input ''cb_adf: At least one action must be provided for an example to be valid.''))"
  by (simp add: sfm_predict_or_learn_def)

text \<open>
  C29: A group made of a shared header alone is not handled: after the header is erased,
  \<open>ec_seq[0]\<close> of the empty group is swapped with the header before the emptiness
  test, an out-of-range access.
\<close>

theorem sfm_header_only_faults:
  "ec_is_example_header hdr (sfm_label_type data) \<Longrightarrow>
   sfm_predict_or_learn is_learn base data [hdr] = Inl Out_of_range"
  by (simp add: sfm_predict_or_learn_def Let_def)

theorem sfm_header_only_faults_witness:
  "ec_is_example_header sfm_hdr LT_cb \<and>
   sfm_predict_or_learn True (sfm_base None) sfm_cb [sfm_hdr] = Inl Out_of_range"
proof -
  have h: "ec_is_example_header sfm_hdr (sfm_label_type sfm_cb)" by (simp add: ec_is_example_header_def)
  show ?thesis using sfm_header_only_faults [OF h] h by simp
qed

text \<open>
  A group without a header goes to the base untouched, and the base's examples and
  exception are the result; no metric is counted.
\<close>

theorem sfm_no_header_passthrough:
  "ec_seq \<noteq> [] \<Longrightarrow> \<not> ec_is_example_header (hd ec_seq) (sfm_label_type data) \<Longrightarrow>
   sfm_predict_or_learn is_learn base data ec_seq =
     Inr (data, fst (base is_learn ec_seq), snd (base is_learn ec_seq))"
  by (simp add: sfm_predict_or_learn_def sfm_count_def Let_def split: prod.split option.split)

theorem sfm_no_header_passthrough_witness:
  "[sfm_act] \<noteq> [] \<and> \<not> ec_is_example_header (hd [sfm_act]) LT_cb \<and>
   sfm_predict_or_learn True (sfm_base None) sfm_cb [sfm_act] =
     Inr (sfm_cb, fst (sfm_base None True [sfm_act]), snd (sfm_base None True [sfm_act]))"
proof -
  have h: "\<not> ec_is_example_header (hd [sfm_act]) (sfm_label_type sfm_cb)"
    by (simp add: ec_is_example_header_def)
  show ?thesis using sfm_no_header_passthrough [OF _ h] h by simp
qed

text \<open>
  C31: The metric \<open>count_learn_example_with_shared\<close> counts exactly the learn calls on a
  group with a header that the base completed, and only when metrics are on; the label
  type and the large-action-space flag never change.
\<close>

theorem sfm_metrics_count:
  assumes "sfm_predict_or_learn is_learn base data ec_seq = Inr (data', g, err)"
  shows "sfm_metrics data' =
      map_option (\<lambda>n. if is_learn \<and> err = None \<and> ec_seq \<noteq> [] \<and>
                          ec_is_example_header (hd ec_seq) (sfm_label_type data) then Suc n else n)
        (sfm_metrics data) \<and>
    sfm_label_type data' = sfm_label_type data \<and> sfm_store_shared data' = sfm_store_shared data"
  using assms
  by (auto simp: sfm_predict_or_learn_def sfm_count_def Let_def option.map_ident
      split: if_splits list.splits prod.splits sum.splits option.splits)

theorem sfm_metrics_count_witness:
  "\<exists>g. sfm_predict_or_learn True (sfm_base None) sfm_cb [sfm_hdr, sfm_act] =
      Inr (sfm_cb\<lparr>sfm_metrics := Some 1\<rparr>, g, None) \<and>
    sfm_metrics (sfm_cb\<lparr>sfm_metrics := Some 1\<rparr>) = Some (Suc 0)"
proof -
  obtain g where run: "sfm_predict_or_learn True (sfm_base None) sfm_cb [sfm_hdr, sfm_act] =
      Inr (sfm_cb\<lparr>sfm_metrics := Some 1\<rparr>, g, None)"
    by (simp add: sfm_eval_simps)
  have "sfm_metrics (sfm_cb\<lparr>sfm_metrics := Some 1\<rparr>) = Some (Suc 0)"
    using sfm_metrics_count [OF run] by (simp add: ec_is_example_header_def)
  then show ?thesis using run by blast
qed

text \<open>
  C40: The header does not get its own prediction back: for every header, group and base
  that writes a prediction \<open>p0\<close> into the first example it is given and keeps that
  example's tag, the scope guard hands \<open>p0\<close> to the header, whose tag comes back but
  whose original prediction is lost.
\<close>

theorem sfm_header_takes_base_prediction:
  assumes hdr: "ec_is_example_header hdr (sfm_label_type data)"
    and base: "\<And>xs. xs \<noteq> [] \<Longrightarrow>
      \<exists>y ys err. base is_learn xs = (y # ys, err) \<and> ex_pred y = p0 \<and> ex_tag y = ex_tag (hd xs)"
  shows "\<exists>data' g err. sfm_predict_or_learn is_learn base data (hdr # e0 # rest) = Inr (data', g, err) \<and>
    ex_pred (hd g) = p0 \<and> ex_tag (hd g) = ex_tag hdr"
proof -
  let ?L = "(sfm_merge (sfm_store_shared data) hdr e0)\<lparr>ex_pred := ex_pred hdr, ex_tag := ex_tag hdr\<rparr> #
              map (sfm_merge (sfm_store_shared data) hdr) rest"
  obtain y ys err where b: "base is_learn ?L = (y # ys, err)" and p: "ex_pred y = p0"
    and t: "ex_tag y = ex_tag hdr"
    using base [of ?L] by auto
  show ?thesis using sfm_header_run [of hdr data base is_learn e0 rest, OF hdr b] p t by simp
qed

theorem sfm_header_takes_base_prediction_witness:
  "\<exists>data' g err. sfm_predict_or_learn True (sfm_base None) sfm_cb [sfm_hdr, sfm_act] = Inr (data', g, err) \<and>
     ex_pred (hd g) = sfm_pred \<and> ex_tag (hd g) = ex_tag sfm_hdr \<and> sfm_pred \<noteq> ex_pred sfm_hdr"
proof -
  have hdr: "ec_is_example_header sfm_hdr (sfm_label_type sfm_cb)"
    by (simp add: ec_is_example_header_def)
  have base: "\<exists>y ys err. sfm_base None True xs = (y # ys, err) \<and> ex_pred y = sfm_pred \<and>
      ex_tag y = ex_tag (hd xs)" if "xs \<noteq> []" for xs
    using that by (cases xs) auto
  show ?thesis
    using sfm_header_takes_base_prediction [of sfm_hdr sfm_cb "sfm_base None" True sfm_pred sfm_act "[]",
        OF hdr base]
    by simp
qed

text \<open>
  The merger is put on the stack exactly above a multiline base with CB or CS input
  labels, with the metric counter at 0 when metrics are requested and headers recognised
  by the parser's label type; any other base is returned as it is.
\<close>

theorem sfm_setup_inserts:
  "shared_feature_merger_setup extra_metrics las (Some lt) multiline parser_label = Sfm_reduction d \<longleftrightarrow>
   lt \<in> {LT_cb, LT_cs} \<and> multiline \<and>
   d = \<lparr>sfm_metrics = (if extra_metrics then Some 0 else None), sfm_label_type = parser_label,
        sfm_store_shared = las\<rparr>"
  by (auto simp: shared_feature_merger_setup_def)

end
