(* ===== verification/Options.thy ===== *)
theory Options
  imports Synthcover Mwt
begin

text \<open>
  Option registration of the two exploration reductions and the setup functions that
  consume it. The option store \<open>options_i\<close> lives outside src/ and is modelled from the
  specification: the command line as a map from option names to the strings given for
  them (a switch has the empty string), \<open>was_supplied\<close> as membership, \<open>insert\<close> as an
  update, and a typed \<open>make_option\<close> as a read that parses the string or falls back to
  the option's default. \<open>get_mwt_options_instance\<close> (mwt.cc) and
  \<open>get_cbea_synthcover_options_instance\<close> (cb_explore_adf_synthcover.cc) are
  translated from the source, with the option rewrites they perform on the store.
\<close>

unbundle bit_operations_syntax

section \<open>The option store\<close>

type_synonym options = "string \<rightharpoonup> string"

definition was_supplied :: "options \<Rightarrow> string \<Rightarrow> bool" where
  "was_supplied opts name = (name \<in> dom opts)"

definition options_insert :: "string \<Rightarrow> string \<Rightarrow> options \<Rightarrow> options" where
  "options_insert name v opts = opts(name \<mapsto> v)"

subsection \<open>Decimal values\<close>

text \<open>
  \<open>std::stringstream << n\<close> prints a number in decimal; the option parser reads it back.
  A decimal literal is a nonempty string of the digits \<open>0\<close> to \<open>9\<close>; a float literal
  is an optional minus sign, a decimal literal, and an optional fraction \<open>.digits\<close>.
\<close>

definition digit_char :: "nat \<Rightarrow> char" where
  "digit_char d = char_of (48 + d)"

definition is_digit :: "char \<Rightarrow> bool" where
  "is_digit c = (let k = (of_char c :: nat) in 48 \<le> k \<and> k \<le> 57)"

fun string_of_nat :: "nat \<Rightarrow> string" where
  "string_of_nat n =
     (if n < 10 then [digit_char n] else string_of_nat (n div 10) @ [digit_char (n mod 10)])"

declare string_of_nat.simps [simp del]

fun digits_val :: "nat \<Rightarrow> string \<Rightarrow> nat option" where
  "digits_val acc [] = Some acc"
| "digits_val acc (c # cs) =
     (if is_digit c then digits_val (10 * acc + (of_char c - 48)) cs else None)"

definition nat_of_string :: "string \<Rightarrow> nat option" where
  "nat_of_string s = (if s = [] then None else digits_val 0 s)"

definition real_of_string :: "string \<Rightarrow> real option" where
  "real_of_string s =
     (let (neg, t) = (case s of c # t \<Rightarrow> if c = CHR ''-'' then (True, t) else (False, s)
                                | [] \<Rightarrow> (False, s));
          ip = takeWhile (\<lambda>c. c \<noteq> CHR ''.'') t;
          fp = drop (Suc (length ip)) t
      in case nat_of_string ip of
           None \<Rightarrow> None
         | Some i \<Rightarrow>
             (let frac = (if length ip = length t then Some 0
                          else map_option (\<lambda>f. real f / 10 ^ length fp) (nat_of_string fp))
              in map_option (\<lambda>x. if neg then - (real i + x) else real i + x) frac))"

definition parse_u32 :: "string \<Rightarrow> u32 option" where
  "parse_u32 s = (case nat_of_string s of
                    Some n \<Rightarrow> if n < 2 ^ 32 then Some (of_nat n) else None
                  | None \<Rightarrow> None)"

definition parse_u64 :: "string \<Rightarrow> u64 option" where
  "parse_u64 s = (case nat_of_string s of
                    Some n \<Rightarrow> if n < 2 ^ 64 then Some (of_nat n) else None
                  | None \<Rightarrow> None)"

subsection \<open>Typed options\<close>

text \<open>
  \<open>make_option(name, location)\<close> with an optional \<open>default_value\<close>: a supplied value
  is parsed into the location (a malformed one is an error), an absent one leaves the
  default, which for a location without \<open>default_value\<close> is the value-initialised
  member of the options struct. A \<open>bool\<close> option is a switch.
\<close>

definition read_switch :: "options \<Rightarrow> string \<Rightarrow> bool" where
  "read_switch opts name = was_supplied opts name"

definition read_value ::
  "(string \<Rightarrow> 'a option) \<Rightarrow> options \<Rightarrow> string \<Rightarrow> 'a \<Rightarrow> error + 'a" where
  "read_value parse opts name dflt =
     (case opts name of
        None \<Rightarrow> Inr dflt
      | Some v \<Rightarrow> (case parse v of
                    None \<Rightarrow> Inl (Configuration_error (''bad value for '' @ name))
                  | Some x \<Rightarrow> Inr x))"

section \<open>Options of the multiworld-testing reduction\<close>

text \<open>
  \<open>options_mwt_v1\<close> and \<open>get_mwt_options_instance\<close>: \<open>--multiworld_test\<close> is the
  necessary string option; \<open>--learn n\<close> with \<open>n > 0\<close> turns learn mode on and, when no
  \<open>--cb\<close> was given, inserts \<open>--cb n\<close> (printed by a \<open>stringstream\<close>); whenever
  \<open>--cb\<close> is present afterwards \<open>--cb_force_legacy\<close> is inserted. The result is the
  options struct, or \<open>None\<close> for \<open>nullptr\<close> when the reduction is not enabled,
  together with the option store as the function leaves it.
\<close>

record options_mwt =
  mo_s :: string
  mo_exclude_eval :: bool
  mo_num_classes :: u32
  mo_learn :: bool

definition get_mwt_options_instance :: "options \<Rightarrow> error + (options_mwt option \<times> options)" where
  "get_mwt_options_instance opts =
     (case read_value Some opts ''multiworld_test'' [] of
        Inl e \<Rightarrow> Inl e
      | Inr s \<Rightarrow>
     (case read_value parse_u32 opts ''learn'' 0 of
        Inl e \<Rightarrow> Inl e
      | Inr num_classes \<Rightarrow>
        (let exclude_eval = read_switch opts ''exclude_eval''
         in if \<not> was_supplied opts ''multiworld_test'' then Inr (None, opts)
            else
              (let learn = 0 < num_classes;
                   (opts1, cb_added) =
                     (if 0 < num_classes \<and> \<not> was_supplied opts ''cb''
                      then (options_insert ''cb'' (string_of_nat (unat num_classes)) opts, True)
                      else (opts, False));
                   opts2 = (if was_supplied opts1 ''cb'' \<or> cb_added
                            then options_insert ''cb_force_legacy'' [] opts1 else opts1)
               in Inr (Some \<lparr>mo_s = s, mo_exclude_eval = exclude_eval,
                              mo_num_classes = num_classes, mo_learn = learn\<rparr>, opts2)))))"

text \<open>
  The first lines of \<open>mwt_setup\<close>: read the options, return \<open>nullptr\<close> when the
  reduction is not enabled, and otherwise build the reduction from the parsed values.
\<close>

definition mwt_reduction_setup ::
  "options \<Rightarrow> nat \<Rightarrow> dense_parameters \<Rightarrow> error + ((mwt \<times> bool \<times> bool) option \<times> options)" where
  "mwt_reduction_setup opts len weights =
     (case get_mwt_options_instance opts of
        Inl e \<Rightarrow> Inl e
      | Inr (None, opts') \<Rightarrow> Inr (None, opts')
      | Inr (Some mo, opts') \<Rightarrow>
          Inr (Some (mwt_setup (mo_s mo) (mo_num_classes mo) (mo_exclude_eval mo) len weights), opts'))"

section \<open>Options of the synthetic-cover reduction\<close>

text \<open>
  \<open>options_cbea_synthcover_v1\<close> and \<open>get_cbea_synthcover_options_instance\<close>: the
  necessary switches \<open>--cb_explore_adf\<close> and \<open>--synthcover\<close>, \<open>--epsilon\<close> (default 0),
  \<open>--synthcoverpsi\<close> (default \<open>0.1f\<close>, a real here) and \<open>--synthcoversize\<close>
  (default 100); \<open>--cb_adf\<close> is inserted when absent, and \<open>with_metrics\<close> records
  whether \<open>--extra_metrics\<close> was supplied.
\<close>

record options_cbea_synthcover =
  so_cb_explore_adf :: bool
  so_epsilon :: real
  so_synthcoversize :: u64
  so_use_synthcover :: bool
  so_psi :: real
  so_with_metrics :: bool

definition get_cbea_synthcover_options_instance ::
  "options \<Rightarrow> error + (options_cbea_synthcover option \<times> options)" where
  "get_cbea_synthcover_options_instance opts =
     (case read_value real_of_string opts ''epsilon'' 0 of
        Inl e \<Rightarrow> Inl e
      | Inr epsilon \<Rightarrow>
     (case read_value real_of_string opts ''synthcoverpsi'' (1 / 10) of
        Inl e \<Rightarrow> Inl e
      | Inr psi \<Rightarrow>
     (case read_value parse_u64 opts ''synthcoversize'' 100 of
        Inl e \<Rightarrow> Inl e
      | Inr synthcoversize \<Rightarrow>
        if \<not> (was_supplied opts ''cb_explore_adf'' \<and> was_supplied opts ''synthcover'')
        then Inr (None, opts)
        else
          (let opts1 = (if \<not> was_supplied opts ''cb_adf'' then options_insert ''cb_adf'' [] opts
                        else opts)
           in Inr (Some \<lparr>so_cb_explore_adf = read_switch opts ''cb_explore_adf'',
                          so_epsilon = epsilon, so_synthcoversize = synthcoversize,
                          so_use_synthcover = read_switch opts ''synthcover'', so_psi = psi,
                          so_with_metrics = was_supplied opts1 ''extra_metrics''\<rparr>, opts1)))))"

text \<open>
  The head of \<open>cb_explore_adf_synthcover_setup\<close>: read the options, return
  \<open>nullptr\<close> when the reduction is not enabled, then the checks and the constructor.
\<close>

definition synthcover_reduction_setup ::
  "options \<Rightarrow> nat \<times> nat \<times> nat \<Rightarrow> error + (synthcover option \<times> options)" where
  "synthcover_reduction_setup opts model_file_ver =
     (case get_cbea_synthcover_options_instance opts of
        Inl e \<Rightarrow> Inl e
      | Inr (None, opts') \<Rightarrow> Inr (None, opts')
      | Inr (Some so, opts') \<Rightarrow>
          (case cb_explore_adf_synthcover_setup (so_epsilon so) (so_synthcoversize so) (so_psi so)
                  model_file_ver of
             Inl e \<Rightarrow> Inl e
           | Inr st \<Rightarrow> Inr (Some st, opts')))"

section \<open>Decimal round trip\<close>

lemma digit_char_of: "d < 10 \<Longrightarrow> (of_char (digit_char d) :: nat) = 48 + d"
  by (simp add: digit_char_def)

lemma digits_val_append:
  "digits_val acc (xs @ ys) = (case digits_val acc xs of None \<Rightarrow> None | Some a \<Rightarrow> digits_val a ys)"
  by (induction acc xs rule: digits_val.induct) simp_all

lemma string_of_nat_unfold:
  "n < 10 \<Longrightarrow> string_of_nat n = [digit_char n]"
  "\<not> n < 10 \<Longrightarrow> string_of_nat n = string_of_nat (n div 10) @ [digit_char (n mod 10)]"
  by (subst string_of_nat.simps, simp)+

lemma digits_val_string_of_nat:
  "digits_val acc (string_of_nat n) = Some (acc * 10 ^ length (string_of_nat n) + n)"
proof (induction n arbitrary: acc rule: string_of_nat.induct)
  case (1 n)
  show ?case
  proof (cases "n < 10")
    case True
    then show ?thesis by (simp add: string_of_nat_unfold is_digit_def digit_char_of)
  next
    case False
    then have "digits_val acc (string_of_nat n) =
        digits_val (acc * 10 ^ length (string_of_nat (n div 10)) + n div 10) [digit_char (n mod 10)]"
      using 1 by (simp add: string_of_nat_unfold(2) digits_val_append)
    also have "\<dots> = Some ((acc * 10 ^ length (string_of_nat (n div 10)) + n div 10) * 10 + n mod 10)"
      by (simp add: is_digit_def digit_char_of)
    finally show ?thesis using False by (simp add: string_of_nat_unfold(2) algebra_simps)
  qed
qed

lemma string_of_nat_nonempty: "string_of_nat n \<noteq> []"
  by (cases "n < 10") (simp_all add: string_of_nat_unfold)

lemma nat_of_string_of_nat [simp]: "nat_of_string (string_of_nat n) = Some n"
  by (simp add: nat_of_string_def string_of_nat_nonempty digits_val_string_of_nat)

lemma parse_u32_unat [simp]: "parse_u32 (string_of_nat (unat (w :: u32))) = Some w"
  using unsigned_less [of w] by (simp add: parse_u32_def)

lemmas options_simps = read_value_def read_switch_def was_supplied_def options_insert_def Let_def domIff

section \<open>Properties of option registration\<close>

text \<open>
  C13: \<open>--learn n\<close> reaches the contextual-bandit layer below: when multiworld testing
  is enabled with \<open>--learn n\<close>, \<open>n > 0\<close>, and no \<open>--cb\<close>, the options come back in
  learn mode with \<open>n\<close> classes, the store gains a \<open>--cb\<close> value that parses back to
  exactly \<open>n\<close>, and \<open>--cb_force_legacy\<close> is set.
\<close>

theorem mwt_options_learn_inserts_cb:
  assumes "opts ''multiworld_test'' = Some s" and "opts ''learn'' = Some v"
    and "parse_u32 v = Some n" and "0 < n" and "opts ''cb'' = None"
  shows "\<exists>mo opts'. get_mwt_options_instance opts = Inr (Some mo, opts') \<and>
    mo_learn mo \<and> mo_num_classes mo = n \<and> mo_s mo = s \<and>
    map_option parse_u32 (opts' ''cb'') = Some (Some n) \<and> was_supplied opts' ''cb_force_legacy''"
  using assms by (simp add: get_mwt_options_instance_def options_simps)

theorem mwt_options_learn_inserts_cb_witness:
  "\<exists>mo opts'. get_mwt_options_instance [''multiworld_test'' \<mapsto> ''ab'', ''learn'' \<mapsto> ''3''] =
      Inr (Some mo, opts') \<and> mo_learn mo \<and> mo_num_classes mo = 3 \<and> mo_s mo = ''ab'' \<and>
      map_option parse_u32 (opts' ''cb'') = Some (Some 3) \<and> was_supplied opts' ''cb_force_legacy''"
proof -
  have "parse_u32 ''3'' = Some 3" by (simp add: parse_u32_def nat_of_string_def is_digit_def)
  then show ?thesis
    using mwt_options_learn_inserts_cb [of "[''multiworld_test'' \<mapsto> ''ab'', ''learn'' \<mapsto> ''3'']"
        "''ab''" "''3''" 3] by simp
qed

text \<open>
  C14: What \<open>get_mwt_options_instance\<close> does to the option store: when it enables the
  reduction, learn mode is exactly \<open>num_classes > 0\<close>, \<open>--cb_force_legacy\<close> is set
  exactly when \<open>--cb\<close> was given or learn mode is on (or it was already set), a given
  \<open>--cb\<close> is never overwritten, and every other option is left as it was.
\<close>

theorem mwt_options_rewrites:
  assumes "get_mwt_options_instance opts = Inr (Some mo, opts')"
  shows "mo_learn mo = (0 < mo_num_classes mo) \<and> was_supplied opts ''multiworld_test'' \<and>
    (was_supplied opts' ''cb_force_legacy'' \<longleftrightarrow>
       was_supplied opts ''cb'' \<or> mo_learn mo \<or> was_supplied opts ''cb_force_legacy'') \<and>
    (was_supplied opts ''cb'' \<longrightarrow> opts' ''cb'' = opts ''cb'') \<and>
    (\<forall>name. name \<noteq> ''cb'' \<and> name \<noteq> ''cb_force_legacy'' \<longrightarrow> opts' name = opts name)"
  using assms
  by (auto simp: get_mwt_options_instance_def options_simps split: sum.splits option.splits if_splits)

theorem mwt_options_rewrites_witness:
  "get_mwt_options_instance [''multiworld_test'' \<mapsto> ''ab'', ''cb'' \<mapsto> ''2''] =
     Inr (Some \<lparr>mo_s = ''ab'', mo_exclude_eval = False, mo_num_classes = 0, mo_learn = False\<rparr>,
          [''multiworld_test'' \<mapsto> ''ab'', ''cb'' \<mapsto> ''2'', ''cb_force_legacy'' \<mapsto> []]) \<and>
   was_supplied [''multiworld_test'' \<mapsto> ''ab'', ''cb'' \<mapsto> ''2'', ''cb_force_legacy'' \<mapsto> []]
     ''cb_force_legacy''"
proof -
  have r: "get_mwt_options_instance [''multiworld_test'' \<mapsto> ''ab'', ''cb'' \<mapsto> ''2''] =
     Inr (Some \<lparr>mo_s = ''ab'', mo_exclude_eval = False, mo_num_classes = 0, mo_learn = False\<rparr>,
          [''multiworld_test'' \<mapsto> ''ab'', ''cb'' \<mapsto> ''2'', ''cb_force_legacy'' \<mapsto> []])"
    by (simp add: get_mwt_options_instance_def options_simps)
  show ?thesis using mwt_options_rewrites [OF r] r by (simp add: was_supplied_def)
qed

text \<open>
  With \<open>--cb_explore_adf --synthcover\<close> and none of the three values given, the
  synthetic-cover setup succeeds with its defaults \<open>epsilon = 0\<close>, \<open>psi = 0.1\<close>,
  \<open>synthcoversize = 100\<close>, and the option store gains \<open>--cb_adf\<close> and nothing else.
\<close>

theorem synthcover_setup_defaults:
  assumes "was_supplied opts ''cb_explore_adf''" and "was_supplied opts ''synthcover''"
    and "opts ''epsilon'' = None" and "opts ''synthcoverpsi'' = None" and "opts ''synthcoversize'' = None"
  shows "\<exists>opts'. synthcover_reduction_setup opts v = Inr (Some (synthcover_new 0 (1 / 10) 100 v), opts') \<and>
    was_supplied opts' ''cb_adf'' \<and> (\<forall>name. name \<noteq> ''cb_adf'' \<longrightarrow> opts' name = opts name)"
  using assms
  by (auto simp: synthcover_reduction_setup_def get_cbea_synthcover_options_instance_def
      cb_explore_adf_synthcover_setup_def options_simps)

theorem synthcover_setup_defaults_witness:
  "\<exists>opts'. synthcover_reduction_setup [''cb_explore_adf'' \<mapsto> [], ''synthcover'' \<mapsto> []] (9, 0, 0) =
     Inr (Some (synthcover_new 0 (1 / 10) 100 (9, 0, 0)), opts') \<and> was_supplied opts' ''cb_adf'' \<and>
     (\<forall>name. name \<noteq> ''cb_adf'' \<longrightarrow> opts' name = [''cb_explore_adf'' \<mapsto> [], ''synthcover'' \<mapsto> []] name)"
  using synthcover_setup_defaults [of "[''cb_explore_adf'' \<mapsto> [], ''synthcover'' \<mapsto> []]" "(9, 0, 0)"]
  by (simp add: was_supplied_def)

end
