(* ===== verification/Stack.thy ===== *)
theory Stack
  imports Options Sfm
begin

text \<open>
  Assembly of the reduction stack: the learner each setup function declares through the
  \<open>make_reduction_learner\<close> builder chain (its label and prediction types, whether it
  is multiline, the optional handlers it installs, \<open>params_per_weight\<close>), and the order
  in which a setup reads options, sets up its base through \<open>setup_base_learner\<close> and
  replaces the workspace's label parser. The stacking decision of the shared feature
  merger reads both the learner below it and the label parser that learner left behind.
\<close>

section \<open>Learner declarations\<close>

datatype prediction_type = PT_scalars | PT_multiclass | PT_action_scores | PT_action_probs | PT_other

datatype handler =
  H_save_load | H_output_example_prediction | H_update_stats | H_print_update
  | H_finish_example | H_print_example | H_persist_metrics

record learner_decl =
  ld_name :: string
  ld_multiline :: bool
  ld_learn_returns_prediction :: bool
  ld_input_label :: label_type
  ld_output_label :: label_type
  ld_input_pred :: prediction_type
  ld_output_pred :: prediction_type
  ld_params_per_weight :: nat
  ld_handlers :: "handler list"

text \<open>
  \<open>make_reduction_learner(data, base, learn, predict, name)\<close> (learner.h): a learner of
  the base's kind whose label and prediction types are the base's until a setter
  replaces them (as the comment in \<open>shared_feature_merger_setup\<close> says), with one
  parameter per weight, \<open>learn_returns_prediction\<close> off and no optional handler.
\<close>

definition make_reduction_learner :: "learner_decl \<Rightarrow> string \<Rightarrow> learner_decl" where
  "make_reduction_learner base name =
     \<lparr>ld_name = name, ld_multiline = ld_multiline base, ld_learn_returns_prediction = False,
      ld_input_label = ld_input_label base, ld_output_label = ld_output_label base,
      ld_input_pred = ld_input_pred base, ld_output_pred = ld_output_pred base,
      ld_params_per_weight = 1, ld_handlers = []\<rparr>"

text \<open>
  \<open>as_multiline\<close> and \<open>as_singleline\<close> (learner.h) refuse a learner of the other kind.
\<close>

definition as_multiline :: "learner_decl \<Rightarrow> error + learner_decl" where
  "as_multiline l = (if ld_multiline l then Inr l else Inl (Configuration_error ''not a multiline learner''))"

definition as_singleline :: "learner_decl \<Rightarrow> error + learner_decl" where
  "as_singleline l = (if ld_multiline l then Inl (Configuration_error ''not a singleline learner'') else Inr l)"

text \<open>
  \<open>setup_base_learner\<close>: the learner below, built from the label parser in force, and
  the label parser it leaves in the workspace.
\<close>

type_synonym base_setup = "label_type \<Rightarrow> learner_decl \<times> label_type"

section \<open>The learners the setups build\<close>

text \<open>
  The tail of \<open>mwt_setup\<close>: the name suffix chosen with the template arguments, then the
  builder chain over the single-line base.
\<close>

definition mwt_learner :: "learner_decl \<Rightarrow> string \<Rightarrow> bool \<Rightarrow> bool \<Rightarrow> learner_decl" where
  "mwt_learner base setupfn_name learn exclude =
     (let name_addition = (if learn then (if exclude then ''-no_eval'' else ''-eval'') else [])
      in (make_reduction_learner base (setupfn_name @ name_addition))
           \<lparr>ld_learn_returns_prediction := True, ld_output_pred := PT_scalars, ld_input_label := LT_cb,
            ld_handlers := [H_save_load, H_output_example_prediction, H_update_stats, H_print_update]\<rparr>)"

text \<open>
  \<open>mwt_setup\<close> as a stack step: the options and the state first, then the base learner
  as a single-line learner, the builder chain, and last the CB label parser.
\<close>

definition mwt_stack_setup ::
  "options \<Rightarrow> nat \<Rightarrow> dense_parameters \<Rightarrow> base_setup \<Rightarrow> string \<Rightarrow> label_type
   \<Rightarrow> error + ((mwt \<times> learner_decl) option \<times> options \<times> label_type)" where
  "mwt_stack_setup opts len weights setup_base setupfn_name lbl =
     (case mwt_reduction_setup opts len weights of
        Inl e \<Rightarrow> Inl e
      | Inr (None, opts') \<Rightarrow> Inr (None, opts', lbl)
      | Inr (Some (st, learn, exclude), opts') \<Rightarrow>
          (case setup_base lbl of
             (b, lbl1) \<Rightarrow>
               (case as_singleline b of
                  Inl e \<Rightarrow> Inl e
                | Inr sb \<Rightarrow> Inr (Some (st, mwt_learner sb setupfn_name learn exclude), opts', LT_cb))))"

text \<open>The builder chain of \<open>cb_explore_adf_synthcover_setup\<close>; \<open>problem_multiplier\<close> is 1.\<close>

definition synthcover_learner :: "learner_decl \<Rightarrow> string \<Rightarrow> learner_decl" where
  "synthcover_learner base setupfn_name =
     (let problem_multiplier = 1
      in (make_reduction_learner base setupfn_name)
           \<lparr>ld_input_label := LT_cb, ld_output_label := LT_cb, ld_input_pred := PT_action_scores,
            ld_output_pred := PT_action_probs, ld_params_per_weight := problem_multiplier,
            ld_handlers := [H_finish_example, H_print_example, H_save_load, H_persist_metrics]\<rparr>)"

text \<open>
  \<open>cb_explore_adf_synthcover_setup\<close> as a stack step: options and their checks first,
  then the base learner as a multiline learner, the CB label parser, and the builder chain.
\<close>

definition synthcover_stack_setup ::
  "options \<Rightarrow> nat \<times> nat \<times> nat \<Rightarrow> base_setup \<Rightarrow> string \<Rightarrow> label_type
   \<Rightarrow> error + ((synthcover \<times> learner_decl) option \<times> options \<times> label_type)" where
  "synthcover_stack_setup opts model_file_ver setup_base setupfn_name lbl =
     (case synthcover_reduction_setup opts model_file_ver of
        Inl e \<Rightarrow> Inl e
      | Inr (None, opts') \<Rightarrow> Inr (None, opts', lbl)
      | Inr (Some st, opts') \<Rightarrow>
          (case setup_base lbl of
             (b, lbl1) \<Rightarrow>
               (case as_multiline b of
                  Inl e \<Rightarrow> Inl e
                | Inr mb \<Rightarrow> Inr (Some (st, synthcover_learner mb setupfn_name), opts', LT_cb))))"

text \<open>\<open>get_shared_feature_merger_options_instance\<close>: two presence tests.\<close>

definition get_shared_feature_merger_options_instance :: "options \<Rightarrow> bool \<times> bool" where
  "get_shared_feature_merger_options_instance opts =
     (was_supplied opts ''extra_metrics'', was_supplied opts ''large_action_space'')"

text \<open>
  \<open>shared_feature_merger_setup\<close> as a stack step: options, then the stack below (which
  may fail or build nothing), then the stacking decision on the learner below and the
  label parser it left; the merger's learner inherits its types and
  \<open>learn_returns_prediction\<close> from the base.
\<close>

definition sfm_stack_setup ::
  "options \<Rightarrow> (label_type \<Rightarrow> error + (learner_decl option \<times> label_type)) \<Rightarrow> string \<Rightarrow> label_type
   \<Rightarrow> error + (sfm_setup_result \<times> learner_decl option \<times> label_type)" where
  "sfm_stack_setup opts setup_below setupfn_name lbl =
     (case get_shared_feature_merger_options_instance opts of
        (extra_metrics, large_action_space) \<Rightarrow>
          (case setup_below lbl of
             Inl e \<Rightarrow> Inl e
           | Inr (None, lbl1) \<Rightarrow> Inr (Sfm_no_base, None, lbl1)
           | Inr (Some b, lbl1) \<Rightarrow>
               (case shared_feature_merger_setup extra_metrics large_action_space
                       (Some (ld_input_label b)) (ld_multiline b) lbl1 of
                  Sfm_reduction d \<Rightarrow>
                    Inr (Sfm_reduction d,
                         Some ((make_reduction_learner b setupfn_name)
                                 \<lparr>ld_learn_returns_prediction := ld_learn_returns_prediction b,
                                  ld_handlers := [H_persist_metrics]\<rparr>), lbl1)
                | r \<Rightarrow> Inr (r, Some b, lbl1))))"

text \<open>A reduction's stack step seen from the layer above: its learner and the parser it left.\<close>

definition below :: "(label_type \<Rightarrow> error + (('s \<times> learner_decl) option \<times> options \<times> label_type))
                     \<Rightarrow> label_type \<Rightarrow> error + (learner_decl option \<times> label_type)" where
  "below step lbl = map_sum id (\<lambda>(r, _, lbl'). (map_option snd r, lbl')) (step lbl)"

section \<open>Stacking\<close>

lemma below_synthcover:
  assumes "synthcover_reduction_setup opts v = Inr (Some st, opts')"
    and "ld_multiline (fst (setup_base lbl))"
  shows "below (synthcover_stack_setup opts v setup_base nm) lbl =
    Inr (Some (synthcover_learner (fst (setup_base lbl)) nm), LT_cb)"
  using assms by (cases "setup_base lbl") (simp add: below_def synthcover_stack_setup_def as_multiline_def)

lemma below_mwt:
  assumes "mwt_reduction_setup opts len w = Inr (Some (st, learn, exclude), opts')"
    and "\<not> ld_multiline (fst (setup_base lbl))"
  shows "below (mwt_stack_setup opts len w setup_base nm) lbl =
    Inr (Some (mwt_learner (fst (setup_base lbl)) nm learn exclude), LT_cb)"
  using assms by (cases "setup_base lbl") (simp add: below_def mwt_stack_setup_def as_singleline_def)

lemma synthcover_learner_decl:
  "ld_multiline (synthcover_learner b nm) = ld_multiline b \<and>
   ld_input_label (synthcover_learner b nm) = LT_cb \<and>
   ld_output_pred (synthcover_learner b nm) = PT_action_probs"
  by (simp add: synthcover_learner_def make_reduction_learner_def)

lemma mwt_learner_decl:
  "ld_multiline (mwt_learner b nm learn exclude) = ld_multiline b \<and>
   ld_input_label (mwt_learner b nm learn exclude) = LT_cb"
  by (simp add: mwt_learner_def make_reduction_learner_def Let_def)

text \<open>
  C18: Stacked over synthetic cover on a multiline base, the shared feature merger always
  builds its reduction, with the CB label type whatever parser was in force before: the
  synthetic-cover setup replaces the label parser after setting up its own base and
  before the merger reads it. The merger's learner is multiline, takes CB labels and
  outputs action probabilities, as the layer below declares.
\<close>

theorem sfm_stacks_over_synthcover:
  assumes syn: "synthcover_reduction_setup opts v = Inr (Some st, opts')"
    and base: "fst (setup_base lbl) = b" and multi: "ld_multiline b"
  shows "sfm_stack_setup sopts (below (synthcover_stack_setup opts v setup_base nm)) nm' lbl =
    Inr (Sfm_reduction \<lparr>sfm_metrics = (if was_supplied sopts ''extra_metrics'' then Some 0 else None),
                        sfm_label_type = LT_cb,
                        sfm_store_shared = was_supplied sopts ''large_action_space''\<rparr>,
         Some \<lparr>ld_name = nm', ld_multiline = True, ld_learn_returns_prediction = False,
               ld_input_label = LT_cb, ld_output_label = LT_cb, ld_input_pred = PT_action_scores,
               ld_output_pred = PT_action_probs, ld_params_per_weight = 1,
               ld_handlers = [H_persist_metrics]\<rparr>, LT_cb)"
  using below_synthcover [where nm = nm, OF syn] base synthcover_learner_decl [of b nm] multi
  by (simp add: sfm_stack_setup_def get_shared_feature_merger_options_instance_def
      shared_feature_merger_setup_def make_reduction_learner_def synthcover_learner_def)

text \<open>
  C21: Stacked over multiworld testing, whose learner is single-line, the shared feature
  merger builds nothing and the stack is the multiworld-testing learner itself, with the
  CB label parser it installed.
\<close>

theorem sfm_passes_mwt_through:
  assumes mwt: "mwt_reduction_setup opts len w = Inr (Some (st, learn, exclude), opts')"
    and base: "fst (setup_base lbl) = b" and single: "\<not> ld_multiline b"
  shows "sfm_stack_setup sopts (below (mwt_stack_setup opts len w setup_base nm)) nm' lbl =
    Inr (Sfm_base_only, Some (mwt_learner b nm learn exclude), LT_cb)"
  using below_mwt [where nm = nm, OF mwt] base mwt_learner_decl [of b nm learn exclude] single
  by (simp add: sfm_stack_setup_def get_shared_feature_merger_options_instance_def
      shared_feature_merger_setup_def)

text \<open>Learners for the witnesses: a multiline CB learner (\<open>cb_adf\<close>) and a single-line one (\<open>cb\<close>).\<close>

abbreviation ex_adf :: learner_decl where
  "ex_adf \<equiv> \<lparr>ld_name = ''cb_adf'', ld_multiline = True, ld_learn_returns_prediction = True,
      ld_input_label = LT_cb, ld_output_label = LT_cb, ld_input_pred = PT_action_scores,
      ld_output_pred = PT_action_scores, ld_params_per_weight = 1, ld_handlers = []\<rparr>"

abbreviation ex_cb :: learner_decl where
  "ex_cb \<equiv> ex_adf\<lparr>ld_name := ''cb_algs'', ld_multiline := False, ld_output_pred := PT_multiclass\<rparr>"

theorem sfm_stacks_over_synthcover_witness:
  "\<exists>opts'. synthcover_reduction_setup [''cb_explore_adf'' \<mapsto> [], ''synthcover'' \<mapsto> []] (9, 0, 0) =
      Inr (Some (synthcover_new 0 (1 / 10) 100 (9, 0, 0)), opts') \<and>
    sfm_stack_setup Map.empty
      (below (synthcover_stack_setup [''cb_explore_adf'' \<mapsto> [], ''synthcover'' \<mapsto> []] (9, 0, 0)
                (\<lambda>l. (ex_adf, l)) ''cb_explore_adf_synthcover'')) ''shared_feature_merger'' LT_other =
    Inr (Sfm_reduction \<lparr>sfm_metrics = None, sfm_label_type = LT_cb, sfm_store_shared = False\<rparr>,
         Some \<lparr>ld_name = ''shared_feature_merger'', ld_multiline = True, ld_learn_returns_prediction = False,
               ld_input_label = LT_cb, ld_output_label = LT_cb, ld_input_pred = PT_action_scores,
               ld_output_pred = PT_action_probs, ld_params_per_weight = 1,
               ld_handlers = [H_persist_metrics]\<rparr>, LT_cb)"
proof -
  obtain opts' where syn: "synthcover_reduction_setup [''cb_explore_adf'' \<mapsto> [], ''synthcover'' \<mapsto> []] (9, 0, 0) =
      Inr (Some (synthcover_new 0 (1 / 10) 100 (9, 0, 0)), opts')"
    by (auto simp: synthcover_reduction_setup_def get_cbea_synthcover_options_instance_def
        cb_explore_adf_synthcover_setup_def options_simps)
  have r: "sfm_stack_setup Map.empty
      (below (synthcover_stack_setup [''cb_explore_adf'' \<mapsto> [], ''synthcover'' \<mapsto> []] (9, 0, 0)
                (\<lambda>l. (ex_adf, l)) ''cb_explore_adf_synthcover'')) ''shared_feature_merger'' LT_other =
    Inr (Sfm_reduction \<lparr>sfm_metrics = (if was_supplied Map.empty ''extra_metrics'' then Some 0 else None),
                        sfm_label_type = LT_cb,
                        sfm_store_shared = was_supplied Map.empty ''large_action_space''\<rparr>,
         Some \<lparr>ld_name = ''shared_feature_merger'', ld_multiline = True, ld_learn_returns_prediction = False,
               ld_input_label = LT_cb, ld_output_label = LT_cb, ld_input_pred = PT_action_scores,
               ld_output_pred = PT_action_probs, ld_params_per_weight = 1,
               ld_handlers = [H_persist_metrics]\<rparr>, LT_cb)"
    by (rule sfm_stacks_over_synthcover [OF syn, where b = ex_adf]) simp_all
  show ?thesis using syn r by (simp add: was_supplied_def)
qed

theorem sfm_passes_mwt_through_witness:
  "\<exists>st. mwt_reduction_setup [''multiworld_test'' \<mapsto> ''ab'', ''cb'' \<mapsto> ''2''] 2 ex_dense =
     Inr (Some (st, False, False), [''multiworld_test'' \<mapsto> ''ab'', ''cb'' \<mapsto> ''2'', ''cb_force_legacy'' \<mapsto> []]) \<and>
   sfm_stack_setup Map.empty
      (below (mwt_stack_setup [''multiworld_test'' \<mapsto> ''ab'', ''cb'' \<mapsto> ''2''] 2 ex_dense
                (\<lambda>l. (ex_cb, l)) ''multiworld_test'')) ''shared_feature_merger'' LT_other =
    Inr (Sfm_base_only, Some (mwt_learner ex_cb ''multiworld_test'' False False), LT_cb)"
proof -
  obtain st where m: "mwt_reduction_setup [''multiworld_test'' \<mapsto> ''ab'', ''cb'' \<mapsto> ''2''] 2 ex_dense =
     Inr (Some (st, False, False), [''multiworld_test'' \<mapsto> ''ab'', ''cb'' \<mapsto> ''2'', ''cb_force_legacy'' \<mapsto> []])"
    by (simp add: mwt_reduction_setup_def get_mwt_options_instance_def options_simps mwt_setup_def)
  have "sfm_stack_setup Map.empty
      (below (mwt_stack_setup [''multiworld_test'' \<mapsto> ''ab'', ''cb'' \<mapsto> ''2''] 2 ex_dense
                (\<lambda>l. (ex_cb, l)) ''multiworld_test'')) ''shared_feature_merger'' LT_other =
    Inr (Sfm_base_only, Some (mwt_learner ex_cb ''multiworld_test'' False False), LT_cb)"
    by (rule sfm_passes_mwt_through [OF m]) simp_all
  then show ?thesis using m by blast
qed

end
