(* ===== verification/ConfSeq.thy ===== *)
theory ConfSeq
  imports Prelude
begin

text \<open>
  The robust confidence-sequence estimator of confidence_sequence_robust.h. The header
  declares the classes, their private state and the constructors' default arguments;
  no method body is part of the repository, so the state and the defaults are all that
  can be modelled. Inheritance (\<open>robust_mixture : countable_discrete_base\<close>) is record
  extension; \<open>double\<close> is \<open>real\<close>, \<open>uint64_t\<close> is \<open>u64\<close>.
\<close>

section \<open>State\<close>

record countable_discrete_base =
  cd_lambda_max :: real
  cd_xi :: real
  cd_log_xi :: real
  cd_t :: u64

record g_tilde =
  gt_k :: real
  gt_log_k :: real
  gt_sum_low_v :: real
  gt_sum_mid_v :: real
  gt_sum_v_histo :: "real list"
  gt_t :: u64

record robust_mixture = countable_discrete_base +
  rm_eta :: real
  rm_r :: real
  rm_gtilde :: g_tilde
  rm_scalefac :: real
  rm_logscalefac :: real
  rm_logxim1 :: real

record off_policy_cs =
  ocs_lower :: robust_mixture
  ocs_upper :: robust_mixture

section \<open>Default constructor arguments\<close>

text \<open>\<open>countable_discrete_base(double lambda_max = 0.5, double xi = 1.6)\<close>.\<close>

definition countable_discrete_base_defaults :: "real \<times> real" where
  "countable_discrete_base_defaults = (1 / 2, 16 / 10)"

text \<open>
  \<open>robust_mixture(double eta = 0.95f, double r = 2, double k = 1.5)\<close>: the default of
  \<open>eta\<close> is a \<open>float\<close> literal, so the double it initialises is the binary32 number
  nearest to 0.95, \<open>15938355 / 2^24\<close>, not 0.95.
\<close>

definition robust_mixture_defaults :: "real \<times> real \<times> real" where
  "robust_mixture_defaults = (15938355 / 2 ^ 24, 2, 3 / 2)"

section \<open>The float default of eta\<close>

lemma dist_095_scaled:
  "\<bar>x / 2 ^ 24 - 95 / 100\<bar> = \<bar>x - 79691776 / 5\<bar> / 2 ^ 24" for x :: real
proof -
  have "x / 2 ^ 24 - 95 / 100 = (x - 79691776 / 5) / 2 ^ 24" by (simp add: diff_divide_distrib)
  then show ?thesis by (simp only: abs_divide) simp
qed

lemma robust_mixture_eta_nearest:
  fixes m :: int
  shows "\<bar>fst robust_mixture_defaults - 95 / 100\<bar> \<le> \<bar>real_of_int m / 2 ^ 24 - 95 / 100\<bar>"
proof -
  have e: "\<bar>fst robust_mixture_defaults - 95 / 100\<bar> = (1 / 5) / 2 ^ 24"
    using dist_095_scaled [of 15938355] by (simp add: robust_mixture_defaults_def)
  have "1 / 5 \<le> \<bar>real_of_int m - 79691776 / 5\<bar>"
  proof (cases "m \<le> 15938355")
    case True
    then have "real_of_int m \<le> 15938355" by linarith
    then show ?thesis by linarith
  next
    case False
    then have "15938356 \<le> real_of_int m" by linarith
    then show ?thesis by linarith
  qed
  then have "(1 / 5) / 2 ^ 24 \<le> \<bar>real_of_int m - 79691776 / 5\<bar> / (2 ^ 24 :: real)"
    by (rule divide_right_mono) simp
  then show ?thesis using e dist_095_scaled [of "real_of_int m"] by simp
qed

lemma robust_mixture_eta_not_095:
  "fst robust_mixture_defaults \<noteq> 95 / 100 \<and> \<bar>fst robust_mixture_defaults - 95 / 100\<bar> < 1 / 2 ^ 24"
  using dist_095_scaled [of 15938355] by (simp add: robust_mixture_defaults_def)

end
