(* ===== verification/Spec2Isabelle.thy ===== *)
theory Spec2Isabelle
  imports Weights Offsets Synthcover Mwt MwtRun MwtOutput Sfm Options Stack ConfSeq
begin

text \<open>
  \<^bold>\<open>A verification library for the reduction core of Vowpal Wabbit.\<close>

  \<^bold>\<open>The program.\<close> Five files: the strided weight store
  (src/vowpalwabbit/array_parameters_dense.h), three reductions of the learning stack
  (src/vowpalwabbit/core/src/reductions/: cb/cb_explore_adf_synthcover.cc, mwt.cc,
  shared_feature_merger.cc) and the declarations of the robust confidence sequence
  (core/include/vw/core/confidence_sequence_robust.h). A reduction is called with one
  example or a group of examples, may rewrite them, calls the next layer down (its base),
  and rewrites the result. The multiworld-testing reduction reads the mask and stride
  shift of the weight store; the shared feature merger sits above a multiline base such
  as the synthetic-cover exploration reduction.

  \<^bold>\<open>Theories.\<close>
  \<^item> Prelude: machine words \<open>u8\<close>, \<open>u32\<close>, \<open>u64\<close>; \<open>weight = real\<close> for \<open>float\<close>
    and \<open>double\<close>; \<open>fdiv\<close>, a division that is \<open>None\<close> (NaN or infinity) at 0; the
    \<open>error\<close> type through which every throw and every undefined access is a value;
    bounds-checked \<open>arr_get\<close>/\<open>arr_set\<close> for unchecked \<open>operator[]\<close>; the loop
    combinators \<open>fold_err\<close>/\<open>map_err\<close>; \<open>float_to_word\<close> for \<open>static_cast\<close>; the
    generic lemmas on words, lists and sums.
  \<^item> Weights: \<open>dense_parameters\<close> over an explicit store \<open>wmem\<close> of buffers (ownership,
    aliasing by \<open>shallow_copy\<close>, double free). Operations: the constructors,
    \<open>operator[]\<close> (\<open>index_read\<close>/\<open>index_write\<close>), \<open>strided_index\<close>, \<open>mask\<close>,
    \<open>stride\<close>, \<open>stride_shift\<close>, \<open>not_null\<close>, \<open>set_default\<close>, \<open>set_zero\<close>,
    \<open>swap_offsets\<close>, \<open>copy_offsets\<close>, \<open>clear_offset\<close>, \<open>share\<close>, the destructor;
    the iterator loop of the file is \<open>dense_loop\<close>, a partial function. The public
    mutators form the datatype \<open>dense_op\<close>, run in sequence by \<open>dense_run\<close>.
  \<^item> Offsets: the buffer as one row per stride group (\<open>weight_rows\<close>) and the row-wise
    contracts of \<open>clear_offset\<close>, \<open>set_default\<close> and \<open>swap_offsets\<close> from the
    specification's problem blocks of \<open>params_per_problem\<close> rows.
  \<^item> Protocol: the collaborators the reductions call, modelled from the specification
    since they live outside src/: examples, CB labels, predictions, the action-score
    order and STL heap (a list sorted by (score, action)), \<open>enforce_minimum_probability\<close>,
    header detection and namespace splicing of example.cc, and the model file of
    io_buf.h as a sequence of typed fixed-width fields. A base learner is a function from
    the examples it gets to the examples it leaves and the exception it raised.
  \<^item> Synthcover: \<open>cb_explore_adf_synthcover\<close>: constructor, \<open>predict_or_learn_impl\<close>
    (\<open>synth_predict_or_learn_impl\<close>) with its two cover loops \<open>synth_outer\<close> and
    \<open>synth_inner\<close> over the \<open>uint32_t\<close> counter, \<open>save_load\<close>, and the checks of
    \<open>cb_explore_adf_synthcover_setup\<close>.
  \<^item> Mwt: the \<open>mwt\<close> class, \<open>value_policy\<close>, \<open>predict_or_learn<learn, exclude,
    is_learn>\<close> (\<open>mwt_predict_or_learn\<close>) as its stages \<open>mwt_observe\<close>,
    \<open>mwt_exclude\<close>, base call, \<open>mwt_restore\<close> (the while loop, a terminating
    \<^theory_text>\<open>function\<close>) and \<open>mwt_scalars\<close>; \<open>save_load\<close> and \<open>mwt_setup\<close>.
  \<^item> MwtRun: a stream of calls on one MWT state (\<open>mwt_trace\<close>, the driver's loop),
    the state after each call and the scalars it emitted; an exception aborts the run.
  \<^item> MwtOutput: what the driver does with a result: \<open>MWT::print_scalars\<close>
    (\<open>print_scalars\<close>, the line written to a sink, the float printer a parameter),
    \<open>output_example_prediction_mwt\<close> (one line per sink), \<open>update_stats_mwt\<close> (the
    arguments passed to \<open>shared_data::update\<close>) and \<open>print_update_mwt\<close> (the
    arguments passed to \<open>shared_data::print_update\<close>, or nothing).
  \<^item> Sfm: \<open>sfm_data\<close> and \<open>predict_or_learn<is_learn>\<close> (\<open>sfm_predict_or_learn\<close>)
    with its scope guard \<open>sfm_restore\<close>, \<open>persist\<close> and the stacking decision of
    \<open>shared_feature_merger_setup\<close>.

  \<^item> Options: the option store of \<open>options_i\<close> (from the specification: names to value
    strings, typed reads with defaults, \<open>insert\<close>, decimal printing and parsing),
    \<open>get_mwt_options_instance\<close>, \<open>get_cbea_synthcover_options_instance\<close>, and the
    heads of \<open>mwt_setup\<close> and \<open>cb_explore_adf_synthcover_setup\<close> that read them
    (\<open>mwt_reduction_setup\<close>, \<open>synthcover_reduction_setup\<close>).
  \<^item> Stack: stack assembly. A learner is the record \<open>learner_decl\<close> of what its setup
    declares through the \<open>make_reduction_learner\<close> builder chain (label and prediction
    types, multiline or not, \<open>learn_returns_prediction\<close>, \<open>params_per_weight\<close>, the
    optional handlers). The tails of \<open>mwt_setup\<close>, \<open>cb_explore_adf_synthcover_setup\<close>
    and \<open>shared_feature_merger_setup\<close> are stack steps (\<open>mwt_stack_setup\<close>,
    \<open>synthcover_stack_setup\<close>, \<open>sfm_stack_setup\<close>) that thread the workspace's label
    parser through \<open>setup_base_learner\<close> in the order of the source. The builder,
    \<open>as_multiline\<close> and \<open>as_singleline\<close> of learner.h are modelled from the
    specification and the comment of the merger's setup (unset types are the base's).
  \<^item> ConfSeq: the state of the robust confidence sequence (records, with
    \<open>robust_mixture\<close> extending \<open>countable_discrete_base\<close>) and the constructors'
    default arguments.

  The root theory composes them: \<open>synth_base\<close> is the synthetic-cover handler in the
  place of the merger's base, as the learner stack calls it.

  Every handler returns \<open>error + state\<close>: \<open>Inl\<close> is an undefined access (a read of
  \<open>examples[0]\<close> of an empty group, an index past a buffer), while an exception of
  the handler or its base is part of the \<open>Inr\<close> result together with the state it
  leaves behind, because the C++ keeps the mutations made before a throw.

  \<^bold>\<open>What is proved.\<close>
  \<^item> Weights: every \<open>operator[]\<close> access on a well-formed store is in bounds and
    masked; the constructor yields a well-formed store; \<open>set_zero\<close> zeroes exactly one
    slot per stride group; the zero-skip of \<open>swap_offsets\<close> is equivalent to the
    unconditional swap; the loops return for every stride shift below 32; on a store
    whose stride divides the buffer, every sequence of the calls that need no argument
    check (\<open>dense_op_safe\<close>) returns without a fault, keeps the store well-formed and
    touches only its buffer. Findings, each for every owner or construction: \<open>share()\<close>
    on a view frees the owner's buffer, which the owner's destructor frees again;
    \<open>shallow_copy\<close> into itself leaves every access a use after free; \<open>not_null()\<close>
    is false exactly for one float and true for zero floats.
  \<^item> Offsets: \<open>clear_offset\<close>, \<open>set_default\<close> and \<open>swap_offsets\<close> refine their
    row-wise contracts, and \<open>swap_offsets\<close> applied twice restores the store.
  \<^item> Synthcover: for two or more actions and a cover size in \<open>[1, 2^32)\<close> the handler
    returns and emits a probability distribution over all actions, sorted decreasingly;
    a single action gets probability 1; the cost range invariant \<open>min \<le> 0 \<le> max\<close>; the
    setup checks; the \<open>save_load\<close> round trip; an empty group is an out-of-range access.
  \<^item> Mwt: the policy-table invariant (every maskable policy id indexes \<open>evals\<close>, the
    discovery list is duplicate free and complete, \<open>total \<ge> 1\<close> once a policy exists)
    holds after setup over a store from \<open>dense_parameters(length, stride_shift)\<close> and
    is kept by every call, which is then defined; outputs are finite; the feature swap is
    undone exactly for examples listing each namespace once; \<open>save_load\<close> round trip.
    Findings: no restore when the base raises; a namespace listed twice comes back
    remapped twice; on any consistent state with a count of 0 (which \<open>save_load\<close>
    accepts from a file) an unlabelled call emits NaN for every policy.
  \<^item> MwtRun: liveness of discovery: once a call has seen an observed cost with a
    feature of an evaluated namespace, that policy is reported in every later output.
  \<^item> MwtOutput: the printed line is the scalars joined by single spaces, then the tag
    after a space. After a returning learn call, \<open>update_stats_mwt\<close> charges the
    estimate of the observed cost on the class the base predicted (loss 0 without an
    observation). Finding: the progress line prints \<open>unknown\<close> exactly for examples
    that have an observed cost, and \<open> known\<close> for those that have none.
  \<^item> Sfm: the group is restored on both exits of the base; the empty-group exception;
    pass-through without a header; the metric counts exactly completed learn calls with
    a header. Findings: a header-only group is an out-of-range access; for every base
    the header comes back with the prediction the base wrote into the first action.
  \<^item> Options: \<open>--learn n\<close> without \<open>--cb\<close> inserts a \<open>--cb\<close> value that parses back
    to \<open>n\<close>; the exact rewrites of the option store by the multiworld-testing options;
    the synthetic-cover defaults give a successful setup.
  \<^item> Stack: stacked over synthetic cover on a multiline base, the merger always builds
    its reduction, with the CB label type whatever parser was in force before; stacked
    over multiworld testing (single-line) it builds nothing and the stack is the
    multiworld-testing learner.
  \<^item> ConfSeq: the default \<open>eta = 0.95f\<close> is the binary32 number nearest 0.95, which
    is not 0.95.
  \<^item> Composition (this theory): the merger stacked over synthetic cover returns the
    exploration distribution in the shared header.

  \<^bold>\<open>Bounds and fuel.\<close> No fuel is used. Loops that may not end are
  \<^theory_text>\<open>partial_function (option)\<close>: \<open>dense_loop\<close> (a zero stride never reaches the
  end), \<open>synth_outer\<close>/\<open>synth_inner\<close> (the 32-bit counter wraps when
  \<open>synthcoversize \<ge> 2^32\<close>). Their return is proved for stride shift \<open>< 32\<close> and
  for \<open>synthcoversize < 2^32\<close>, which is exactly where the counter cannot wrap before
  reaching the budget. \<open>mwt_restore\<close> terminates by the length of the stash.

  \<^bold>\<open>Not modelled.\<close>
  \<^item> confidence_sequence_robust.h declares the member functions of the estimator
    but none of their bodies is among the sources: only its state and the default
    arguments are modelled, none of its operations.
  \<^item> The option library itself and the learner builder are external: the option store
    and \<open>make_reduction_learner\<close> are modelled from the specification; a learner
    declaration records which handlers are installed, and the handlers themselves are
    the models' functions.
  \<^item> Output only: logging and trace messages, the write of \<open>print_scalars\<close>'s line
    (a short write is only logged), the formatting inside \<open>shared_data::print_update\<close>,
    the text-mode messages of \<open>save_load\<close> (a text write is the abstract field
    \<open>MF_text\<close>).
  \<^item> Floating-point rounding: \<open>float\<close> and \<open>double\<close> are reals; NaN appears only as
    the \<open>None\<close> of a division by zero. \<open>share\<close>'s cross-process visibility and the
    random state held by synthcover (never used by the source) are not modelled.
\<close>

section \<open>Composition: the merger over synthetic cover\<close>

text \<open>
  The learner stack calls a multiline reduction as the base of the one above it. The
  synthetic-cover handler, with its state fixed for one call, is a base of the merger:
  its result examples are passed up, and an exception or undefined access of it is an
  exception of the base.
\<close>

definition synth_base :: "multi_base \<Rightarrow> synthcover \<Rightarrow> multi_base" where
  "synth_base base st =
     (\<lambda>is_learn exs.
        case synth_predict_or_learn_impl is_learn base st exs of
          Some (Inr (_, exs')) \<Rightarrow> (exs', None)
        | Some (Inl e) \<Rightarrow> (exs, Some e)
        | None \<Rightarrow> (exs, Some Base_error))"

text \<open>
  C9: Stacked over synthetic cover, the merger hands the exploration distribution to
  the shared header: for a CB group of a header and two or more actions, where the
  header's action scores (which the merger swaps into the first action) score every
  action once, the call returns and the header comes back carrying a probability
  distribution over all actions.
\<close>

theorem sfm_over_synthcover_header_distribution:
  assumes hdr: "ec_is_example_header hdr (sfm_label_type data)"
    and two: "rest \<noteq> []"
    and len: "length (pp_a_s (ex_pred hdr)) = length (e0 # rest)"
    and acts: "\<forall>a\<in>set (pp_a_s (ex_pred hdr)). unat (as_action a) < length (e0 # rest)"
    and sz0: "0 < unat (sc_synthcoversize st)" and sz: "unat (sc_synthcoversize st) < 2 ^ 32"
    and eps: "0 \<le> sc_epsilon st"
  shows "\<exists>data' g. sfm_predict_or_learn True (synth_base (\<lambda>b xs. (xs, None)) st) data (hdr # e0 # rest) =
      Inr (data', g, None) \<and>
    sum_list (map as_score (pp_a_s (ex_pred (hd g)))) = 1 \<and>
    (\<forall>a\<in>set (pp_a_s (ex_pred (hd g))). 0 \<le> as_score a) \<and>
    mset (map as_action (pp_a_s (ex_pred (hd g)))) = mset (map of_nat [0..<length (e0 # rest)])"
proof -
  let ?M = "sfm_merge (sfm_store_shared data) hdr"
  let ?x = "(?M e0)\<lparr>ex_pred := ex_pred hdr, ex_tag := ex_tag hdr\<rparr>"
  let ?L = "?x # map ?M rest"
  let ?st1 = "update_cost_range st ?L"
  have k: "sc_epsilon ?st1 = sc_epsilon st \<and> sc_synthcoversize ?st1 = sc_synthcoversize st"
    using update_cost_range_keeps by blast
  have n2: "2 \<le> length ?L" using two by (cases rest) auto
  have l: "length (pp_a_s (ex_pred ?x)) = length ?L" using len by simp
  have a: "\<forall>a\<in>set (pp_a_s (ex_pred ?x)). unat (as_action a) < length ?L" using acts by simp
  have "\<exists>out. synth_explore ?st1 (length ?L) (pp_a_s (ex_pred ?x)) =
           Some (Inr (?st1\<lparr>sc_action_probs := out\<rparr>, out)) \<and>
      sum_list (map as_score out) = 1 \<and> (\<forall>a\<in>set out. 0 \<le> as_score a) \<and>
      sorted (rev (map as_key out)) \<and> mset (map as_action out) = mset (map of_nat [0..<length ?L])"
    by (rule synth_explore_distribution [OF n2 l a]) (use sz0 sz eps k in simp_all)
  then obtain out where ex: "synth_explore ?st1 (length ?L) (pp_a_s (ex_pred ?x)) =
           Some (Inr (?st1\<lparr>sc_action_probs := out\<rparr>, out))"
    and p: "sum_list (map as_score out) = 1" "\<forall>a\<in>set out. 0 \<le> as_score a"
      "mset (map as_action out) = mset (map of_nat [0..<length ?L])"
    by blast
  have "synth_predict_or_learn_impl True (\<lambda>b xs. (xs, None)) st ?L =
      Some (Inr (?st1\<lparr>sc_action_probs := out\<rparr>, update_a_s ?x out # map ?M rest))"
    using two ex by (simp add: synth_predict_or_learn_impl_def)
  then have b: "synth_base (\<lambda>b xs. (xs, None)) st True ?L = (update_a_s ?x out # map ?M rest, None)"
    by (simp add: synth_base_def)
  have run: "sfm_predict_or_learn True (synth_base (\<lambda>b xs. (xs, None)) st) data (hdr # e0 # rest) =
      Inr (sfm_count True True data,
           hdr\<lparr>ex_pred := ex_pred (update_a_s ?x out), ex_tag := ex_tag (update_a_s ?x out)\<rparr> #
           (sfm_unmerge (sfm_store_shared data) hdr (update_a_s ?x out))\<lparr>ex_pred := ex_pred e0, ex_tag := ex_tag e0\<rparr> #
           map (sfm_unmerge (sfm_store_shared data) hdr) (map ?M rest), None)"
    using sfm_header_run [of hdr data "synth_base (\<lambda>b xs. (xs, None)) st" True e0 rest, OF hdr b] by simp
  show ?thesis using run p by (simp add: update_a_s_def)
qed

theorem sfm_over_synthcover_header_distribution_witness:
  "\<exists>data' g. sfm_predict_or_learn True
       (synth_base (\<lambda>b xs. (xs, None)) (synthcover_new 0 (1/10) 10 (9, 0, 0))) sfm_cb
       ((sfm_hdr\<lparr>ex_pred := \<lparr>pp_scalars = [], pp_multiclass = 0,
         pp_a_s = [\<lparr>as_action = 0, as_score = 3/10\<rparr>, \<lparr>as_action = 1, as_score = 7/10\<rparr>]\<rparr>\<rparr>) # sfm_act # [sfm_act]) = Inr (data', g, None) \<and>
    sum_list (map as_score (pp_a_s (ex_pred (hd g)))) = 1 \<and>
    (\<forall>a\<in>set (pp_a_s (ex_pred (hd g))). 0 \<le> as_score a) \<and>
    mset (map as_action (pp_a_s (ex_pred (hd g)))) = mset (map of_nat [0..<length (sfm_act # [sfm_act])])"
  by (rule sfm_over_synthcover_header_distribution)
     (simp_all add: ec_is_example_header_def synthcover_new_def)

end
